(* ===== verification/Prelude.thy ===== *)
theory Prelude
  imports Complex_Main "HOL-Library.Word" "HOL-Library.Sublist"
begin

text \<open>
  What every theory of the development shares: the type names of the model, the fact
  collections, the Go string functions the source calls, and generic lemmas on lists and sums.
\<close>

section \<open>Names of types\<close>

text \<open>
  A UUID is its 128 bits; \<open>uuid.Nil\<close> is 0. An amount of money (\<open>decimal.Decimal\<close>, an exact
  decimal number) is the rational number it denotes. A point in time and a duration are counts
  of nanoseconds. A Go string is its bytes, which is what \<open>len\<close> counts.
\<close>

type_synonym uuid = "128 word"
type_synonym decimal = rat
type_synonym time = int
type_synonym duration = int

abbreviation uuid_nil :: uuid where
  "uuid_nil \<equiv> 0"

text \<open>
  The fact collections: \<open>run\<close> unfolds effectful computations to their cases; \<open>wf_intro\<close>
  collects the facts that operations keep the invariants of their components.
\<close>

named_theorems run \<open>rules that run effectful computations\<close>
named_theorems wf_intro \<open>operations keep invariants\<close>

section \<open>Go strings\<close>

text \<open>
  The UTF-8 encodings of the characters \<open>unicode.IsSpace\<close> accepts, which is what
  \<open>strings.TrimSpace\<close> removes from both ends.
\<close>

definition space_encodings :: "string list" where
  "space_encodings =
     [[CHR 0x09], [CHR 0x0A], [CHR 0x0B], [CHR 0x0C], [CHR 0x0D], [CHR 0x20],
      [CHR 0xC2, CHR 0x85], [CHR 0xC2, CHR 0xA0], [CHR 0xE1, CHR 0x9A, CHR 0x80],
      [CHR 0xE2, CHR 0x80, CHR 0x80], [CHR 0xE2, CHR 0x80, CHR 0x81],
      [CHR 0xE2, CHR 0x80, CHR 0x82], [CHR 0xE2, CHR 0x80, CHR 0x83],
      [CHR 0xE2, CHR 0x80, CHR 0x84], [CHR 0xE2, CHR 0x80, CHR 0x85],
      [CHR 0xE2, CHR 0x80, CHR 0x86], [CHR 0xE2, CHR 0x80, CHR 0x87],
      [CHR 0xE2, CHR 0x80, CHR 0x88], [CHR 0xE2, CHR 0x80, CHR 0x89],
      [CHR 0xE2, CHR 0x80, CHR 0x8A], [CHR 0xE2, CHR 0x80, CHR 0xA8],
      [CHR 0xE2, CHR 0x80, CHR 0xA9], [CHR 0xE2, CHR 0x80, CHR 0xAF],
      [CHR 0xE2, CHR 0x81, CHR 0x9F], [CHR 0xE3, CHR 0x80, CHR 0x80]]"

text \<open>\<open>strip_any ps s\<close> removes prefixes listed in \<open>ps\<close> for as long as there is one.\<close>

function strip_any :: "string list \<Rightarrow> string \<Rightarrow> string" where
  "strip_any ps s =
     (case find (\<lambda>p. p \<noteq> [] \<and> prefix p s) ps of
        None \<Rightarrow> s
      | Some p \<Rightarrow> strip_any ps (drop (length p) s))"
  by pat_completeness auto
termination
  by (relation "measure (\<lambda>(ps, s). length s)")
    (auto simp: find_Some_iff prefix_def)

declare strip_any.simps [simp del]

definition TrimSpace :: "string \<Rightarrow> string" where
  "TrimSpace s = rev (strip_any (map rev space_encodings) (rev (strip_any space_encodings s)))"

definition is_blank :: "string \<Rightarrow> bool" where
  "is_blank s \<longleftrightarrow> TrimSpace s = ''''"

lemma strip_any_Nil [simp]: "strip_any ps [] = []"
  by (subst strip_any.simps) (auto split: option.splits simp: find_Some_iff)

lemma strip_any_keeps:
  "x \<in> set s \<Longrightarrow> \<forall>p \<in> set ps. x \<notin> set p \<Longrightarrow> x \<in> set (strip_any ps s)"
proof (induction ps s rule: strip_any.induct)
  case (1 ps s)
  show ?case
  proof (cases "find (\<lambda>p. p \<noteq> [] \<and> prefix p s) ps")
    case None
    with "1.prems" show ?thesis by (simp add: strip_any.simps [of ps s])
  next
    case (Some p)
    then have p: "p \<in> set ps" "prefix p s" by (auto simp: find_Some_iff)
    then have "x \<in> set (drop (length p) s)"
      using "1.prems" by (auto simp: prefix_def)
    with "1.IH" [OF Some] "1.prems"(2) Some show ?thesis
      by (simp add: strip_any.simps [of ps s])
  qed
qed

lemma strip_any_suffix: "suffix (strip_any ps s) s"
proof (induction ps s rule: strip_any.induct)
  case (1 ps s)
  show ?case
  proof (cases "find (\<lambda>p. p \<noteq> [] \<and> prefix p s) ps")
    case None
    then show ?thesis by (simp add: strip_any.simps [of ps s])
  next
    case (Some p)
    have "suffix (strip_any ps (drop (length p) s)) (drop (length p) s)"
      by (rule "1.IH") (rule Some)
    with Some show ?thesis
      by (simp add: strip_any.simps [of ps s]) (metis suffix_drop suffix_order.trans)
  qed
qed

lemma is_blank_Nil [simp]: "is_blank ''''"
  by (simp add: is_blank_def TrimSpace_def)

definition byte_in :: "nat \<Rightarrow> nat \<Rightarrow> char \<Rightarrow> bool" where
  "byte_in l h c \<longleftrightarrow> l \<le> (of_char c :: nat) \<and> (of_char c :: nat) \<le> h"

text \<open>A text with a visible ASCII character is not blank.\<close>

lemma not_blank_visible: "list_ex (byte_in 33 127) s \<Longrightarrow> \<not> is_blank s"
proof
  assume "list_ex (byte_in 33 127) s"
  then obtain x where x: "x \<in> set s" "byte_in 33 127 x" by (auto simp: list_ex_iff)
  then have no: "\<forall>p \<in> set space_encodings. x \<notin> set p"
    by (auto simp: space_encodings_def byte_in_def)
  then have "\<forall>p \<in> set (map rev space_encodings). x \<notin> set p" by simp
  with x no have "x \<in> set (TrimSpace s)"
    unfolding TrimSpace_def by (simp add: strip_any_keeps)
  moreover assume "is_blank s"
  ultimately show False by (simp add: is_blank_def)
qed

lemma not_blank_nonempty: "\<not> is_blank s \<Longrightarrow> s \<noteq> ''''"
  by auto

text \<open>A string whose first byte starts none of the prefixes is left alone.\<close>

lemma strip_any_stop:
  "\<lbrakk>\<forall>p \<in> set ps. p \<noteq> [] \<longrightarrow> hd p \<noteq> c\<rbrakk> \<Longrightarrow> strip_any ps (c # s) = c # s"
  by (subst strip_any.simps)
    (auto split: option.splits simp: find_Some_iff prefix_Cons in_set_conv_nth)

definition digit :: "char \<Rightarrow> bool" where
  "digit c \<longleftrightarrow> 48 \<le> (of_char c :: nat) \<and> (of_char c :: nat) \<le> 57"

definition HasPrefix :: "string \<Rightarrow> string \<Rightarrow> bool" where
  "HasPrefix s p \<longleftrightarrow> prefix p s"

definition TrimPrefix :: "string \<Rightarrow> string \<Rightarrow> string" where
  "TrimPrefix s p = (if HasPrefix s p then drop (length p) s else s)"

section \<open>Lists\<close>

text \<open>
  A loop that may stop with an error: \<open>map_err f xs\<close> is the Go idiom of building a slice with a
  function that can fail, returning at the first failure.
\<close>

fun map_err :: "('a \<Rightarrow> 'e + 'b) \<Rightarrow> 'a list \<Rightarrow> 'e + 'b list" where
  "map_err f [] = Inr []"
| "map_err f (x # xs) =
     (case f x of
        Inl e \<Rightarrow> Inl e
      | Inr y \<Rightarrow> (case map_err f xs of Inl e \<Rightarrow> Inl e | Inr ys \<Rightarrow> Inr (y # ys)))"

lemma map_err_all: "(\<And>x. x \<in> set xs \<Longrightarrow> f x = Inr (g x)) \<Longrightarrow> map_err f xs = Inr (map g xs)"
  by (induction xs) auto

lemma map_err_map: "map_err f (map g xs) = map_err (\<lambda>x. f (g x)) xs"
  by (induction xs) (auto split: sum.splits)

lemma find_append:
  "find P (xs @ ys) = (case find P xs of None \<Rightarrow> find P ys | Some x \<Rightarrow> Some x)"
  by (induction xs) auto

lemma map_err_length: "map_err f xs = Inr ys \<Longrightarrow> length ys = length xs"
  by (induction xs arbitrary: ys) (auto split: sum.splits)

text \<open>Sequencing of results without state: the early return on \<open>err != nil\<close>.\<close>

definition try_res :: "'e + 'a \<Rightarrow> ('a \<Rightarrow> 'e + 'b) \<Rightarrow> 'e + 'b" where
  "try_res r f = (case r of Inl e \<Rightarrow> Inl e | Inr x \<Rightarrow> f x)"

definition map_left :: "('e \<Rightarrow> 'f) \<Rightarrow> 'e + 'a \<Rightarrow> 'f + 'a" where
  "map_left g r = (case r of Inl e \<Rightarrow> Inl (g e) | Inr x \<Rightarrow> Inr x)"

lemma try_res_simps [simp]: "try_res (Inl e) f = Inl e" "try_res (Inr x) f = f x"
  by (simp_all add: try_res_def)

lemma try_res_Inr: "try_res r f = Inr y \<longleftrightarrow> (\<exists>x. r = Inr x \<and> f x = Inr y)"
  by (cases r) auto

lemma try_res_Inl: "try_res r f = Inl e \<longleftrightarrow> r = Inl e \<or> (\<exists>x. r = Inr x \<and> f x = Inl e)"
  by (cases r) auto

lemma map_left_simps [simp]: "map_left g (Inl e) = Inl (g e)" "map_left g (Inr x) = Inr x"
  by (simp_all add: map_left_def)

lemma map_left_Inr [simp]: "map_left g r = Inr x \<longleftrightarrow> r = Inr x"
  by (cases r) auto

lemma map_left_Inl: "map_left g r = Inl e \<longleftrightarrow> (\<exists>e'. r = Inl e' \<and> e = g e')"
  by (cases r) auto

lemma map_sum_Inr:
  "map_sum f g r = Inr y \<longleftrightarrow> (\<exists>x. r = Inr x \<and> y = g x)"
  "Inr y = map_sum f g r \<longleftrightarrow> (\<exists>x. r = Inr x \<and> y = g x)"
  by (cases r; auto)+

lemma map_sum_Inl:
  "map_sum f g r = Inl y \<longleftrightarrow> (\<exists>x. r = Inl x \<and> y = f x)"
  "Inl y = map_sum f g r \<longleftrightarrow> (\<exists>x. r = Inl x \<and> y = f x)"
  by (cases r; auto)+

lemma fst_eq_pair: "fst p = x \<longleftrightarrow> (\<exists>y. p = (x, y))"
  by (cases p) auto

section \<open>Loops that look whether they ended after each turn\<close>

text \<open>The equation of such a loop alone says when it returns, and what.\<close>

lemma loop_unfolds:
  assumes eq: "\<And>n w. loop n w = (if ended n then Some (turn n w) else loop (Suc n) (turn n w))"
    and "ended m" "n \<le> m" "\<And>k. n \<le> k \<Longrightarrow> k < m \<Longrightarrow> \<not> ended k"
  shows "loop n w = Some (fold turn [n..<Suc m] w)"
  using assms(2-)
proof (induction "m - n" arbitrary: n w)
  case 0
  then have "n = m" by simp
  with 0 eq [of n w] show ?case by simp
next
  case (Suc d)
  then have n: "\<not> ended n" "Suc n \<le> m" by auto
  have "loop n w = loop (Suc n) (turn n w)" using eq [of n w] n by simp
  also have "\<dots> = Some (fold turn [Suc n..<Suc m] (turn n w))" using Suc n by simp
  finally show ?case using n by (simp add: upt_conv_Cons)
qed

lemma loop_first_end:
  assumes "\<And>n w. loop n w = (if ended n then Some (turn n w) else loop (Suc n) (turn n w))" "\<exists>n. ended n"
  shows "loop 0 w = Some (fold turn [0..<Suc (LEAST n. ended n)] w)"
  by (rule loop_unfolds [where ended = ended]) (use assms in \<open>auto intro: LeastI_ex dest: not_less_Least\<close>)

end
