(* ===== verification/Go_Errors.thy ===== *)
theory Go_Errors
  imports Prelude
begin

text \<open>
  Errors as values: \<open>internal/platform/apperr/apperr.go\<close>, the error types of
  \<open>internal/ordering/domain\<close>, \<open>internal/ordering/outbox/errors.go\<close> and
  \<open>internal/platform/messaging/subscriber.go\<close>, and how they are wrapped and searched. A message
  built with \<open>fmt.Sprintf\<close> is kept as its format and arguments; it is not rendered.
\<close>

section \<open>Messages\<close>

datatype arg = ArgStr string | ArgInt int | ArgUuid uuid | ArgDec decimal

datatype msg = Fmt string "arg list"

section \<open>Error values\<close>

datatype kind = KindInternal | KindBadRequest | KindNotFound | KindConflict | KindValidation

text \<open>Why a call to a database, a cache or a broker failed.\<close>

datatype fault = ConnectionLost | ContextCanceled | ContextDeadline

text \<open>
  Every error the services construct: \<open>*apperr.Error\<close> with its kind, message, fields and cause,
  \<open>*domain.Error\<close>, an error wrapped with \<open>%w\<close>, a rejection, an error with only a text, a failure
  of a driver, SQL Server's numbered errors, \<open>ErrNoRows\<close>, and the two errors of the outbox reader.
\<close>

datatype go_error =
    AppError kind msg "string \<rightharpoonup> msg" "go_error option"
  | DomainError msg
  | Wrapped msg go_error
  | Rejection go_error
  | Plain msg
  | DriverError fault
  | SqlError int
  | NoRows
  | NotReadyError msg
  | CheckpointExpiredError "8 word list" "8 word list"

fun Unwrap :: "go_error \<Rightarrow> go_error option" where
  "Unwrap (AppError k m fs c) = c"
| "Unwrap (Wrapped m e) = Some e"
| "Unwrap (Rejection e) = Some e"
| "Unwrap e = None"

text \<open>The errors \<open>errors.Is\<close> and \<open>errors.As\<close> look at, outermost first.\<close>

fun error_chain :: "go_error \<Rightarrow> go_error list" where
  "error_chain (AppError k m fs c) =
     AppError k m fs c # (case c of None \<Rightarrow> [] | Some e \<Rightarrow> error_chain e)"
| "error_chain (Wrapped m e) = Wrapped m e # error_chain e"
| "error_chain (Rejection e) = Rejection e # error_chain e"
| "error_chain e = [e]"

lemma error_chain_Unwrap:
  "error_chain e = e # (case Unwrap e of None \<Rightarrow> [] | Some e' \<Rightarrow> error_chain e')"
  by (cases e) auto

section \<open>Constructors of application errors\<close>

definition NotFound :: "string \<Rightarrow> arg \<Rightarrow> go_error" where
  "NotFound entity key =
     AppError KindNotFound (Fmt ''entity %s with key %v was not found'' [ArgStr entity, key])
       Map.empty None"

definition BadRequest :: "msg \<Rightarrow> go_error" where
  "BadRequest m = AppError KindBadRequest m Map.empty None"

definition Conflict :: "msg \<Rightarrow> go_error" where
  "Conflict m = AppError KindConflict m Map.empty None"

definition Validation :: "(string \<rightharpoonup> msg) \<Rightarrow> go_error" where
  "Validation fields =
     AppError KindValidation (Fmt ''one or more validation errors occurred'' []) fields None"

definition Internal :: "go_error \<Rightarrow> msg \<Rightarrow> go_error" where
  "Internal cause m = AppError KindInternal m Map.empty (Some cause)"

section \<open>Classification\<close>

fun is_AppError :: "go_error \<Rightarrow> bool" where
  "is_AppError (AppError k m fs c) = True"
| "is_AppError e = False"

definition As_AppError :: "go_error \<Rightarrow> go_error option" where
  "As_AppError e = find is_AppError (error_chain e)"

definition KindOf :: "go_error \<Rightarrow> kind" where
  "KindOf e = (case As_AppError e of Some (AppError k m fs c) \<Rightarrow> k | _ \<Rightarrow> KindInternal)"

fun kind_String :: "kind \<Rightarrow> string" where
  "kind_String KindBadRequest = ''BadRequest''"
| "kind_String KindNotFound = ''NotFound''"
| "kind_String KindConflict = ''Conflict''"
| "kind_String KindValidation = ''ValidationError''"
| "kind_String KindInternal = ''InternalServerError''"

lemma As_AppError_simps [simp]:
  "As_AppError (AppError k m fs c) = Some (AppError k m fs c)"
  "As_AppError (Wrapped w e) = As_AppError e"
  "As_AppError (Rejection e) = As_AppError e"
  "As_AppError (DomainError w) = None"
  "As_AppError (Plain w) = None"
  "As_AppError (DriverError f) = None"
  "As_AppError (SqlError n) = None"
  "As_AppError NoRows = None"
  "As_AppError (NotReadyError w) = None"
  "As_AppError (CheckpointExpiredError a b) = None"
  by (simp_all add: As_AppError_def)

lemma As_AppError_shape: "As_AppError e = Some a \<Longrightarrow> \<exists>k m fs c. a = AppError k m fs c"
proof -
  assume "As_AppError e = Some a"
  then have "is_AppError a" by (auto simp: As_AppError_def find_Some_iff)
  then show ?thesis by (cases a) auto
qed

lemma KindOf_simps [simp]:
  "KindOf (AppError k m fs c) = k"
  "KindOf (Wrapped w e) = KindOf e"
  "KindOf (Rejection e) = KindOf e"
  "KindOf (DomainError w) = KindInternal"
  "KindOf (Plain w) = KindInternal"
  "KindOf (DriverError f) = KindInternal"
  "KindOf (SqlError n) = KindInternal"
  "KindOf NoRows = KindInternal"
  by (simp_all add: KindOf_def)

lemma KindOf_constructors [simp]:
  "KindOf (NotFound n k) = KindNotFound"
  "KindOf (BadRequest m) = KindBadRequest"
  "KindOf (Conflict m) = KindConflict"
  "KindOf (Validation f) = KindValidation"
  "KindOf (Internal e m) = KindInternal"
  by (simp_all add: NotFound_def BadRequest_def Conflict_def Validation_def Internal_def)

section \<open>Domain errors and rejections\<close>

fun As_DomainError_in :: "go_error list \<Rightarrow> msg option" where
  "As_DomainError_in [] = None"
| "As_DomainError_in (DomainError m # es) = Some m"
| "As_DomainError_in (e # es) = As_DomainError_in es"

text \<open>
  \<open>clientError\<close> of the order handlers: a domain rule violation anywhere in the chain becomes a
  bad request with the domain's message, everything else is returned as it is.
\<close>

definition clientError :: "go_error \<Rightarrow> go_error" where
  "clientError e =
     (case As_DomainError_in (error_chain e) of Some m \<Rightarrow> BadRequest m | None \<Rightarrow> e)"

definition Reject :: "go_error option \<Rightarrow> go_error option" where
  "Reject e = map_option Rejection e"

fun is_Rejection :: "go_error \<Rightarrow> bool" where
  "is_Rejection (Rejection e) = True"
| "is_Rejection e = False"

definition IsRejected :: "go_error \<Rightarrow> bool" where
  "IsRejected e \<longleftrightarrow> list_ex is_Rejection (error_chain e)"

text \<open>\<open>errors.Is(err, context.Canceled) || errors.Is(err, context.DeadlineExceeded)\<close>\<close>

definition is_context_error :: "go_error \<Rightarrow> bool" where
  "is_context_error e \<longleftrightarrow>
     DriverError ContextCanceled \<in> set (error_chain e) \<or>
     DriverError ContextDeadline \<in> set (error_chain e)"

lemma IsRejected_simps [simp]:
  "IsRejected (Rejection e)"
  "IsRejected (Wrapped m e) = IsRejected e"
  "\<not> IsRejected (Plain m)"
  "\<not> IsRejected (DomainError m)"
  "\<not> IsRejected (DriverError f)"
  "\<not> IsRejected (SqlError n)"
  "\<not> IsRejected NoRows"
  "\<not> IsRejected (AppError k m fs None)"
  "IsRejected (AppError k m fs (Some e)) = IsRejected e"
  by (simp_all add: IsRejected_def)

lemma IsRejected_constructors [simp]:
  "\<not> IsRejected (NotFound n k)"
  "\<not> IsRejected (BadRequest m)"
  "\<not> IsRejected (Conflict m)"
  "IsRejected (Internal e m) = IsRejected e"
  by (simp_all add: NotFound_def BadRequest_def Conflict_def Internal_def)

lemma clientError_DomainError [simp]: "clientError (DomainError m) = BadRequest m"
  by (simp add: clientError_def)

lemma clientError_Wrapped_DomainError [simp]:
  "clientError (Wrapped w (DomainError m)) = BadRequest m"
  by (simp add: clientError_def)

end
