(* ===== verification/Go_Text.thy ===== *)
theory Go_Text
  imports Go_Errors
begin

text \<open>
  Texts of the standard library: decimal integers (\<open>strconv.Itoa\<close>, \<open>strconv.Atoi\<close>), valid UTF-8 as
  \<open>encoding/json\<close> produces it, and JSON documents as trees with the rules by which \<open>encoding/json\<close>
  matches an object's keys with a struct's fields. The texts of UUIDs, decimals and times belong to
  packages outside the repository and are the fields of the parameter \<open>texts\<close>.
\<close>

section \<open>Integers\<close>

text \<open>A Go \<open>int\<close> has 64 bits.\<close>

definition int64 :: "int \<Rightarrow> bool" where
  "int64 i \<longleftrightarrow> -(2 ^ 63) \<le> i \<and> i < 2 ^ 63"

fun nat_text :: "nat \<Rightarrow> string" where
  "nat_text n =
     (if n < 10 then [char_of (48 + n)] else nat_text (n div 10) @ [char_of (48 + n mod 10)])"

declare nat_text.simps [simp del]

definition Itoa :: "int \<Rightarrow> string" where
  "Itoa i = (if i < 0 then CHR ''-'' # nat_text (nat (- i)) else nat_text (nat i))"

fun digits_value :: "nat \<Rightarrow> string \<Rightarrow> nat" where
  "digits_value acc [] = acc"
| "digits_value acc (c # cs) = digits_value (10 * acc + (of_char c - 48)) cs"

definition parse_digits :: "string \<Rightarrow> nat option" where
  "parse_digits s = (if s \<noteq> [] \<and> list_all digit s then Some (digits_value 0 s) else None)"

definition Atoi :: "string \<Rightarrow> int option" where
  "Atoi s =
     (let r = (case s of
                 c # cs \<Rightarrow>
                   if c = CHR ''-'' then map_option (\<lambda>n. - int n) (parse_digits cs)
                   else if c = CHR ''+'' then map_option int (parse_digits cs)
                   else map_option int (parse_digits s)
               | [] \<Rightarrow> None)
      in case r of Some i \<Rightarrow> if int64 i then Some i else None | None \<Rightarrow> None)"

lemma digits_value_append: "digits_value a (s @ t) = digits_value (digits_value a s) t"
  by (induction s arbitrary: a) auto

lemma digit_char: "n < 10 \<Longrightarrow> digit (char_of (48 + n :: nat))"
  by (simp add: digit_def)

lemma digits_value_nat_text: "digits_value 0 (nat_text n) = n"
proof (induction n rule: nat_text.induct)
  case (1 n)
  then show ?case
    by (cases "n < 10") (simp_all add: nat_text.simps [of n] digits_value_append)
qed

lemma nat_text_digits: "list_all digit (nat_text n)"
proof (induction n rule: nat_text.induct)
  case (1 n)
  then show ?case
    by (cases "n < 10") (simp_all add: nat_text.simps [of n] digit_char)
qed

lemma nat_text_nonempty: "nat_text n \<noteq> []"
  by (subst nat_text.simps) simp

lemma parse_digits_nat_text: "parse_digits (nat_text n) = Some n"
  by (simp add: parse_digits_def nat_text_nonempty nat_text_digits digits_value_nat_text)

lemma nat_text_head: "nat_text n = c # cs \<Longrightarrow> c \<noteq> CHR ''-'' \<and> c \<noteq> CHR ''+''"
  using nat_text_digits [of n] by (auto simp: digit_def)

lemma Atoi_Itoa: "int64 i \<Longrightarrow> Atoi (Itoa i) = Some i"
proof (cases "i < 0")
  case True
  moreover assume "int64 i"
  ultimately show ?thesis by (simp add: Atoi_def Itoa_def parse_digits_nat_text)
next
  case False
  moreover assume "int64 i"
  moreover obtain c cs where "nat_text (nat i) = c # cs"
    using nat_text_nonempty [of "nat i"] by (cases "nat_text (nat i)") auto
  moreover note nat_text_head [OF this] parse_digits_nat_text [of "nat i"]
  ultimately show ?thesis by (auto simp: Atoi_def Itoa_def)
qed

section \<open>UTF-8\<close>


text \<open>The length of the encoded character a string starts with; 0 when its first byte is invalid.\<close>

definition rune_length :: "string \<Rightarrow> nat" where
  "rune_length s =
     (let b = (\<lambda>i l h. i < length s \<and> byte_in l h (s ! i)) in
      if b 0 0 0x7F then 1
      else if b 0 0xC2 0xDF \<and> b 1 0x80 0xBF then 2
      else if (b 0 0xE0 0xE0 \<and> b 1 0xA0 0xBF \<or> b 0 0xED 0xED \<and> b 1 0x80 0x9F \<or>
               (b 0 0xE1 0xEC \<or> b 0 0xEE 0xEF) \<and> b 1 0x80 0xBF) \<and> b 2 0x80 0xBF then 3
      else if (b 0 0xF0 0xF0 \<and> b 1 0x90 0xBF \<or> b 0 0xF1 0xF3 \<and> b 1 0x80 0xBF \<or>
               b 0 0xF4 0xF4 \<and> b 1 0x80 0x8F) \<and> b 2 0x80 0xBF \<and> b 3 0x80 0xBF then 4
      else 0)"

text \<open>Encoding a string as JSON replaces every invalid byte by U+FFFD.\<close>

function valid_utf8 :: "string \<Rightarrow> string" where
  "valid_utf8 [] = []"
| "valid_utf8 (c # cs) =
     (let n = rune_length (c # cs) in
      if n = 0 then [CHR 0xEF, CHR 0xBF, CHR 0xBD] @ valid_utf8 cs
      else take n (c # cs) @ valid_utf8 (drop n (c # cs)))"
  by pat_completeness auto
termination by (relation "measure length") auto

definition utf8_ok :: "string \<Rightarrow> bool" where
  "utf8_ok s \<longleftrightarrow> valid_utf8 s = s"

lemma valid_utf8_id [simp]: "utf8_ok s \<Longrightarrow> valid_utf8 s = s"
  by (simp add: utf8_ok_def)

definition ascii :: "string \<Rightarrow> bool" where
  "ascii s \<longleftrightarrow> list_all (byte_in 0 0x7F) s"

lemma utf8_ok_ascii: "ascii s \<Longrightarrow> utf8_ok s"
proof (induction s)
  case Nil
  then show ?case by (simp add: utf8_ok_def)
next
  case (Cons c s)
  moreover from Cons.prems have "rune_length (c # s) = 1"
    by (simp add: rune_length_def ascii_def Let_def)
  ultimately show ?case by (simp add: utf8_ok_def ascii_def)
qed

section \<open>JSON documents\<close>

text \<open>A number is its literal, a string its decoded bytes, an object its members in order.\<close>

datatype json =
    JNull
  | JBool bool
  | JNum string
  | JStr string
  | JArr "json list"
  | JObj "(string \<times> json) list"

definition json_string :: "string \<Rightarrow> json" where
  "json_string s = JStr (valid_utf8 s)"

definition json_int :: "int \<Rightarrow> json" where
  "json_int i = JNum (Itoa i)"

text \<open>
  A payload is the text of a JSON document, or bytes that are not one.
\<close>

datatype payload = JsonText json | OtherBytes "8 word list"

text \<open>
  The texts of values of packages outside the repository: \<open>uuid.UUID\<close>, \<open>decimal.Decimal\<close> and
  \<open>time.Time\<close>, each printed by its own \<open>String\<close> or \<open>MarshalText\<close> and parsed by its counterpart.
\<close>

record texts =
  uuid_text :: "uuid \<Rightarrow> string"
  uuid_parse :: "string \<Rightarrow> uuid option"
  dec_text :: "decimal \<Rightarrow> string"
  dec_parse :: "string \<Rightarrow> decimal option"
  time_text :: "time \<Rightarrow> string"
  time_parse :: "string \<Rightarrow> time option"

text \<open>The rational numbers that a decimal can be.\<close>

definition is_decimal :: "decimal \<Rightarrow> bool" where
  "is_decimal d \<longleftrightarrow> (\<exists>(n::int) (k::nat). d = of_int n / 10 ^ k)"

text \<open>What these packages document: parsing a printed value gives the value, and no text is empty.\<close>

definition texts_ok :: "texts \<Rightarrow> bool" where
  "texts_ok T \<longleftrightarrow>
     (\<forall>u. uuid_parse T (uuid_text T u) = Some u \<and> uuid_text T u \<noteq> '''') \<and>
     (\<forall>d. is_decimal d \<longrightarrow> dec_parse T (dec_text T d) = Some d) \<and>
     (\<forall>t. time_parse T (time_text T t) = Some t) \<and>
     (\<forall>u. ascii (uuid_text T u)) \<and> (\<forall>d. ascii (dec_text T d)) \<and> (\<forall>t. ascii (time_text T t))"

lemma texts_okD:
  assumes "texts_ok T"
  shows "uuid_parse T (uuid_text T u) = Some u" "uuid_text T u \<noteq> ''''"
    "is_decimal d \<Longrightarrow> dec_parse T (dec_text T d) = Some d"
    "time_parse T (time_text T t) = Some t"
    "utf8_ok (uuid_text T u)" "utf8_ok (dec_text T d)" "utf8_ok (time_text T t)"
  using assms by (auto simp: texts_ok_def utf8_ok_ascii)

lemma is_decimal_int: "is_decimal (of_int i)"
  unfolding is_decimal_def by (rule exI [of _ i], rule exI [of _ 0]) simp

subsection \<open>Decoding into a value\<close>

text \<open>
  A decoder is given the document and the value the target holds, and returns the new value; a
  mismatch of types is an error. \<open>null\<close> leaves the target as it is.
\<close>

type_synonym 'a decoder = "json \<Rightarrow> 'a \<Rightarrow> go_error + 'a"

definition type_error :: "string \<Rightarrow> go_error" where
  "type_error what = Plain (Fmt ''json: cannot unmarshal into Go value of type %s'' [ArgStr what])"

definition decode_string :: "string decoder" where
  "decode_string j old =
     (case j of JNull \<Rightarrow> Inr old | JStr s \<Rightarrow> Inr s | _ \<Rightarrow> Inl (type_error ''string''))"

definition decode_int :: "int decoder" where
  "decode_int j old =
     (case j of
        JNull \<Rightarrow> Inr old
      | JNum s \<Rightarrow> (case Atoi s of Some i \<Rightarrow> Inr i | None \<Rightarrow> Inl (type_error ''int''))
      | _ \<Rightarrow> Inl (type_error ''int''))"

definition decode_uuid :: "texts \<Rightarrow> uuid decoder" where
  "decode_uuid T j old =
     (case j of
        JNull \<Rightarrow> Inr old
      | JStr s \<Rightarrow> (case uuid_parse T s of Some u \<Rightarrow> Inr u | None \<Rightarrow> Inl (type_error ''uuid.UUID''))
      | _ \<Rightarrow> Inl (type_error ''uuid.UUID''))"

definition decode_decimal :: "texts \<Rightarrow> decimal decoder" where
  "decode_decimal T j old =
     (let parsed = (\<lambda>s. case dec_parse T s of
                          Some d \<Rightarrow> Inr d
                        | None \<Rightarrow> Inl (type_error ''decimal.Decimal''))
      in case j of
           JNull \<Rightarrow> Inr old
         | JStr s \<Rightarrow> parsed s
         | JNum s \<Rightarrow> parsed s
         | _ \<Rightarrow> Inl (type_error ''decimal.Decimal''))"

definition decode_time :: "texts \<Rightarrow> time decoder" where
  "decode_time T j old =
     (case j of
        JNull \<Rightarrow> Inr old
      | JStr s \<Rightarrow> (case time_parse T s of Some t \<Rightarrow> Inr t | None \<Rightarrow> Inl (type_error ''time.Time''))
      | _ \<Rightarrow> Inl (type_error ''time.Time''))"

text \<open>Each element of an array is decoded into a fresh zero value.\<close>

definition decode_slice :: "'a \<Rightarrow> 'a decoder \<Rightarrow> 'a list decoder" where
  "decode_slice zero dec j old =
     (case j of
        JNull \<Rightarrow> Inr []
      | JArr js \<Rightarrow> map_err (\<lambda>j. dec j zero) js
      | _ \<Rightarrow> Inl (type_error ''slice''))"

text \<open>
  A key is a field's if it is its name up to the case of letters; the folding is that of Unicode,
  where two letters outside ASCII fold to an ASCII letter.
\<close>

fun fold_name :: "string \<Rightarrow> string" where
  "fold_name [] = []"
| "fold_name (c # cs) =
     (if c = CHR 0xC5 \<and> take 1 cs = [CHR 0xBF] then CHR ''s'' # fold_name (drop 1 cs)
      else if c = CHR 0xE2 \<and> take 2 cs = [CHR 0x84, CHR 0xAA] then CHR ''k'' # fold_name (drop 2 cs)
      else if byte_in 65 90 c then char_of (of_char c + (32 :: nat)) # fold_name cs
      else c # fold_name cs)"

text \<open>A struct is a list of named setters; members are decoded in the order they stand.\<close>

type_synonym 'a fields = "(string \<times> 'a decoder) list"

definition find_field :: "'a fields \<Rightarrow> string \<Rightarrow> 'a decoder option" where
  "find_field fs key =
     (case map_of fs key of
        Some d \<Rightarrow> Some d
      | None \<Rightarrow> map_option snd (find (\<lambda>(n, d). fold_name n = fold_name key) fs))"

fun decode_members :: "'a fields \<Rightarrow> (string \<times> json) list \<Rightarrow> 'a \<Rightarrow> go_error + 'a" where
  "decode_members fs [] v = Inr v"
| "decode_members fs ((key, j) # ms) v =
     (case find_field fs key of
        None \<Rightarrow> decode_members fs ms v
      | Some dec \<Rightarrow> try_res (dec j v) (decode_members fs ms))"

definition decode_struct :: "'a fields \<Rightarrow> 'a decoder" where
  "decode_struct fs j old =
     (case j of
        JNull \<Rightarrow> Inr old
      | JObj ms \<Rightarrow> decode_members fs ms old
      | _ \<Rightarrow> Inl (type_error ''struct''))"

text \<open>A field's decoder, from the decoder of its type and its getter and setter.\<close>

definition field ::
  "'b decoder \<Rightarrow> ('a \<Rightarrow> 'b) \<Rightarrow> (('b \<Rightarrow> 'b) \<Rightarrow> 'a \<Rightarrow> 'a) \<Rightarrow> 'a decoder" where
  "field dec get upd j v = (case dec j (get v) of Inl e \<Rightarrow> Inl e | Inr x \<Rightarrow> Inr (upd (\<lambda>_. x) v))"

lemma decode_string_json [simp]: "utf8_ok s \<Longrightarrow> decode_string (json_string s) old = Inr s"
  by (simp add: decode_string_def json_string_def)

lemma decode_int_json [simp]: "int64 i \<Longrightarrow> decode_int (json_int i) old = Inr i"
  by (simp add: decode_int_def json_int_def Atoi_Itoa)

lemma decode_uuid_json [simp]:
  "texts_ok T \<Longrightarrow> decode_uuid T (json_string (uuid_text T u)) old = Inr u"
  by (simp add: decode_uuid_def json_string_def texts_okD)

lemma decode_decimal_json [simp]:
  "texts_ok T \<Longrightarrow> is_decimal d \<Longrightarrow> decode_decimal T (json_string (dec_text T d)) old = Inr d"
  by (simp add: decode_decimal_def json_string_def texts_okD)

lemma decode_time_json [simp]:
  "texts_ok T \<Longrightarrow> decode_time T (json_string (time_text T t)) old = Inr t"
  by (simp add: decode_time_def json_string_def texts_okD)

lemma decode_slice_json:
  "(\<And>x. x \<in> set xs \<Longrightarrow> dec (enc x) zero = Inr x) \<Longrightarrow>
     decode_slice zero dec (JArr (map enc xs)) old = Inr xs"
  using map_err_all [of xs "\<lambda>x. dec (enc x) zero" "\<lambda>x. x"]
  by (simp add: decode_slice_def map_err_map)

lemma decode_decimal_number [simp]:
  "texts_ok T \<Longrightarrow> is_decimal d \<Longrightarrow> decode_decimal T (JNum (dec_text T d)) old = Inr d"
  by (simp add: decode_decimal_def texts_okD)

text \<open>Members whose decoders succeed are folded into the target.\<close>

lemma decode_members_fold:
  "(\<And>k j v. (k, j) \<in> set ms \<Longrightarrow> \<exists>d. find_field fs k = Some d \<and> d j v = Inr (g (k, j) v)) \<Longrightarrow>
     decode_members fs ms v = Inr (fold g ms v)"
proof (induction ms arbitrary: v)
  case Nil
  then show ?case by simp
next
  case (Cons m ms)
  obtain k j where m: "m = (k, j)" by (cases m)
  from Cons.prems [of k j v] obtain d where "find_field fs k = Some d" "d j v = Inr (g (k, j) v)"
    by (auto simp: m)
  with Cons m show ?case by simp
qed

section \<open>An instance of the texts\<close>

text \<open>
  Concrete texts that satisfy \<open>texts_ok\<close>: numbers in decimal notation, a rational as a fraction.
\<close>

definition int_parse :: "string \<Rightarrow> int option" where
  "int_parse s =
     (case s of
        [] \<Rightarrow> None
      | c # cs \<Rightarrow> if c = CHR ''-'' then map_option (\<lambda>n. - int n) (parse_digits cs)
                  else map_option int (parse_digits s))"

definition rat_text :: "rat \<Rightarrow> string" where
  "rat_text d = (case quotient_of d of (n, k) \<Rightarrow> Itoa n @ ''/'' @ Itoa k)"

definition rat_parse :: "string \<Rightarrow> rat option" where
  "rat_parse s =
     (case (int_parse (takeWhile (\<lambda>c. c \<noteq> CHR ''/'') s),
            int_parse (drop 1 (dropWhile (\<lambda>c. c \<noteq> CHR ''/'') s))) of
        (Some n, Some k) \<Rightarrow> Some (of_int n / of_int k)
      | _ \<Rightarrow> None)"

definition sample_texts :: texts where
  "sample_texts =
     \<lparr>uuid_text = (\<lambda>u. nat_text (unat u)),
      uuid_parse = (\<lambda>s. map_option of_nat (parse_digits s)),
      dec_text = rat_text, dec_parse = rat_parse, time_text = Itoa, time_parse = int_parse\<rparr>"

lemma int_parse_Itoa: "int_parse (Itoa i) = Some i"
proof (cases "i < 0")
  case True
  then show ?thesis by (simp add: int_parse_def Itoa_def parse_digits_nat_text)
next
  case False
  moreover obtain c cs where "nat_text (nat i) = c # cs"
    using nat_text_nonempty [of "nat i"] by (cases "nat_text (nat i)") auto
  moreover note nat_text_head [OF this] parse_digits_nat_text [of "nat i"]
  ultimately show ?thesis by (auto simp: int_parse_def Itoa_def)
qed

lemma digits_no_slash: "list_all digit s \<Longrightarrow> CHR ''/'' \<notin> set s"
  by (auto simp: list_all_iff digit_def)

lemma Itoa_no_slash: "CHR ''/'' \<notin> set (Itoa i)"
  by (simp add: Itoa_def digits_no_slash nat_text_digits)

lemma takeWhile_first: "c \<notin> set s \<Longrightarrow> takeWhile (\<lambda>x. x \<noteq> c) (s @ c # t) = s"
  by (induction s) auto

lemma dropWhile_first: "c \<notin> set s \<Longrightarrow> dropWhile (\<lambda>x. x \<noteq> c) (s @ c # t) = c # t"
  by (induction s) auto

lemma rat_parse_text: "rat_parse (rat_text d) = Some d"
  by (cases "quotient_of d")
    (auto simp: rat_parse_def rat_text_def takeWhile_first dropWhile_first Itoa_no_slash
      int_parse_Itoa dest: quotient_of_div)

lemma ascii_digits: "list_all digit s \<Longrightarrow> ascii s"
  by (auto simp: ascii_def list_all_iff digit_def byte_in_def)

lemma ascii_Itoa: "ascii (Itoa i)"
  using ascii_digits [OF nat_text_digits [of "nat i"]] ascii_digits [OF nat_text_digits [of "nat (- i)"]]
  by (simp add: Itoa_def ascii_def byte_in_def)

lemma ascii_rat_text: "ascii (rat_text d)"
  using ascii_Itoa by (auto simp: rat_text_def ascii_def byte_in_def split: prod.split)

lemma sample_texts_ok: "texts_ok sample_texts"
  by (auto simp: texts_ok_def sample_texts_def parse_digits_nat_text nat_text_nonempty
      rat_parse_text int_parse_Itoa ascii_Itoa ascii_rat_text ascii_digits nat_text_digits)

end
