(* ===== verification/Messaging.thy ===== *)
theory Messaging
  imports Go_Text
begin

text \<open>
  Integration events, \<open>internal/platform/messaging\<close> with its contract packages \<open>basketv1\<close> and
  \<open>orderingv2\<close>: the contracts and their JSON, the envelope that carries one, and the registry that
  reads it back. The payload is kept as the JSON document its bytes are the text of.
\<close>

section \<open>Contracts and headers\<close>

record contract =
  EventType :: string
  Version :: int

record header =
  hdr_ID :: uuid
  hdr_OccurredOnUTC :: time
  hdr_CorrelationID :: string

text \<open>\<open>NewHeader\<close> is given the id \<open>uuid.New()\<close> returned and the clock.\<close>

definition NewHeader :: "uuid \<Rightarrow> time \<Rightarrow> string \<Rightarrow> header" where
  "NewHeader new_id t correlationID =
     \<lparr>hdr_ID = new_id, hdr_OccurredOnUTC = t, hdr_CorrelationID = correlationID\<rparr>"

definition header_zero :: header where
  "header_zero = \<lparr>hdr_ID = uuid_nil, hdr_OccurredOnUTC = 0, hdr_CorrelationID = ''''\<rparr>"

definition header_json :: "texts \<Rightarrow> header \<Rightarrow> (string \<times> json) list" where
  "header_json T h =
     [(''id'', json_string (uuid_text T (hdr_ID h))),
      (''occurredOnUtc'', json_string (time_text T (hdr_OccurredOnUTC h)))] @
     (if hdr_CorrelationID h = '''' then [] else [(''correlationId'', json_string (hdr_CorrelationID h))])"

text \<open>The embedded header's fields, seen from the contract that embeds it.\<close>

definition header_fields ::
  "texts \<Rightarrow> ('a \<Rightarrow> header) \<Rightarrow> ((header \<Rightarrow> header) \<Rightarrow> 'a \<Rightarrow> 'a) \<Rightarrow> 'a fields" where
  "header_fields T get upd =
     [(''id'', field (decode_uuid T) (\<lambda>a. hdr_ID (get a)) (\<lambda>f. upd (hdr_ID_update f))),
      (''occurredOnUtc'',
         field (decode_time T) (\<lambda>a. hdr_OccurredOnUTC (get a)) (\<lambda>f. upd (hdr_OccurredOnUTC_update f))),
      (''correlationId'',
         field decode_string (\<lambda>a. hdr_CorrelationID (get a)) (\<lambda>f. upd (hdr_CorrelationID_update f)))]"

section \<open>Money\<close>

text \<open>An amount is always written as a string; it is read from a string or a number.\<close>

definition money_json :: "texts \<Rightarrow> decimal \<Rightarrow> json" where
  "money_json T m = json_string (dec_text T m)"

definition decode_money :: "texts \<Rightarrow> decimal decoder" where
  "decode_money T = decode_decimal T"

section \<open>The checkout contract\<close>

record checkout_line =
  cl_ProductID :: uuid
  cl_ProductName :: string
  cl_Quantity :: int
  cl_UnitPrice :: decimal

record checkout_address =
  ca_FirstName :: string
  ca_LastName :: string
  ca_EmailAddress :: string
  ca_AddressLine :: string
  ca_Country :: string
  ca_State :: string
  ca_ZipCode :: string

record checkout_payment =
  cp_PaymentToken :: string
  cp_CardLast4 :: string
  cp_PaymentMethod :: int

record checkout_submitted =
  cs_Header :: header
  cs_UserName :: string
  cs_CustomerID :: uuid
  cs_TotalPrice :: decimal
  cs_Items :: "checkout_line list"
  cs_ShippingAddress :: checkout_address
  cs_BillingAddress :: checkout_address
  cs_Payment :: checkout_payment

definition checkout_contract :: contract where
  "checkout_contract = \<lparr>EventType = ''basket.checkout-submitted'', Version = 1\<rparr>"

definition checkout_line_zero :: checkout_line where
  "checkout_line_zero =
     \<lparr>cl_ProductID = uuid_nil, cl_ProductName = '''', cl_Quantity = 0, cl_UnitPrice = 0\<rparr>"

definition checkout_address_zero :: checkout_address where
  "checkout_address_zero =
     \<lparr>ca_FirstName = '''', ca_LastName = '''', ca_EmailAddress = '''', ca_AddressLine = '''',
      ca_Country = '''', ca_State = '''', ca_ZipCode = ''''\<rparr>"

definition checkout_zero :: checkout_submitted where
  "checkout_zero =
     \<lparr>cs_Header = header_zero, cs_UserName = '''', cs_CustomerID = uuid_nil, cs_TotalPrice = 0,
      cs_Items = [], cs_ShippingAddress = checkout_address_zero,
      cs_BillingAddress = checkout_address_zero,
      cs_Payment = \<lparr>cp_PaymentToken = '''', cp_CardLast4 = '''', cp_PaymentMethod = 0\<rparr>\<rparr>"

definition checkout_line_json :: "texts \<Rightarrow> checkout_line \<Rightarrow> json" where
  "checkout_line_json T l = JObj
     [(''productId'', json_string (uuid_text T (cl_ProductID l))),
      (''productName'', json_string (cl_ProductName l)),
      (''quantity'', json_int (cl_Quantity l)),
      (''unitPrice'', money_json T (cl_UnitPrice l))]"

definition decode_checkout_line :: "texts \<Rightarrow> checkout_line decoder" where
  "decode_checkout_line T = decode_struct
     [(''productId'', field (decode_uuid T) cl_ProductID cl_ProductID_update),
      (''productName'', field decode_string cl_ProductName cl_ProductName_update),
      (''quantity'', field decode_int cl_Quantity cl_Quantity_update),
      (''unitPrice'', field (decode_money T) cl_UnitPrice cl_UnitPrice_update)]"

definition checkout_address_json :: "checkout_address \<Rightarrow> json" where
  "checkout_address_json a = JObj
     [(''firstName'', json_string (ca_FirstName a)),
      (''lastName'', json_string (ca_LastName a)),
      (''emailAddress'', json_string (ca_EmailAddress a)),
      (''addressLine'', json_string (ca_AddressLine a)),
      (''country'', json_string (ca_Country a)),
      (''state'', json_string (ca_State a)),
      (''zipCode'', json_string (ca_ZipCode a))]"

definition decode_checkout_address :: "checkout_address decoder" where
  "decode_checkout_address = decode_struct
     [(''firstName'', field decode_string ca_FirstName ca_FirstName_update),
      (''lastName'', field decode_string ca_LastName ca_LastName_update),
      (''emailAddress'', field decode_string ca_EmailAddress ca_EmailAddress_update),
      (''addressLine'', field decode_string ca_AddressLine ca_AddressLine_update),
      (''country'', field decode_string ca_Country ca_Country_update),
      (''state'', field decode_string ca_State ca_State_update),
      (''zipCode'', field decode_string ca_ZipCode ca_ZipCode_update)]"

definition checkout_payment_json :: "checkout_payment \<Rightarrow> json" where
  "checkout_payment_json p = JObj
     [(''paymentToken'', json_string (cp_PaymentToken p)),
      (''cardLast4'', json_string (cp_CardLast4 p)),
      (''paymentMethod'', json_int (cp_PaymentMethod p))]"

definition decode_checkout_payment :: "checkout_payment decoder" where
  "decode_checkout_payment = decode_struct
     [(''paymentToken'', field decode_string cp_PaymentToken cp_PaymentToken_update),
      (''cardLast4'', field decode_string cp_CardLast4 cp_CardLast4_update),
      (''paymentMethod'', field decode_int cp_PaymentMethod cp_PaymentMethod_update)]"

definition checkout_json :: "texts \<Rightarrow> checkout_submitted \<Rightarrow> json" where
  "checkout_json T c = JObj (header_json T (cs_Header c) @
     [(''userName'', json_string (cs_UserName c)),
      (''customerId'', json_string (uuid_text T (cs_CustomerID c))),
      (''totalPrice'', money_json T (cs_TotalPrice c)),
      (''items'', JArr (map (checkout_line_json T) (cs_Items c))),
      (''shippingAddress'', checkout_address_json (cs_ShippingAddress c)),
      (''billingAddress'', checkout_address_json (cs_BillingAddress c)),
      (''payment'', checkout_payment_json (cs_Payment c))])"

definition decode_checkout :: "texts \<Rightarrow> checkout_submitted decoder" where
  "decode_checkout T = decode_struct (header_fields T cs_Header cs_Header_update @
     [(''userName'', field decode_string cs_UserName cs_UserName_update),
      (''customerId'', field (decode_uuid T) cs_CustomerID cs_CustomerID_update),
      (''totalPrice'', field (decode_money T) cs_TotalPrice cs_TotalPrice_update),
      (''items'', field (decode_slice checkout_line_zero (decode_checkout_line T))
                        cs_Items cs_Items_update),
      (''shippingAddress'', field decode_checkout_address cs_ShippingAddress cs_ShippingAddress_update),
      (''billingAddress'', field decode_checkout_address cs_BillingAddress cs_BillingAddress_update),
      (''payment'', field decode_checkout_payment cs_Payment cs_Payment_update)])"

section \<open>The order contracts\<close>

record order_line =
  ol_ProductID :: uuid
  ol_Quantity :: int
  ol_Price :: decimal

record order_created =
  oc_Header :: header
  oc_OrderID :: uuid
  oc_CustomerID :: uuid
  oc_Status :: string
  oc_TotalPrice :: decimal
  oc_Items :: "order_line list"

record order_updated =
  ou_Header :: header
  ou_OrderID :: uuid
  ou_CustomerID :: uuid
  ou_Status :: string
  ou_TotalPrice :: decimal

definition order_created_contract :: contract where
  "order_created_contract = \<lparr>EventType = ''ordering.order-created'', Version = 2\<rparr>"

definition order_updated_contract :: contract where
  "order_updated_contract = \<lparr>EventType = ''ordering.order-updated'', Version = 2\<rparr>"

definition order_line_zero :: order_line where
  "order_line_zero = \<lparr>ol_ProductID = uuid_nil, ol_Quantity = 0, ol_Price = 0\<rparr>"

definition order_created_zero :: order_created where
  "order_created_zero =
     \<lparr>oc_Header = header_zero, oc_OrderID = uuid_nil, oc_CustomerID = uuid_nil, oc_Status = '''',
      oc_TotalPrice = 0, oc_Items = []\<rparr>"

definition order_updated_zero :: order_updated where
  "order_updated_zero =
     \<lparr>ou_Header = header_zero, ou_OrderID = uuid_nil, ou_CustomerID = uuid_nil, ou_Status = '''',
      ou_TotalPrice = 0\<rparr>"

definition order_line_json :: "texts \<Rightarrow> order_line \<Rightarrow> json" where
  "order_line_json T l = JObj
     [(''productId'', json_string (uuid_text T (ol_ProductID l))),
      (''quantity'', json_int (ol_Quantity l)),
      (''price'', money_json T (ol_Price l))]"

definition decode_order_line :: "texts \<Rightarrow> order_line decoder" where
  "decode_order_line T = decode_struct
     [(''productId'', field (decode_uuid T) ol_ProductID ol_ProductID_update),
      (''quantity'', field decode_int ol_Quantity ol_Quantity_update),
      (''price'', field (decode_money T) ol_Price ol_Price_update)]"

definition order_created_json :: "texts \<Rightarrow> order_created \<Rightarrow> json" where
  "order_created_json T c = JObj (header_json T (oc_Header c) @
     [(''orderId'', json_string (uuid_text T (oc_OrderID c))),
      (''customerId'', json_string (uuid_text T (oc_CustomerID c))),
      (''status'', json_string (oc_Status c)),
      (''totalPrice'', money_json T (oc_TotalPrice c)),
      (''items'', JArr (map (order_line_json T) (oc_Items c)))])"

definition decode_order_created :: "texts \<Rightarrow> order_created decoder" where
  "decode_order_created T = decode_struct (header_fields T oc_Header oc_Header_update @
     [(''orderId'', field (decode_uuid T) oc_OrderID oc_OrderID_update),
      (''customerId'', field (decode_uuid T) oc_CustomerID oc_CustomerID_update),
      (''status'', field decode_string oc_Status oc_Status_update),
      (''totalPrice'', field (decode_money T) oc_TotalPrice oc_TotalPrice_update),
      (''items'', field (decode_slice order_line_zero (decode_order_line T))
                        oc_Items oc_Items_update)])"

definition order_updated_json :: "texts \<Rightarrow> order_updated \<Rightarrow> json" where
  "order_updated_json T c = JObj (header_json T (ou_Header c) @
     [(''orderId'', json_string (uuid_text T (ou_OrderID c))),
      (''customerId'', json_string (uuid_text T (ou_CustomerID c))),
      (''status'', json_string (ou_Status c)),
      (''totalPrice'', money_json T (ou_TotalPrice c))])"

definition decode_order_updated :: "texts \<Rightarrow> order_updated decoder" where
  "decode_order_updated T = decode_struct (header_fields T ou_Header ou_Header_update @
     [(''orderId'', field (decode_uuid T) ou_OrderID ou_OrderID_update),
      (''customerId'', field (decode_uuid T) ou_CustomerID ou_CustomerID_update),
      (''status'', field decode_string ou_Status ou_Status_update),
      (''totalPrice'', field (decode_money T) ou_TotalPrice ou_TotalPrice_update)])"

section \<open>Events, envelopes and the registry\<close>

datatype integration_event =
    CheckoutSubmitted checkout_submitted
  | OrderCreatedV2 order_created
  | OrderUpdatedV2 order_updated

fun event_contract :: "integration_event \<Rightarrow> contract" where
  "event_contract (CheckoutSubmitted c) = checkout_contract"
| "event_contract (OrderCreatedV2 c) = order_created_contract"
| "event_contract (OrderUpdatedV2 c) = order_updated_contract"

fun event_metadata :: "integration_event \<Rightarrow> header" where
  "event_metadata (CheckoutSubmitted c) = cs_Header c"
| "event_metadata (OrderCreatedV2 c) = oc_Header c"
| "event_metadata (OrderUpdatedV2 c) = ou_Header c"

fun Marshal :: "texts \<Rightarrow> integration_event \<Rightarrow> payload" where
  "Marshal T (CheckoutSubmitted c) = JsonText (checkout_json T c)"
| "Marshal T (OrderCreatedV2 c) = JsonText (order_created_json T c)"
| "Marshal T (OrderUpdatedV2 c) = JsonText (order_updated_json T c)"

record envelope =
  env_ID :: uuid
  env_Contract :: contract
  env_AggregateID :: string
  env_CorrelationID :: string
  env_OccurredOnUTC :: time
  env_Payload :: payload

text \<open>A message that names a contract: its \<open>String\<close> is rendered with \<open>%s v%d\<close>.\<close>

definition contract_msg :: "string \<Rightarrow> contract \<Rightarrow> string \<Rightarrow> msg" where
  "contract_msg before c after =
     Fmt (before @ ''%s v%d'' @ after) [ArgStr (EventType c), ArgInt (Version c)]"

definition NewEnvelope :: "texts \<Rightarrow> integration_event \<Rightarrow> string \<Rightarrow> go_error + envelope" where
  "NewEnvelope T ev aggregateID =
     (if aggregateID = ''''
      then Inl (Plain (contract_msg ''integration event '' (event_contract ev) '' has no aggregate id''))
      else
        let payload = Marshal T ev; meta = event_metadata ev in
        if hdr_ID meta = uuid_nil
        then Inl (Plain (contract_msg ''integration event '' (event_contract ev) '' has no id''))
        else Inr \<lparr>env_ID = hdr_ID meta, env_Contract = event_contract ev,
                  env_AggregateID = aggregateID, env_CorrelationID = hdr_CorrelationID meta,
                  env_OccurredOnUTC = hdr_OccurredOnUTC meta, env_Payload = payload\<rparr>)"

text \<open>\<open>Unmarshal\<close> decodes into the value it is given, whose type says how.\<close>

definition UnmarshalAs :: "contract \<Rightarrow> 'a decoder \<Rightarrow> payload \<Rightarrow> 'a \<Rightarrow> go_error + 'a" where
  "UnmarshalAs c dec payload target =
     map_left (Wrapped (contract_msg ''decoding '' c ''''))
       (case payload of
          OtherBytes bs \<Rightarrow> Inl (Plain (Fmt ''invalid character in JSON text'' []))
        | JsonText j \<Rightarrow> dec j target)"

definition Unmarshal :: "texts \<Rightarrow> payload \<Rightarrow> integration_event \<Rightarrow> go_error + integration_event" where
  "Unmarshal T payload target =
     (case target of
        CheckoutSubmitted c \<Rightarrow>
          map_sum id CheckoutSubmitted (UnmarshalAs checkout_contract (decode_checkout T) payload c)
      | OrderCreatedV2 c \<Rightarrow>
          map_sum id OrderCreatedV2 (UnmarshalAs order_created_contract (decode_order_created T) payload c)
      | OrderUpdatedV2 c \<Rightarrow>
          map_sum id OrderUpdatedV2 (UnmarshalAs order_updated_contract (decode_order_updated T) payload c))"

text \<open>A factory is the zero value it returns; \<open>None\<close> is the panic on a duplicate.\<close>

type_synonym registry = "contract \<rightharpoonup> integration_event"

definition NewRegistry :: registry where
  "NewRegistry = Map.empty"

fun Register :: "integration_event list \<Rightarrow> registry \<Rightarrow> registry option" where
  "Register [] r = Some r"
| "Register (factory # fs) r =
     (case r (event_contract factory) of
        Some _ \<Rightarrow> None
      | None \<Rightarrow> Register fs (r(event_contract factory \<mapsto> factory)))"

definition basketv1_Register :: "registry \<Rightarrow> registry option" where
  "basketv1_Register = Register [CheckoutSubmitted checkout_zero]"

definition orderingv2_Register :: "registry \<Rightarrow> registry option" where
  "orderingv2_Register = Register [OrderCreatedV2 order_created_zero, OrderUpdatedV2 order_updated_zero]"

definition Knows :: "registry \<Rightarrow> contract \<Rightarrow> bool" where
  "Knows r c \<longleftrightarrow> r c \<noteq> None"

definition Decode :: "texts \<Rightarrow> registry \<Rightarrow> envelope \<Rightarrow> go_error + integration_event" where
  "Decode T r e =
     (case r (env_Contract e) of
        None \<Rightarrow> Inl (Plain (contract_msg ''no contract registered for '' (env_Contract e)
          ''; deploy a build that knows it, or the message will be poisoned after its retries''))
      | Some factory \<Rightarrow> Unmarshal T (env_Payload e) factory)"

section \<open>Round trips\<close>

definition header_ok :: "header \<Rightarrow> bool" where
  "header_ok h \<longleftrightarrow> utf8_ok (hdr_CorrelationID h)"

definition checkout_line_ok :: "checkout_line \<Rightarrow> bool" where
  "checkout_line_ok l \<longleftrightarrow>
     utf8_ok (cl_ProductName l) \<and> int64 (cl_Quantity l) \<and> is_decimal (cl_UnitPrice l)"

definition checkout_address_ok :: "checkout_address \<Rightarrow> bool" where
  "checkout_address_ok a \<longleftrightarrow>
     utf8_ok (ca_FirstName a) \<and> utf8_ok (ca_LastName a) \<and> utf8_ok (ca_EmailAddress a) \<and>
     utf8_ok (ca_AddressLine a) \<and> utf8_ok (ca_Country a) \<and> utf8_ok (ca_State a) \<and>
     utf8_ok (ca_ZipCode a)"

definition checkout_payment_ok :: "checkout_payment \<Rightarrow> bool" where
  "checkout_payment_ok p \<longleftrightarrow>
     utf8_ok (cp_PaymentToken p) \<and> utf8_ok (cp_CardLast4 p) \<and> int64 (cp_PaymentMethod p)"

definition checkout_ok :: "checkout_submitted \<Rightarrow> bool" where
  "checkout_ok c \<longleftrightarrow>
     header_ok (cs_Header c) \<and> utf8_ok (cs_UserName c) \<and> is_decimal (cs_TotalPrice c) \<and>
     list_all checkout_line_ok (cs_Items c) \<and> checkout_address_ok (cs_ShippingAddress c) \<and>
     checkout_address_ok (cs_BillingAddress c) \<and> checkout_payment_ok (cs_Payment c)"

definition order_line_ok :: "order_line \<Rightarrow> bool" where
  "order_line_ok l \<longleftrightarrow> int64 (ol_Quantity l) \<and> is_decimal (ol_Price l)"

definition order_created_ok :: "order_created \<Rightarrow> bool" where
  "order_created_ok c \<longleftrightarrow>
     header_ok (oc_Header c) \<and> utf8_ok (oc_Status c) \<and> is_decimal (oc_TotalPrice c) \<and>
     list_all order_line_ok (oc_Items c)"

definition order_updated_ok :: "order_updated \<Rightarrow> bool" where
  "order_updated_ok c \<longleftrightarrow>
     header_ok (ou_Header c) \<and> utf8_ok (ou_Status c) \<and> is_decimal (ou_TotalPrice c)"

fun event_ok :: "integration_event \<Rightarrow> bool" where
  "event_ok (CheckoutSubmitted c) \<longleftrightarrow> checkout_ok c"
| "event_ok (OrderCreatedV2 c) \<longleftrightarrow> order_created_ok c"
| "event_ok (OrderUpdatedV2 c) \<longleftrightarrow> order_updated_ok c"

lemmas decode_defs = decode_struct_def find_field_def field_def money_json_def decode_money_def

lemma decode_checkout_line_json:
  "texts_ok T \<Longrightarrow> checkout_line_ok l \<Longrightarrow>
     decode_checkout_line T (checkout_line_json T l) old = Inr l"
  by (simp add: decode_checkout_line_def checkout_line_json_def checkout_line_ok_def decode_defs)

lemma decode_checkout_address_json:
  "checkout_address_ok a \<Longrightarrow> decode_checkout_address (checkout_address_json a) old = Inr a"
  by (simp add: decode_checkout_address_def checkout_address_json_def checkout_address_ok_def
      decode_defs)

lemma decode_checkout_payment_json:
  "checkout_payment_ok p \<Longrightarrow> decode_checkout_payment (checkout_payment_json p) old = Inr p"
  by (simp add: decode_checkout_payment_def checkout_payment_json_def checkout_payment_ok_def
      decode_defs)

lemma decode_order_line_json:
  "texts_ok T \<Longrightarrow> order_line_ok l \<Longrightarrow> decode_order_line T (order_line_json T l) old = Inr l"
  by (simp add: decode_order_line_def order_line_json_def order_line_ok_def decode_defs)

lemma decode_checkout_lines_json:
  "texts_ok T \<Longrightarrow> list_all checkout_line_ok ls \<Longrightarrow>
     decode_slice checkout_line_zero (decode_checkout_line T) (JArr (map (checkout_line_json T) ls)) old
       = Inr ls"
  by (rule decode_slice_json) (simp add: list_all_iff decode_checkout_line_json)

lemma decode_order_lines_json:
  "texts_ok T \<Longrightarrow> list_all order_line_ok ls \<Longrightarrow>
     decode_slice order_line_zero (decode_order_line T) (JArr (map (order_line_json T) ls)) old
       = Inr ls"
  by (rule decode_slice_json) (simp add: list_all_iff decode_order_line_json)

lemma decode_checkout_json:
  assumes "texts_ok T" "checkout_ok c"
  shows "decode_checkout T (checkout_json T c) checkout_zero = Inr c"
  using assms
  by (simp add: decode_checkout_def checkout_json_def checkout_ok_def decode_defs header_json_def
      header_fields_def header_ok_def decode_checkout_lines_json decode_checkout_address_json
      decode_checkout_payment_json checkout_zero_def header_zero_def)

lemma decode_order_created_json:
  assumes "texts_ok T" "order_created_ok c"
  shows "decode_order_created T (order_created_json T c) order_created_zero = Inr c"
  using assms
  by (simp add: decode_order_created_def order_created_json_def order_created_ok_def decode_defs
      header_json_def header_fields_def header_ok_def decode_order_lines_json
      order_created_zero_def header_zero_def)

lemma decode_order_updated_json:
  assumes "texts_ok T" "order_updated_ok c"
  shows "decode_order_updated T (order_updated_json T c) order_updated_zero = Inr c"
  using assms
  by (simp add: decode_order_updated_def order_updated_json_def order_updated_ok_def decode_defs
      header_json_def header_fields_def header_ok_def order_updated_zero_def header_zero_def)

lemma Unmarshal_Marshal:
  assumes "texts_ok T" "event_ok ev"
  shows "Unmarshal T (Marshal T ev)
           (case ev of
              CheckoutSubmitted c \<Rightarrow> CheckoutSubmitted checkout_zero
            | OrderCreatedV2 c \<Rightarrow> OrderCreatedV2 order_created_zero
            | OrderUpdatedV2 c \<Rightarrow> OrderUpdatedV2 order_updated_zero) = Inr ev"
  using assms
  by (cases ev) (simp_all add: Unmarshal_def UnmarshalAs_def decode_checkout_json
      decode_order_created_json decode_order_updated_json)

lemmas contract_defs =
  checkout_contract_def order_created_contract_def order_updated_contract_def

lemma NewEnvelope_Inr:
  "NewEnvelope T ev agg = Inr e \<longleftrightarrow>
     agg \<noteq> '''' \<and> hdr_ID (event_metadata ev) \<noteq> 0 \<and>
     \<lparr>env_ID = hdr_ID (event_metadata ev), env_Contract = event_contract ev, env_AggregateID = agg,
      env_CorrelationID = hdr_CorrelationID (event_metadata ev),
      env_OccurredOnUTC = hdr_OccurredOnUTC (event_metadata ev), env_Payload = Marshal T ev\<rparr> = e"
  by (simp add: NewEnvelope_def Let_def)

section \<open>Properties\<close>

text \<open>
  C12. An integration event put into an envelope is read back unchanged by the registry that knows
  every contract: nothing is lost or altered between the service that publishes and the one that
  consumes, for all three contracts.
\<close>

theorem envelope_roundtrip:
  assumes "texts_ok T" and "event_ok ev"
    and "NewEnvelope T ev agg = Inr e"
    and "basketv1_Register NewRegistry = Some r1" and "orderingv2_Register r1 = Some r"
  shows "Decode T r e = Inr ev \<and> env_ID e = hdr_ID (event_metadata ev) \<and> env_AggregateID e = agg"
proof -
  have r: "r = [checkout_contract \<mapsto> CheckoutSubmitted checkout_zero,
                order_created_contract \<mapsto> OrderCreatedV2 order_created_zero,
                order_updated_contract \<mapsto> OrderUpdatedV2 order_updated_zero]"
    using assms(4,5)
    by (auto simp: basketv1_Register_def orderingv2_Register_def NewRegistry_def contract_defs
        split: if_splits)
  have "r (event_contract ev) = Some (case ev of
              CheckoutSubmitted c \<Rightarrow> CheckoutSubmitted checkout_zero
            | OrderCreatedV2 c \<Rightarrow> OrderCreatedV2 order_created_zero
            | OrderUpdatedV2 c \<Rightarrow> OrderUpdatedV2 order_updated_zero)"
    unfolding r by (cases ev) (simp_all add: contract_defs)
  with Unmarshal_Marshal [OF assms(1,2)] assms(3) show ?thesis
    by (auto simp: NewEnvelope_Inr Decode_def)
qed

definition sample_event :: integration_event where
  "sample_event = CheckoutSubmitted
     (checkout_zero\<lparr>cs_Header := NewHeader 7 5 ''trace-1'', cs_UserName := ''swn01'',
       cs_CustomerID := 3, cs_TotalPrice := 20,
       cs_Items := [\<lparr>cl_ProductID = 9, cl_ProductName = ''Pen'', cl_Quantity = 2, cl_UnitPrice = 10\<rparr>]\<rparr>)"

lemma sample_event_ok: "event_ok sample_event"
  using is_decimal_int [of 20] is_decimal_int [of 10]
  by (simp add: sample_event_def checkout_ok_def checkout_zero_def header_ok_def NewHeader_def
      checkout_line_ok_def checkout_address_ok_def checkout_address_zero_def
      checkout_payment_ok_def int64_def utf8_ok_ascii ascii_def byte_in_def)

theorem envelope_roundtrip_witness:
  "\<exists>e r1 r. NewEnvelope sample_texts sample_event ''swn01'' = Inr e \<and>
     basketv1_Register NewRegistry = Some r1 \<and> orderingv2_Register r1 = Some r \<and>
     Decode sample_texts r e = Inr sample_event"
proof -
  obtain e where e: "NewEnvelope sample_texts sample_event ''swn01'' = Inr e"
    by (simp add: NewEnvelope_Inr sample_event_def NewHeader_def)
  obtain r1 where r1: "basketv1_Register NewRegistry = Some r1"
    by (simp add: basketv1_Register_def NewRegistry_def)
  moreover obtain r where "orderingv2_Register r1 = Some r"
    using r1 by (auto simp: basketv1_Register_def orderingv2_Register_def NewRegistry_def contract_defs)
  ultimately show ?thesis
    using envelope_roundtrip [OF sample_texts_ok sample_event_ok e] e by blast
qed

end
