(* ===== verification/Go_Runtime.thy ===== *)
theory Go_Runtime
  imports Go_Errors
begin

text \<open>
  Effectful code. An action runs in an environment (how the next calls to a database, a cache or
  a broker end, the clock, the random ids) and on the state of the component it belongs to, and
  returns an error or a result. Every SQL statement, cache call and commit consumes one outcome,
  so a theorem over all environments is a theorem over every pattern of failures.
\<close>

section \<open>The environment\<close>

text \<open>
  A call succeeds, fails without effect, or takes effect although the caller is told it failed
  (the answer was lost). When the list of outcomes is used up, every later call succeeds.
\<close>

datatype outcome = Succeeds | FailsBefore fault | FailsAfter fault

text \<open>\<open>rnd n\<close> is the value the \<open>n\<close>-th call of \<open>uuid.New()\<close> returns, \<open>drawn\<close> how many were made.\<close>

record env =
  outcomes :: "outcome list"
  now :: time
  rnd :: "nat \<Rightarrow> uuid"
  drawn :: nat

type_synonym ('s, 'a) act = "env \<times> 's \<Rightarrow> (go_error + 'a) \<times> env \<times> 's"

definition next_outcome :: "env \<Rightarrow> outcome \<times> env" where
  "next_outcome E =
     (case outcomes E of [] \<Rightarrow> (Succeeds, E) | out # outs \<Rightarrow> (out, E\<lparr>outcomes := outs\<rparr>))"

section \<open>Composing actions\<close>

definition ret :: "'a \<Rightarrow> ('s, 'a) act" where
  "ret x w = (Inr x, w)"

definition fail :: "go_error \<Rightarrow> ('s, 'a) act" where
  "fail e w = (Inl e, w)"

definition andthen :: "('s, 'a) act \<Rightarrow> ('a \<Rightarrow> ('s, 'b) act) \<Rightarrow> ('s, 'b) act" where
  "andthen m f w = (case m w of (Inl e, w') \<Rightarrow> (Inl e, w') | (Inr x, w') \<Rightarrow> f x w')"

definition of_res :: "go_error + 'a \<Rightarrow> ('s, 'a) act" where
  "of_res r w = (r, w)"

definition on_err :: "(go_error \<Rightarrow> go_error) \<Rightarrow> ('s, 'a) act \<Rightarrow> ('s, 'a) act" where
  "on_err g m w = (case m w of (r, w') \<Rightarrow> (map_left g r, w'))"

fun for_each :: "('a \<Rightarrow> ('s, unit) act) \<Rightarrow> 'a list \<Rightarrow> ('s, unit) act" where
  "for_each f [] = ret ()"
| "for_each f (x # xs) = andthen (f x) (\<lambda>_. for_each f xs)"

definition new_uuid :: "('s, uuid) act" where
  "new_uuid w = (case w of (E, s) \<Rightarrow> (Inr (rnd E (drawn E)), E\<lparr>drawn := Suc (drawn E)\<rparr>, s))"

definition time_now :: "('s, time) act" where
  "time_now w = (Inr (now (fst w)), w)"

text \<open>An action whose error the caller looks at and goes on.\<close>

definition attempt :: "('s, 'a) act \<Rightarrow> ('s, go_error + 'a) act" where
  "attempt m w = (case m w of (r, w') \<Rightarrow> (Inr r, w'))"

text \<open>An action that looks at the state first.\<close>

definition on_state :: "('s \<Rightarrow> ('s, 'a) act) \<Rightarrow> ('s, 'a) act" where
  "on_state f w = f (snd w) w"

text \<open>An action on a part of the state.\<close>

definition zoom :: "('s \<Rightarrow> 't) \<Rightarrow> ('t \<Rightarrow> 's \<Rightarrow> 's) \<Rightarrow> ('t, 'a) act \<Rightarrow> ('s, 'a) act" where
  "zoom get put m w =
     (case w of (E, s) \<Rightarrow> (case m (E, get s) of (r, E', t) \<Rightarrow> (r, E', put t s)))"

section \<open>Calls that can fail\<close>

text \<open>
  \<open>call\<close> makes one call whose effect on the state is \<open>stmt\<close> (it is given the server's clock). The
  effect itself may report an error of its own, such as a violated constraint.
\<close>

definition call :: "(time \<Rightarrow> 's \<Rightarrow> (go_error + 'a) \<times> 's) \<Rightarrow> ('s, 'a) act" where
  "call stmt w =
     (case w of (E, s) \<Rightarrow>
       (case next_outcome E of
          (Succeeds, E') \<Rightarrow> (case stmt (now E) s of (r, s') \<Rightarrow> (r, E', s'))
        | (FailsBefore f, E') \<Rightarrow> (Inl (DriverError f), E', s)
        | (FailsAfter f, E') \<Rightarrow> (Inl (DriverError f), E', snd (stmt (now E) s))))"

definition query :: "('s \<Rightarrow> 'a) \<Rightarrow> ('s, 'a) act" where
  "query f = call (\<lambda>_ s. (Inr (f s), s))"

definition update :: "(time \<Rightarrow> 's \<Rightarrow> 's) \<Rightarrow> ('s, unit) act" where
  "update f = call (\<lambda>t s. (Inr (), f t s))"

text \<open>
  A transaction: begin, the body on the caller's connection, then commit; any failure of the body
  or a commit that did not happen puts the tables back. A commit whose answer is lost has happened.
\<close>

definition transaction :: "msg \<Rightarrow> msg \<Rightarrow> ('s, 'a) act \<Rightarrow> ('s, 'a) act" where
  "transaction beginning committing body w =
     (case w of (E, s) \<Rightarrow>
       (case next_outcome E of
          (Succeeds, E1) \<Rightarrow>
            (case body (E1, s) of
               (Inl e, E2, s2) \<Rightarrow> (Inl e, E2, s)
             | (Inr x, E2, s2) \<Rightarrow>
                 (case next_outcome E2 of
                    (Succeeds, E3) \<Rightarrow> (Inr x, E3, s2)
                  | (FailsBefore f, E3) \<Rightarrow> (Inl (Wrapped committing (DriverError f)), E3, s)
                  | (FailsAfter f, E3) \<Rightarrow> (Inl (Wrapped committing (DriverError f)), E3, s2)))
        | (FailsBefore f, E1) \<Rightarrow> (Inl (Wrapped beginning (DriverError f)), E1, s)
        | (FailsAfter f, E1) \<Rightarrow> (Inl (Wrapped beginning (DriverError f)), E1, s)))"

section \<open>Rules\<close>

lemma andthen_Inr [run]:
  "andthen m f w = (Inr y, w'') \<longleftrightarrow> (\<exists>x w'. m w = (Inr x, w') \<and> f x w' = (Inr y, w''))"
  by (auto simp: andthen_def split: prod.splits sum.splits)

lemma andthen_Inl [run]:
  "andthen m f w = (Inl e, w'') \<longleftrightarrow>
     m w = (Inl e, w'') \<or> (\<exists>x w'. m w = (Inr x, w') \<and> f x w' = (Inl e, w''))"
  by (auto simp: andthen_def split: prod.splits sum.splits)

lemma ret_run [run, simp]: "ret x w = (r, w') \<longleftrightarrow> r = Inr x \<and> w' = w"
  by (auto simp: ret_def)

lemma fail_run [run, simp]: "fail e w = (r, w') \<longleftrightarrow> r = Inl e \<and> w' = w"
  by (auto simp: fail_def)

lemma of_res_run [run, simp]: "of_res q w = (r, w') \<longleftrightarrow> q = r \<and> w' = w"
  by (auto simp: of_res_def)

lemma attempt_run [run, simp]: "attempt m w = (r, w') \<longleftrightarrow> (\<exists>q. m w = (q, w') \<and> r = Inr q)"
  by (auto simp: attempt_def split: prod.splits)

lemma on_state_run [run, simp]: "on_state f (E, s) = f s (E, s)"
  by (simp add: on_state_def)

lemma zoom_run:
  "zoom get put m (E, s) = (r, E', s') \<longleftrightarrow> (\<exists>t. m (E, get s) = (r, E', t) \<and> s' = put t s)"
  by (auto simp: zoom_def split: prod.splits)

lemma on_err_Inr [run]: "on_err g m w = (Inr x, w') \<longleftrightarrow> m w = (Inr x, w')"
  by (auto simp: on_err_def split: prod.splits)

lemma on_err_Inl [run]: "on_err g m w = (Inl e, w') \<longleftrightarrow> (\<exists>e'. m w = (Inl e', w') \<and> e = g e')"
  by (auto simp: on_err_def map_left_Inl split: prod.splits)

text \<open>Direct evaluation, for runs in a concrete environment.\<close>

lemma andthen_eval: "m w = (Inr x, w') \<Longrightarrow> andthen m f w = f x w'"
  by (simp add: andthen_def)

lemma attempt_eval: "m w = (r, w') \<Longrightarrow> andthen (attempt m) f w = f r w'"
  by (simp add: andthen_def attempt_def)

lemma andthen_fail: "m w = (Inl e, w') \<Longrightarrow> andthen m f w = (Inl e, w')"
  by (simp add: andthen_def)

lemma andthen_ret [simp]: "andthen (ret x) f = f x"
  by (rule ext) (simp add: andthen_def ret_def)

lemma andthen_error [simp]: "andthen (fail e) f = fail e"
  by (rule ext) (simp add: andthen_def fail_def)

lemma call_ok: "outcomes E = [] \<Longrightarrow> call stmt (E, s) = (case stmt (now E) s of (r, s') \<Rightarrow> (r, E, s'))"
  by (simp add: call_def next_outcome_def)

lemma query_ok: "outcomes E = [] \<Longrightarrow> query f (E, s) = (Inr (f s), E, s)"
  by (simp add: query_def call_ok)

lemma update_ok: "outcomes E = [] \<Longrightarrow> update f (E, s) = (Inr (), E, f (now E) s)"
  by (simp add: update_def call_ok)

lemma query_Inr: "query f (E, s) = (Inr x, E', s') \<Longrightarrow> x = f s \<and> s' = s"
  by (auto simp: query_def call_def split: prod.splits outcome.splits)

lemma query_state: "query f (E, s) = (r, E', s') \<Longrightarrow> s' = s"
  by (auto simp: query_def call_def split: prod.splits outcome.splits)

lemma query_Inl: "query f (E, s) = (Inl e, E', s') \<Longrightarrow> (\<exists>f. e = DriverError f) \<and> s' = s"
  by (auto simp: query_def call_def split: prod.splits outcome.splits)

lemma update_Inr: "update f (E, s) = (Inr x, E', s') \<Longrightarrow> s' = f (now E) s"
  by (auto simp: update_def call_def split: prod.splits outcome.splits)

lemma update_cases: "update f (E, s) = (r, E', s') \<Longrightarrow> s' = s \<or> s' = f (now E) s"
  by (auto simp: update_def call_def split: prod.splits outcome.splits)

lemma update_Inl: "update f (E, s) = (Inl e, E', s') \<Longrightarrow> \<exists>f. e = DriverError f"
  by (auto simp: update_def call_def split: prod.splits outcome.splits)

lemma call_Inr: "call stmt (E, s) = (Inr x, E', s') \<Longrightarrow> stmt (now E) s = (Inr x, s')"
  by (auto simp: call_def split: prod.splits outcome.splits)

lemma call_cases: "call stmt (E, s) = (r, E', s') \<Longrightarrow> s' = s \<or> s' = snd (stmt (now E) s)"
  by (auto simp: call_def split: prod.splits outcome.splits)

lemma call_outcomes:
  assumes "call stmt (E, s) = (r, E', s')"
  obtains "(r, s') = stmt (now E) s"
  | f where "r = Inl (DriverError f)" "s' = s \<or> s' = snd (stmt (now E) s)" "outcomes E \<noteq> []"
  using assms
  by (auto simp: call_def next_outcome_def split: prod.splits outcome.splits list.splits)

lemma call_Inl:
  "call stmt (E, s) = (Inl e, E', s') \<Longrightarrow>
     (\<exists>f. e = DriverError f) \<or> stmt (now E) s = (Inl e, s')"
  by (auto simp: call_def split: prod.splits outcome.splits)

lemma next_outcome_frame:
  "next_outcome E = (out, E') \<Longrightarrow> now E' = now E \<and> rnd E' = rnd E \<and> drawn E' = drawn E"
  by (auto simp: next_outcome_def split: list.splits)

subsection \<open>Transactions are atomic\<close>

lemma transaction_atomic:
  assumes "transaction b c body (E, s) = (r, E', s')"
  shows "s' = s \<or> (\<exists>E1 x E2. body (E1, s) = (Inr x, E2, s') \<and> now E1 = now E
                     \<and> rnd E1 = rnd E \<and> drawn E1 = drawn E)"
  using assms
  by (auto simp: transaction_def dest: next_outcome_frame
      split: prod.splits outcome.splits sum.splits)

lemma transaction_Inr:
  assumes "transaction b c body (E, s) = (Inr x, E', s')"
  shows "\<exists>E1 E2. body (E1, s) = (Inr x, E2, s') \<and> now E1 = now E
           \<and> rnd E1 = rnd E \<and> drawn E1 = drawn E"
  using assms
  by (auto simp: transaction_def dest: next_outcome_frame
      split: prod.splits outcome.splits sum.splits)

lemma transaction_Inl:
  assumes "transaction b c body (E, s) = (Inl e, E', s')"
  shows "(\<exists>m f. e = Wrapped m (DriverError f)) \<or> (\<exists>E1 E2 s2. body (E1, s) = (Inl e, E2, s2) \<and> s' = s)"
  using assms
  by (auto simp: transaction_def split: prod.splits outcome.splits sum.splits)

lemma transaction_ok:
  "outcomes E = [] \<Longrightarrow> body (E, s) = (Inr x, E2, s2) \<Longrightarrow> outcomes E2 = [] \<Longrightarrow>
     transaction b c body (E, s) = (Inr x, E2, s2)"
  by (simp add: transaction_def next_outcome_def)

lemma transaction_error_ok:
  "outcomes E = [] \<Longrightarrow> body (E, s) = (Inl e, E2, s2) \<Longrightarrow>
     transaction b c body (E, s) = (Inl e, E2, s)"
  by (simp add: transaction_def next_outcome_def)

subsection \<open>Actions that keep a property of the state\<close>

definition keeps :: "('s \<Rightarrow> bool) \<Rightarrow> ('s, 'a) act \<Rightarrow> bool" where
  "keeps P m \<longleftrightarrow> (\<forall>E s r E' s'. m (E, s) = (r, E', s') \<longrightarrow> P s \<longrightarrow> P s')"

lemma keepsI: "(\<And>E s r E' s'. m (E, s) = (r, E', s') \<Longrightarrow> P s \<Longrightarrow> P s') \<Longrightarrow> keeps P m"
  by (auto simp: keeps_def)

lemma keepsD: "keeps P m \<Longrightarrow> m (E, s) = (r, E', s') \<Longrightarrow> P s \<Longrightarrow> P s'"
  by (auto simp: keeps_def)

lemma keeps_ret [wf_intro]: "keeps P (ret x)"
  by (auto simp: keeps_def)

lemma keeps_fail [wf_intro]: "keeps P (fail e)"
  by (auto simp: keeps_def)

lemma keeps_of_res [wf_intro]: "keeps P (of_res r)"
  by (auto simp: keeps_def)

lemma keeps_andthen [wf_intro]: "keeps P m \<Longrightarrow> (\<And>x. keeps P (f x)) \<Longrightarrow> keeps P (andthen m f)"
  unfolding keeps_def
  by (auto simp: andthen_def split: prod.splits sum.splits)

lemma keeps_on_err [wf_intro]: "keeps P m \<Longrightarrow> keeps P (on_err g m)"
  unfolding keeps_def by (auto simp: on_err_def split: prod.splits)

lemma keeps_attempt [wf_intro]: "keeps P m \<Longrightarrow> keeps P (attempt m)"
  unfolding keeps_def by (auto split: prod.splits)

lemma keeps_on_state [wf_intro]: "(\<And>s. keeps P (f s)) \<Longrightarrow> keeps P (on_state f)"
  unfolding keeps_def by simp

lemma keeps_zoom: "keeps Q m \<Longrightarrow> (\<And>s. P s \<Longrightarrow> Q (get s)) \<Longrightarrow> (\<And>s t. P s \<Longrightarrow> Q t \<Longrightarrow> P (put t s))
    \<Longrightarrow> keeps P (zoom get put m)"
  unfolding keeps_def by (auto simp: zoom_run)

lemma keeps_for_each [wf_intro]: "(\<And>x. x \<in> set xs \<Longrightarrow> keeps P (f x)) \<Longrightarrow> keeps P (for_each f xs)"
  by (induction xs) (auto intro!: wf_intro)

lemma keeps_query [wf_intro]: "keeps P (query f)"
  by (auto simp: keeps_def dest: query_state)

lemma keeps_update [wf_intro]: "(\<And>t s. P s \<Longrightarrow> P (f t s)) \<Longrightarrow> keeps P (update f)"
  by (auto simp: keeps_def dest!: update_cases)

lemma keeps_call [wf_intro]: "(\<And>t s. P s \<Longrightarrow> P (snd (stmt t s))) \<Longrightarrow> keeps P (call stmt)"
  by (auto simp: keeps_def dest!: call_cases)

lemma keeps_transaction [wf_intro]: "keeps P body \<Longrightarrow> keeps P (transaction b c body)"
  by (rule keepsI) (auto dest!: transaction_atomic dest: keepsD)

lemma keeps_new_uuid [wf_intro]: "keeps P new_uuid"
  by (auto simp: keeps_def new_uuid_def)

lemma keeps_time_now [wf_intro]: "keeps P time_now"
  by (auto simp: keeps_def time_now_def)

subsection \<open>Actions that do not touch the state\<close>

definition quiet :: "('s, 'a) act \<Rightarrow> bool" where
  "quiet m \<longleftrightarrow> (\<forall>E s r E' s'. m (E, s) = (r, E', s') \<longrightarrow> s' = s)"

lemma quietD: "quiet m \<Longrightarrow> m (E, s) = (r, E', s') \<Longrightarrow> s' = s"
  by (auto simp: quiet_def)

lemma quiet_keeps: "quiet m \<Longrightarrow> keeps P m"
  by (auto simp: keeps_def dest: quietD)

lemma quietI: "(\<And>E s r E' s'. m (E, s) = (r, E', s') \<Longrightarrow> s' = s) \<Longrightarrow> quiet m"
  by (auto simp: quiet_def)

lemma quiet_basic [simp]:
  "quiet (ret x)" "quiet (fail e)" "quiet (of_res r)" "quiet (query f)" "quiet new_uuid" "quiet time_now"
  by (auto simp: quiet_def new_uuid_def time_now_def dest: query_state)

lemma quiet_andthen: "quiet m \<Longrightarrow> (\<And>x. quiet (f x)) \<Longrightarrow> quiet (andthen m f)"
  by (rule quietI) (auto simp: andthen_def dest: quietD split: prod.splits sum.splits)

lemma quiet_on_err [simp]: "quiet (on_err g m) = quiet m"
  unfolding quiet_def by (auto simp: on_err_def split: prod.splits)

lemma on_err_state: "on_err g m w = (r, w') \<Longrightarrow> \<exists>r'. m w = (r', w')"
  by (auto simp: on_err_def split: prod.splits)

lemma for_each_Inr_Cons:
  "for_each f (x # xs) w = (Inr u, w') \<longleftrightarrow> (\<exists>w1. f x w = (Inr (), w1) \<and> for_each f xs w1 = (Inr u, w'))"
  by (auto simp: andthen_Inr)

subsection \<open>The errors an action can return\<close>

definition throws :: "(go_error \<Rightarrow> bool) \<Rightarrow> ('s, 'a) act \<Rightarrow> bool" where
  "throws Q m \<longleftrightarrow> (\<forall>w e w'. m w = (Inl e, w') \<longrightarrow> Q e)"

named_theorems throw_intro \<open>the errors of an action\<close>

lemma throwsI: "(\<And>w e w'. m w = (Inl e, w') \<Longrightarrow> Q e) \<Longrightarrow> throws Q m"
  by (auto simp: throws_def)

lemma throwsD: "throws Q m \<Longrightarrow> m w = (Inl e, w') \<Longrightarrow> Q e"
  unfolding throws_def by blast

lemma throws_ret [throw_intro]: "throws Q (ret x)"
  by (auto simp: throws_def)

lemma throws_fail [throw_intro]: "Q e \<Longrightarrow> throws Q (fail e)"
  by (auto simp: throws_def)

lemma throws_of_res [throw_intro]: "(\<And>e. r = Inl e \<Longrightarrow> Q e) \<Longrightarrow> throws Q (of_res r)"
  by (auto simp: throws_def)

lemma throws_andthen [throw_intro]:
  "throws Q m \<Longrightarrow> (\<And>x. throws Q (f x)) \<Longrightarrow> throws Q (andthen m f)"
  by (rule throwsI) (auto simp: andthen_def dest: throwsD split: prod.splits sum.splits)

lemma throws_on_err [throw_intro]: "throws (\<lambda>e. Q (g e)) m \<Longrightarrow> throws Q (on_err g m)"
  by (rule throwsI) (auto simp: on_err_Inl dest: throwsD)

lemma throws_for_each [throw_intro]:
  "(\<And>x. x \<in> set xs \<Longrightarrow> throws Q (f x)) \<Longrightarrow> throws Q (for_each f xs)"
  by (induction xs) (auto intro!: throw_intro)

lemma throws_new_uuid [throw_intro]: "throws Q new_uuid"
  by (auto simp: throws_def new_uuid_def split: prod.splits)

lemma throws_time_now [throw_intro]: "throws Q time_now"
  by (auto simp: throws_def time_now_def)

lemma throws_call [throw_intro]:
  "(\<And>f. Q (DriverError f)) \<Longrightarrow> (\<And>t s e s'. stmt t s = (Inl e, s') \<Longrightarrow> Q e) \<Longrightarrow> throws Q (call stmt)"
proof (rule throwsI)
  fix w e w'
  assume q: "\<And>f. Q (DriverError f)" "\<And>t s e s'. stmt t s = (Inl e, s') \<Longrightarrow> Q e"
    and c: "call stmt w = (Inl e, w')"
  obtain E s E' s' where "w = (E, s)" "w' = (E', s')" by (cases w, cases w')
  with c call_Inl [of stmt E s e E' s'] q show "Q e" by auto
qed

lemma throws_query [throw_intro]: "(\<And>f. Q (DriverError f)) \<Longrightarrow> throws Q (query f)"
  unfolding query_def by (rule throws_call) auto

lemma throws_update [throw_intro]: "(\<And>f. Q (DriverError f)) \<Longrightarrow> throws Q (update f)"
  unfolding update_def by (rule throws_call) auto

lemma throws_transaction [throw_intro]:
  assumes "throws Q body" "\<And>m f. Q (Wrapped m (DriverError f))"
  shows "throws Q (transaction b c body)"
proof (rule throwsI)
  fix w e w'
  assume t: "transaction b c body w = (Inl e, w')"
  obtain E s E' s' where "w = (E, s)" "w' = (E', s')" by (cases w, cases w')
  with t transaction_Inl [of b c body E s e E' s'] assms show "Q e" by (auto dest: throwsD)
qed

lemma throws_weaken: "throws Q m \<Longrightarrow> (\<And>e. Q e \<Longrightarrow> R e) \<Longrightarrow> throws R m"
  by (auto simp: throws_def)

subsection \<open>Actions that do not look at the state\<close>

definition stateless :: "('s, 'a) act \<Rightarrow> bool" where
  "stateless m \<longleftrightarrow> (\<exists>f. \<forall>E s. m (E, s) = (fst (f E), snd (f E), s))"

named_theorems stateless_intro \<open>actions that do not look at the state\<close>

lemma stateless_quiet: "stateless m \<Longrightarrow> quiet m"
  by (auto simp: stateless_def quiet_def)

lemma stateless_same:
  "stateless m \<Longrightarrow> m (E, s) = (r, E', s') \<Longrightarrow> m (E, t) = (r, E', t)"
  by (auto simp: stateless_def)

lemma stateless_ret [stateless_intro]: "stateless (ret x)"
  unfolding stateless_def by (rule exI [of _ "\<lambda>E. (Inr x, E)"]) (simp add: ret_def)

lemma stateless_fail [stateless_intro]: "stateless (fail e)"
  unfolding stateless_def by (rule exI [of _ "\<lambda>E. (Inl e, E)"]) (simp add: fail_def)

lemma stateless_of_res [stateless_intro]: "stateless (of_res r)"
  unfolding stateless_def by (rule exI [of _ "\<lambda>E. (r, E)"]) (simp add: of_res_def)

lemma stateless_new_uuid [stateless_intro]: "stateless new_uuid"
  unfolding stateless_def
  by (rule exI [of _ "\<lambda>E. (Inr (rnd E (drawn E)), E\<lparr>drawn := Suc (drawn E)\<rparr>)"]) (simp add: new_uuid_def)

lemma stateless_andthen [stateless_intro]:
  assumes "stateless m" "\<And>x. stateless (f x)"
  shows "stateless (andthen m f)"
proof -
  from assms(1) obtain g where g: "\<And>E s. m (E, s) = (fst (g E), snd (g E), s)"
    by (auto simp: stateless_def)
  have "\<forall>x. \<exists>h. \<forall>E s. f x (E, s) = (fst (h E), snd (h E), s)"
    using assms(2) by (auto simp: stateless_def)
  from choice [OF this] obtain h where h: "\<And>x E s. f x (E, s) = (fst (h x E), snd (h x E), s)" by auto
  show ?thesis
    unfolding stateless_def
    by (rule exI [of _ "\<lambda>E. case fst (g E) of Inl e \<Rightarrow> (Inl e, snd (g E)) | Inr x \<Rightarrow> h x (snd (g E))"])
      (auto simp: andthen_def g h split: sum.split)
qed

lemma stateless_on_err [stateless_intro]: "stateless m \<Longrightarrow> stateless (on_err g m)"
proof -
  assume "stateless m"
  then obtain f where "\<And>E s. m (E, s) = (fst (f E), snd (f E), s)" by (auto simp: stateless_def)
  then show ?thesis
    unfolding stateless_def
    by (intro exI [of _ "\<lambda>E. (map_left g (fst (f E)), snd (f E))"]) (simp add: on_err_def)
qed

subsection \<open>The clock and the random ids are the environment's\<close>

definition steady :: "('s, 'a) act \<Rightarrow> bool" where
  "steady m \<longleftrightarrow> (\<forall>E s r E' s'. m (E, s) = (r, E', s') \<longrightarrow> now E' = now E \<and> rnd E' = rnd E)"

named_theorems steady_intro \<open>actions that leave the clock and the ids alone\<close>

lemma steadyI:
  "(\<And>E s r E' s'. m (E, s) = (r, E', s') \<Longrightarrow> now E' = now E \<and> rnd E' = rnd E) \<Longrightarrow> steady m"
  by (auto simp: steady_def)

lemma steadyD: "steady m \<Longrightarrow> m (E, s) = (r, E', s') \<Longrightarrow> now E' = now E \<and> rnd E' = rnd E"
  unfolding steady_def by blast

lemma steady_basic [steady_intro]:
  "steady (ret x)" "steady (fail e)" "steady (of_res r)" "steady new_uuid" "steady time_now"
  by (auto simp: steady_def new_uuid_def time_now_def)

lemma steady_andthen [steady_intro]: "steady m \<Longrightarrow> (\<And>x. steady (f x)) \<Longrightarrow> steady (andthen m f)"
proof (rule steadyI)
  fix E s r E' s'
  assume a: "steady m" "\<And>x. steady (f x)" and r: "andthen m f (E, s) = (r, E', s')"
  obtain q E1 s1 where q: "m (E, s) = (q, E1, s1)" by (cases "m (E, s)") auto
  show "now E' = now E \<and> rnd E' = rnd E"
    using q r steadyD [OF a(1) q] steadyD [OF a(2), of _ E1 s1 r E' s']
    by (cases q) (auto simp: andthen_def)
qed

lemma steady_on_err [steady_intro]: "steady m \<Longrightarrow> steady (on_err g m)"
  unfolding steady_def by (auto simp: on_err_def split: prod.splits)

lemma steady_attempt [steady_intro]: "steady m \<Longrightarrow> steady (attempt m)"
  by (rule steadyI) (auto dest: steadyD)

lemma steady_call [steady_intro]: "steady (call stmt)"
  by (rule steadyI) (auto simp: call_def dest!: next_outcome_frame split: prod.splits outcome.splits)

lemma steady_query [steady_intro]: "steady (query f)"
  unfolding query_def by (rule steady_call)

lemma steady_update [steady_intro]: "steady (update f)"
  unfolding update_def by (rule steady_call)

lemma steady_zoom [steady_intro]: "steady m \<Longrightarrow> steady (zoom get put m)"
  unfolding steady_def by (auto simp: zoom_run)

lemma steady_transaction [steady_intro]:
  assumes "steady body"
  shows "steady (transaction b c body)"
  by (rule steadyI)
    (auto simp: transaction_def dest!: next_outcome_frame steadyD [OF assms]
      split: prod.splits outcome.splits sum.splits)


section \<open>An environment in which nothing fails\<close>

definition sample_env :: env where
  "sample_env = \<lparr>outcomes = [], now = 1000, rnd = (\<lambda>n. of_nat (n + 100)), drawn = 0\<rparr>"

lemma sample_env_ok [simp]: "outcomes sample_env = []"
  by (simp add: sample_env_def)

end
