(* ===== verification/Order_Domain.thy ===== *)
theory Order_Domain
  imports Go_Runtime
begin

text \<open>
  The Ordering domain, \<open>internal/ordering/domain\<close>: identifiers, value objects, the order
  aggregate with its operations and its events, customers and products. The audit fields of the
  entities are left out: no code of the service reads or writes them.
\<close>

section \<open>Identifiers\<close>

text \<open>The four id types are UUIDs that are not nil; each constructor names its own type.\<close>

definition new_id :: "string \<Rightarrow> uuid \<Rightarrow> go_error + uuid" where
  "new_id name v =
     (if v = uuid_nil then Inl (DomainError (Fmt (name @ '' cannot be empty'') [])) else Inr v)"

definition NewOrderID :: "uuid \<Rightarrow> go_error + uuid" where
  "NewOrderID = new_id ''OrderId''"

definition NewCustomerID :: "uuid \<Rightarrow> go_error + uuid" where
  "NewCustomerID = new_id ''CustomerId''"

definition NewProductID :: "uuid \<Rightarrow> go_error + uuid" where
  "NewProductID = new_id ''ProductId''"

definition NewOrderItemID :: "uuid \<Rightarrow> go_error + uuid" where
  "NewOrderItemID = new_id ''OrderItemId''"

lemmas id_defs = NewOrderID_def NewCustomerID_def NewProductID_def NewOrderItemID_def new_id_def

lemma new_id_Inr [simp]: "new_id n v = Inr v' \<longleftrightarrow> v \<noteq> 0 \<and> v' = v"
  by (auto simp: new_id_def)

lemma new_id_Inl: "new_id n v = Inl e \<longleftrightarrow> v = 0 \<and> e = DomainError (Fmt (n @ '' cannot be empty'') [])"
  by (auto simp: new_id_def)

section \<open>Status\<close>

text \<open>The status is a Go integer; only four of its values are defined.\<close>

type_synonym order_status = int

definition OrderStatusDraft :: order_status where "OrderStatusDraft = 1"

definition OrderStatusPending :: order_status where "OrderStatusPending = 2"

definition OrderStatusCompleted :: order_status where "OrderStatusCompleted = 3"

definition OrderStatusCancelled :: order_status where "OrderStatusCancelled = 4"

lemmas status_defs =
  OrderStatusDraft_def OrderStatusPending_def OrderStatusCompleted_def OrderStatusCancelled_def

definition status_String :: "order_status \<Rightarrow> string" where
  "status_String s =
     (if s = OrderStatusDraft then ''Draft''
      else if s = OrderStatusPending then ''Pending''
      else if s = OrderStatusCompleted then ''Completed''
      else if s = OrderStatusCancelled then ''Cancelled''
      else ''Unknown'')"

definition status_IsValid :: "order_status \<Rightarrow> bool" where
  "status_IsValid s \<longleftrightarrow>
     s = OrderStatusDraft \<or> s = OrderStatusPending \<or> s = OrderStatusCompleted \<or>
     s = OrderStatusCancelled"

definition ParseOrderStatus :: "string \<Rightarrow> go_error + order_status" where
  "ParseOrderStatus name =
     (case find (\<lambda>s. status_String s = name)
             [OrderStatusDraft, OrderStatusPending, OrderStatusCompleted, OrderStatusCancelled] of
        Some s \<Rightarrow> Inr s
      | None \<Rightarrow> Inl (DomainError (Fmt ''unknown order status %q'' [ArgStr name])))"

section \<open>Addresses\<close>

record address =
  FirstName :: string
  LastName :: string
  EmailAddress :: string
  AddressLine :: string
  Country :: string
  State :: string
  ZipCode :: string

definition NewAddress ::
  "string \<Rightarrow> string \<Rightarrow> string \<Rightarrow> string \<Rightarrow> string \<Rightarrow> string \<Rightarrow> string \<Rightarrow> go_error + address" where
  "NewAddress firstName lastName emailAddress addressLine country state zipCode =
     (if is_blank emailAddress then Inl (DomainError (Fmt ''EmailAddress is required'' []))
      else if is_blank addressLine then Inl (DomainError (Fmt ''AddressLine is required'' []))
      else Inr \<lparr>FirstName = firstName, LastName = lastName, EmailAddress = emailAddress,
                AddressLine = addressLine, Country = country, State = state, ZipCode = zipCode\<rparr>)"

definition address_ok :: "address \<Rightarrow> bool" where
  "address_ok a \<longleftrightarrow> \<not> is_blank (EmailAddress a) \<and> \<not> is_blank (AddressLine a)"

lemma NewAddress_Inr:
  "NewAddress f l e a c s z = Inr ad \<longleftrightarrow>
     ad = \<lparr>FirstName = f, LastName = l, EmailAddress = e, AddressLine = a, Country = c,
           State = s, ZipCode = z\<rparr> \<and> address_ok ad"
proof -
  let ?r = "\<lparr>FirstName = f, LastName = l, EmailAddress = e, AddressLine = a, Country = c,
           State = s, ZipCode = z\<rparr>"
  have "NewAddress f l e a c s z = Inr ad \<longleftrightarrow> address_ok ?r \<and> ?r = ad"
    by (simp add: NewAddress_def address_ok_def)
  then show ?thesis by metis
qed

lemma NewAddress_Inl:
  "NewAddress f l e a c s z = Inl er \<Longrightarrow> \<exists>m. er = DomainError m"
  by (auto simp: NewAddress_def split: if_splits)

lemma NewAddress_ok [wf_intro]: "NewAddress f l e a c s z = Inr ad \<Longrightarrow> address_ok ad"
  by (auto simp: NewAddress_Inr)

section \<open>Payment\<close>

record payment =
  paymentToken :: string
  cardLast4 :: string
  paymentMethod :: int

definition payment_zero :: payment where
  "payment_zero = \<lparr>paymentToken = '''', cardLast4 = '''', paymentMethod = 0\<rparr>"

definition cardLast4Length :: nat where
  "cardLast4Length = 4"

definition isDigits :: "string \<Rightarrow> nat \<Rightarrow> bool" where
  "isDigits v n \<longleftrightarrow> length v = n \<and> list_all digit v"

definition NewPayment :: "string \<Rightarrow> string \<Rightarrow> int \<Rightarrow> go_error + payment" where
  "NewPayment token last4 meth =
     (if is_blank token then Inl (DomainError (Fmt ''PaymentToken is required'' []))
      else if \<not> isDigits last4 cardLast4Length
      then Inl (DomainError (Fmt ''CardLast4 must be the last %d digits of the card''
                               [ArgInt (int cardLast4Length)]))
      else Inr \<lparr>paymentToken = token, cardLast4 = last4, paymentMethod = meth\<rparr>)"

definition IsZero :: "payment \<Rightarrow> bool" where
  "IsZero p \<longleftrightarrow> paymentToken p = ''''"

definition payment_String :: "payment \<Rightarrow> string" where
  "payment_String p =
     (if IsZero p then ''Payment{none}''
      else ''Payment{cardLast4: '' @ cardLast4 p @ '', token: [redacted]}'')"

text \<open>A payment is absent, or has a token that is not blank and four digits.\<close>

definition payment_ok :: "payment \<Rightarrow> bool" where
  "payment_ok p \<longleftrightarrow>
     p = payment_zero \<or> (\<not> is_blank (paymentToken p) \<and> isDigits (cardLast4 p) cardLast4Length)"

lemma NewPayment_Inr:
  "NewPayment t l m = Inr p \<longleftrightarrow>
     p = \<lparr>paymentToken = t, cardLast4 = l, paymentMethod = m\<rparr> \<and> \<not> is_blank t \<and> isDigits l 4"
  by (auto simp: NewPayment_def cardLast4Length_def)

lemma NewPayment_Inl: "NewPayment t l m = Inl er \<Longrightarrow> \<exists>m. er = DomainError m"
  by (auto simp: NewPayment_def split: if_splits)

lemma NewPayment_ok [wf_intro]: "NewPayment t l m = Inr p \<Longrightarrow> payment_ok p"
  by (auto simp: NewPayment_Inr payment_ok_def cardLast4Length_def)

lemma payment_zero_ok [wf_intro, simp]: "payment_ok payment_zero"
  by (simp add: payment_ok_def)

lemma IsZero_zero [simp]: "IsZero payment_zero"
  by (simp add: IsZero_def payment_zero_def)

section \<open>The order aggregate\<close>

text \<open>
  A domain event carries a pointer to the aggregate that raised it and is kept in that aggregate,
  so an event is its kind, and the order is the one it is read from when it is mapped.
\<close>

datatype event = OrderCreated | OrderUpdated

record order_item =
  item_ID :: uuid
  item_OrderID :: uuid
  item_ProductID :: uuid
  item_Quantity :: int
  item_Price :: decimal

record order =
  events :: "event list"
  order_id :: uuid
  customerID :: uuid
  shippingAddress :: address
  billingAddress :: address
  order_payment :: payment
  order_status :: order_status
  items :: "order_item list"

definition newOrder :: "uuid \<Rightarrow> uuid \<Rightarrow> address \<Rightarrow> address \<Rightarrow> payment \<Rightarrow> order_status \<Rightarrow> order" where
  "newOrder oid customer shipping billing pay status =
     \<lparr>events = [], order_id = oid, customerID = customer, shippingAddress = shipping,
      billingAddress = billing, order_payment = pay, order_status = status, items = []\<rparr>"

definition raise_event :: "event \<Rightarrow> order \<Rightarrow> order" where
  "raise_event ev o' = o'\<lparr>events := events o' @ [ev]\<rparr>"

definition PullEvents :: "order \<Rightarrow> event list \<times> order" where
  "PullEvents o' = (events o', o'\<lparr>events := []\<rparr>)"

definition NewUnpaidOrder :: "uuid \<Rightarrow> uuid \<Rightarrow> address \<Rightarrow> address \<Rightarrow> order" where
  "NewUnpaidOrder oid customer shipping billing =
     raise_event OrderCreated
       (newOrder oid customer shipping billing payment_zero OrderStatusDraft)"

definition NewOrder :: "uuid \<Rightarrow> uuid \<Rightarrow> address \<Rightarrow> address \<Rightarrow> payment \<Rightarrow> order" where
  "NewOrder oid customer shipping billing pay =
     raise_event OrderCreated (newOrder oid customer shipping billing pay OrderStatusPending)"

text \<open>The loop of \<open>TotalPrice\<close>, over the lines.\<close>

fun lines_total :: "decimal \<Rightarrow> order_item list \<Rightarrow> decimal" where
  "lines_total acc [] = acc"
| "lines_total acc (l # ls) = lines_total (acc + item_Price l * of_int (item_Quantity l)) ls"

definition TotalPrice :: "order \<Rightarrow> decimal" where
  "TotalPrice o' = lines_total 0 (items o')"

definition Update ::
  "address \<Rightarrow> address \<Rightarrow> payment \<Rightarrow> order_status \<Rightarrow> order \<Rightarrow> go_error + order" where
  "Update shipping billing pay status o' =
     (if \<not> status_IsValid status
      then Inl (DomainError (Fmt ''unknown order status %d'' [ArgInt status]))
      else Inr (raise_event OrderUpdated
             (o'\<lparr>shippingAddress := shipping, billingAddress := billing, order_payment := pay,
                 order_status := status\<rparr>)))"

text \<open>\<open>Add\<close> is given the line id that \<open>uuid.New()\<close> returned.\<close>

definition Add :: "uuid \<Rightarrow> uuid \<Rightarrow> int \<Rightarrow> decimal \<Rightarrow> order \<Rightarrow> go_error + order" where
  "Add line_id product quantity price o' =
     (if quantity \<le> 0 then Inl (DomainError (Fmt ''Quantity must be greater than zero'' []))
      else if price \<le> 0 then Inl (DomainError (Fmt ''Price must be greater than zero'' []))
      else Inr (o'\<lparr>items := items o' @
             [\<lparr>item_ID = line_id, item_OrderID = order_id o', item_ProductID = product,
               item_Quantity = quantity, item_Price = price\<rparr>]\<rparr>))"

text \<open>\<open>Remove\<close> filters the slice in place.\<close>

definition Remove :: "uuid \<Rightarrow> order \<Rightarrow> order" where
  "Remove product o' = o'\<lparr>items := filter (\<lambda>i. item_ProductID i \<noteq> product) (items o')\<rparr>"

definition Restore ::
  "uuid \<Rightarrow> uuid \<Rightarrow> address \<Rightarrow> address \<Rightarrow> payment \<Rightarrow> order_status \<Rightarrow> order_item list \<Rightarrow> order" where
  "Restore oid customer shipping billing pay status lines =
     (newOrder oid customer shipping billing pay status)\<lparr>items := lines\<rparr>"

text \<open>
  \<open>String\<close> of an order, as its format and arguments: the id, the status, the number of lines,
  the total and the payment's own string.
\<close>

definition order_String :: "order \<Rightarrow> msg" where
  "order_String o' =
     Fmt ''Order{id: %s, status: %s, lines: %d, total: %s, payment: %v}''
       [ArgUuid (order_id o'), ArgStr (status_String (order_status o')),
        ArgInt (int (length (items o'))), ArgDec (TotalPrice o'),
        ArgStr (payment_String (order_payment o'))]"

section \<open>Customers and products\<close>

record customer =
  customer_ID :: uuid
  customer_Name :: string
  customer_Email :: string

definition NewCustomer :: "uuid \<Rightarrow> string \<Rightarrow> string \<Rightarrow> go_error + customer" where
  "NewCustomer cid name email =
     (if is_blank name then Inl (DomainError (Fmt ''Name is required'' []))
      else if is_blank email then Inl (DomainError (Fmt ''Email is required'' []))
      else Inr \<lparr>customer_ID = cid, customer_Name = name, customer_Email = email\<rparr>)"

record product =
  product_ID :: uuid
  product_Name :: string
  product_Price :: decimal

definition NewProduct :: "uuid \<Rightarrow> string \<Rightarrow> decimal \<Rightarrow> go_error + product" where
  "NewProduct pid name price =
     (if is_blank name then Inl (DomainError (Fmt ''Name is required'' []))
      else if price \<le> 0 then Inl (DomainError (Fmt ''Price must be greater than zero'' []))
      else Inr \<lparr>product_ID = pid, product_Name = name, product_Price = price\<rparr>)"

lemma NewCustomer_Inr:
  "NewCustomer c n e = Inr cu \<longleftrightarrow>
     cu = \<lparr>customer_ID = c, customer_Name = n, customer_Email = e\<rparr> \<and> \<not> is_blank n \<and> \<not> is_blank e"
  by (auto simp: NewCustomer_def)

lemma NewProduct_Inr:
  "NewProduct p n pr = Inr q \<longleftrightarrow>
     q = \<lparr>product_ID = p, product_Name = n, product_Price = pr\<rparr> \<and> \<not> is_blank n \<and> 0 < pr"
  by (auto simp: NewProduct_def)

section \<open>Totals\<close>

definition line_amount :: "order_item \<Rightarrow> decimal" where
  "line_amount i = item_Price i * of_int (item_Quantity i)"

lemma lines_total_eq: "lines_total t ls = t + sum_list (map line_amount ls)"
  by (induction ls arbitrary: t) (auto simp: line_amount_def)

lemma TotalPrice_eq: "TotalPrice o' = sum_list (map line_amount (items o'))"
  by (simp add: TotalPrice_def lines_total_eq)

section \<open>The invariant of the aggregate\<close>

definition item_ok :: "uuid \<Rightarrow> order_item \<Rightarrow> bool" where
  "item_ok oid i \<longleftrightarrow> item_OrderID i = oid \<and> 0 < item_Quantity i \<and> 0 < item_Price i"

definition order_ok :: "order \<Rightarrow> bool" where
  "order_ok o' \<longleftrightarrow>
     address_ok (shippingAddress o') \<and> address_ok (billingAddress o') \<and>
     payment_ok (order_payment o') \<and> status_IsValid (order_status o') \<and>
     list_all (item_ok (order_id o')) (items o')"

lemma NewOrder_ok [wf_intro]:
  "address_ok s \<Longrightarrow> address_ok b \<Longrightarrow> payment_ok p \<Longrightarrow> order_ok (NewOrder i c s b p)"
  by (simp add: order_ok_def NewOrder_def raise_event_def newOrder_def status_IsValid_def)

lemma NewUnpaidOrder_ok [wf_intro]:
  "address_ok s \<Longrightarrow> address_ok b \<Longrightarrow> order_ok (NewUnpaidOrder i c s b)"
  by (simp add: order_ok_def NewUnpaidOrder_def raise_event_def newOrder_def status_IsValid_def)

lemma Add_ok [wf_intro]: "Add l p q pr o' = Inr o2 \<Longrightarrow> order_ok o' \<Longrightarrow> order_ok o2"
  by (auto simp: Add_def order_ok_def item_ok_def split: if_splits)

lemma Remove_ok [wf_intro]: "order_ok o' \<Longrightarrow> order_ok (Remove p o')"
  by (auto simp: Remove_def order_ok_def list_all_iff)

lemma Update_ok [wf_intro]:
  "Update s b p st o' = Inr o2 \<Longrightarrow> order_ok o' \<Longrightarrow> address_ok s \<Longrightarrow> address_ok b \<Longrightarrow> payment_ok p \<Longrightarrow>
     order_ok o2"
  by (auto simp: Update_def order_ok_def raise_event_def split: if_splits)

lemma PullEvents_ok [wf_intro]: "order_ok o' \<Longrightarrow> order_ok (snd (PullEvents o'))"
  by (simp add: PullEvents_def order_ok_def)

lemma Add_Inr:
  "Add l p q pr o' = Inr o2 \<longleftrightarrow>
     0 < q \<and> 0 < pr \<and> o2 = o'\<lparr>items := items o' @
        [\<lparr>item_ID = l, item_OrderID = order_id o', item_ProductID = p, item_Quantity = q,
          item_Price = pr\<rparr>]\<rparr>"
  by (auto simp: Add_def)

lemma Add_Inl: "Add l p q pr o' = Inl er \<Longrightarrow> \<exists>m. er = DomainError m"
  by (auto simp: Add_def split: if_splits)

lemma line_amount_pos: "item_ok oid i \<Longrightarrow> 0 < line_amount i"
  by (simp add: item_ok_def line_amount_def)

lemma total_pos:
  "list_all (item_ok oid) ls \<Longrightarrow> ls \<noteq> [] \<Longrightarrow> 0 < sum_list (map line_amount ls)"
proof (induction ls)
  case Nil
  then show ?case by simp
next
  case (Cons i ls)
  then show ?case
    using line_amount_pos [of oid i] by (cases "ls = []") (auto intro: add_pos_pos)
qed

section \<open>Calls on one order\<close>

text \<open>A caller reaches an order only through its operations; a refused one leaves it as it was.\<close>

datatype order_call =
    CallAdd uuid uuid int decimal
  | CallRemove uuid
  | CallUpdate address address payment order_status
  | CallPullEvents

fun order_step :: "order \<Rightarrow> order_call \<Rightarrow> order" where
  "order_step o' (CallAdd l p q pr) = (case Add l p q pr o' of Inr o2 \<Rightarrow> o2 | Inl _ \<Rightarrow> o')"
| "order_step o' (CallRemove p) = Remove p o'"
| "order_step o' (CallUpdate s b pay st) =
     (case Update s b pay st o' of Inr o2 \<Rightarrow> o2 | Inl _ \<Rightarrow> o')"
| "order_step o' CallPullEvents = snd (PullEvents o')"

text \<open>The values a caller can pass are the ones the constructors of the value objects return.\<close>

fun call_ok_args :: "order_call \<Rightarrow> bool" where
  "call_ok_args (CallUpdate s b pay st) \<longleftrightarrow> address_ok s \<and> address_ok b \<and> payment_ok pay"
| "call_ok_args c \<longleftrightarrow> True"

lemma order_step_ok: "order_ok o' \<Longrightarrow> call_ok_args c \<Longrightarrow> order_ok (order_step o' c)"
  by (cases c) (auto split: sum.splits intro: wf_intro)

lemma order_step_id: "order_id (order_step o' c) = order_id o' \<and> customerID (order_step o' c) = customerID o'"
  by (cases c) (auto split: sum.splits if_splits
      simp: Add_def Update_def Remove_def PullEvents_def raise_event_def)

lemma order_steps_ok:
  "order_ok o' \<Longrightarrow> list_all call_ok_args cs \<Longrightarrow> order_ok (foldl order_step o' cs)"
  by (induction cs arbitrary: o') (auto simp: order_step_ok)

lemma order_steps_id:
  "order_id (foldl order_step o' cs) = order_id o' \<and> customerID (foldl order_step o' cs) = customerID o'"
  by (induction cs arbitrary: o') (auto simp: order_step_id)

lemma TotalPrice_Add: "Add l p q pr o' = Inr o2 \<Longrightarrow> TotalPrice o2 = TotalPrice o' + pr * of_int q"
  by (auto simp: Add_Inr TotalPrice_eq line_amount_def)

lemma sum_list_filter_split:
  fixes f :: "'a \<Rightarrow> decimal"
  shows "sum_list (map f xs) =
    sum_list (map f (filter P xs)) + sum_list (map f (filter (\<lambda>x. \<not> P x) xs))"
  by (induction xs) auto

lemma TotalPrice_Remove:
  "TotalPrice (Remove p o') =
     TotalPrice o' - sum_list (map line_amount (filter (\<lambda>i. item_ProductID i = p) (items o')))"
  using sum_list_filter_split [of line_amount "items o'" "\<lambda>i. item_ProductID i = p"]
  by (simp add: TotalPrice_eq Remove_def)

lemma TotalPrice_Update: "Update s b pay st o' = Inr o2 \<Longrightarrow> TotalPrice o2 = TotalPrice o'"
  by (auto simp: Update_def raise_event_def TotalPrice_eq split: if_splits)

section \<open>Sample values\<close>

definition sample_address :: address where
  "sample_address =
     \<lparr>FirstName = ''A'', LastName = ''B'', EmailAddress = ''a@b.c'', AddressLine = ''x'', Country = '''',
      State = '''', ZipCode = ''''\<rparr>"

definition sample_payment :: payment where
  "sample_payment = \<lparr>paymentToken = ''pt_1'', cardLast4 = ''4444'', paymentMethod = 1\<rparr>"

lemma sample_address: "NewAddress ''A'' ''B'' ''a@b.c'' ''x'' '''' '''' '''' = Inr sample_address"
  by (simp add: NewAddress_def sample_address_def not_blank_visible byte_in_def)

lemma sample_payment: "NewPayment ''pt_1'' ''4444'' 1 = Inr sample_payment"
  by (simp add: NewPayment_def sample_payment_def isDigits_def cardLast4Length_def digit_def
      not_blank_visible byte_in_def)

section \<open>Properties\<close>

text \<open>
  C11. An order made by its constructor stays well formed whatever sequence of operations its
  callers run, refused ones included: addresses and payment valid, a defined status, every line with
  a positive quantity and price and the order's own id; its id and customer never change, and it
  has a positive total as soon as it has a line.
\<close>

theorem order_invariant:
  assumes "NewAddress f1 l1 e1 a1 c1 s1 z1 = Inr shipping"
    and "NewAddress f2 l2 e2 a2 c2 s2 z2 = Inr billing"
    and "NewPayment token last4 meth = Inr pay"
    and "list_all call_ok_args calls"
    and "o' = foldl order_step (NewOrder oid cid shipping billing pay) calls"
  shows "order_ok o' \<and> order_id o' = oid \<and> customerID o' = cid \<and>
    (items o' = [] \<or> 0 < TotalPrice o')"
proof -
  have "order_ok (NewOrder oid cid shipping billing pay)"
    using assms(1-3) by (auto intro: wf_intro)
  then have ok: "order_ok o'"
    unfolding assms(5) by (rule order_steps_ok [OF _ assms(4)])
  then have "items o' = [] \<or> 0 < TotalPrice o'"
    by (auto simp: order_ok_def TotalPrice_eq intro: total_pos)
  moreover have "order_id o' = oid" "customerID o' = cid"
    unfolding assms(5) by (simp_all add: order_steps_id NewOrder_def raise_event_def newOrder_def)
  ultimately show ?thesis using ok by simp
qed

theorem order_invariant_witness:
  "order_ok (foldl order_step (NewOrder 1 2 sample_address sample_address sample_payment)
     [CallAdd 5 6 0 3, CallAdd 7 8 2 3, CallUpdate sample_address sample_address payment_zero 9])"
  by (rule order_invariant [OF sample_address sample_address sample_payment _ refl, THEN conjunct1])
    (simp add: NewAddress_ok [OF sample_address])

text \<open>
  The total is kept exactly: adding a line raises it by price times quantity, removing a product
  lowers it by that product's lines and leaves none of them, updating leaves it alone; a refused
  call changes nothing.
\<close>

theorem order_total_exact:
  "TotalPrice (order_step o' c) =
     (case c of
        CallAdd l p q pr \<Rightarrow> if 0 < q \<and> 0 < pr then TotalPrice o' + pr * of_int q else TotalPrice o'
      | CallRemove p \<Rightarrow> TotalPrice o' -
          sum_list (map line_amount (filter (\<lambda>i. item_ProductID i = p) (items o')))
      | CallUpdate s b pay st \<Rightarrow> TotalPrice o'
      | CallPullEvents \<Rightarrow> TotalPrice o') \<and>
   (case c of
      CallRemove p \<Rightarrow> list_all (\<lambda>i. item_ProductID i \<noteq> p) (items (order_step o' c))
    | CallUpdate s b pay st \<Rightarrow> status_IsValid st \<or> order_step o' c = o'
    | _ \<Rightarrow> True)"
proof (cases c)
  case (CallAdd l p q pr)
  then show ?thesis
    using TotalPrice_Add [of l p q pr o'] by (auto simp: Add_def split: sum.splits)
next
  case (CallRemove p)
  then show ?thesis
    by (simp add: TotalPrice_Remove) (simp add: Remove_def list_all_iff)
next
  case (CallUpdate s b pay st)
  then show ?thesis
    using TotalPrice_Update [of s b pay st o'] by (auto simp: Update_def split: sum.splits)
next
  case CallPullEvents
  then show ?thesis by (simp add: PullEvents_def TotalPrice_eq)
qed

text \<open>
  The text of a status determines it: exactly the four defined statuses parse, each from its own
  name, and no other text does.
\<close>

theorem status_roundtrip:
  "ParseOrderStatus name = Inr st \<longleftrightarrow> status_IsValid st \<and> name = status_String st"
  by (auto simp: ParseOrderStatus_def status_String_def status_IsValid_def status_defs)

end
