(* ===== verification/Pagination.thy ===== *)
theory Pagination
  imports Go_Errors
begin

text \<open>
  Paging, \<open>internal/platform/pagination/pagination.go\<close>. Go's \<open>int\<close> has 64 bits and its arithmetic
  wraps, so page numbers are 64-bit words read as signed.
\<close>

type_synonym go_int = "64 word"

definition DefaultPageSize :: go_int where "DefaultPageSize = 10"

definition MaxPageSize :: go_int where "MaxPageSize = 100"

record page_request =
  PageIndex :: go_int
  PageSize :: go_int

definition Normalized :: "page_request \<Rightarrow> page_request" where
  "Normalized r =
     (let r1 = (if PageIndex r <s 0 then r\<lparr>PageIndex := 0\<rparr> else r) in
      if PageSize r1 \<le>s 0 then r1\<lparr>PageSize := DefaultPageSize\<rparr>
      else if MaxPageSize <s PageSize r1 then r1\<lparr>PageSize := MaxPageSize\<rparr>
      else r1)"

definition Offset :: "page_request \<Rightarrow> go_int" where
  "Offset r = (let n = Normalized r in PageIndex n * PageSize n)"

definition Limit :: "page_request \<Rightarrow> go_int" where
  "Limit r = PageSize (Normalized r)"

record 'a page =
  page_PageIndex :: go_int
  page_PageSize :: go_int
  page_Count :: int
  page_Data :: "'a list"

definition NewResult :: "page_request \<Rightarrow> int \<Rightarrow> 'a list \<Rightarrow> 'a page" where
  "NewResult request n data =
     (let normalized = Normalized request in
      \<lparr>page_PageIndex = PageIndex normalized, page_PageSize = PageSize normalized,
       page_Count = n, page_Data = data\<rparr>)"

text \<open>The rows \<open>OFFSET o ROWS FETCH NEXT n ROWS ONLY\<close> selects, when \<open>o\<close> is not negative.\<close>

definition page_rows :: "int \<Rightarrow> int \<Rightarrow> 'a list \<Rightarrow> 'a list" where
  "page_rows offset limit rows = take (nat limit) (drop (nat offset) rows)"

lemma Limit_bounds: "1 \<le> sint (Limit r)" "sint (Limit r) \<le> 100"
  by (auto simp: Limit_def Normalized_def DefaultPageSize_def MaxPageSize_def Let_def word_sle_eq
      word_sless_alt)

lemma PageIndex_Normalized: "sint (PageIndex (Normalized r)) = max 0 (sint (PageIndex r))"
  by (auto simp: Normalized_def DefaultPageSize_def MaxPageSize_def Let_def word_sless_alt)

lemma Offset_exact:
  assumes "sint (PageIndex r) \<le> 2 ^ 56"
  shows "sint (Offset r) = max 0 (sint (PageIndex r)) * sint (Limit r)"
proof -
  let ?i = "sint (PageIndex (Normalized r))" and ?n = "sint (Limit r)"
  have i: "0 \<le> ?i" "?i \<le> 2 ^ 56" using assms by (auto simp: PageIndex_Normalized)
  have n: "0 \<le> ?n" "?n \<le> 100" using Limit_bounds [of r] by auto
  have p: "0 \<le> ?i * ?n" "?i * ?n \<le> 2 ^ 56 * 100"
    using mult_mono [OF i(2) n(2)] i n by auto
  have "sint (Offset r) = signed_take_bit 63 (?i * ?n)"
    by (simp add: Offset_def Limit_def Let_def sint_word_ariths)
  also have "\<dots> = ?i * ?n"
    using p by (intro signed_take_bit_int_eq_self) auto
  finally show ?thesis by (simp add: PageIndex_Normalized)
qed

text \<open>The rows of a page by its number, and the pages of a list put together.\<close>

lemma page_at:
  assumes "j < 2 ^ 56"
  shows "0 \<le> sint (Offset \<lparr>PageIndex = word_of_int (int j), PageSize = n\<rparr>)"
    "page_rows (sint (Offset \<lparr>PageIndex = word_of_int (int j), PageSize = n\<rparr>))
       (sint (Limit \<lparr>PageIndex = word_of_int (int j), PageSize = n\<rparr>)) rows
     = (let l = nat (sint (Limit \<lparr>PageIndex = i, PageSize = n\<rparr>)) in take l (drop (j * l) rows))"
proof -
  let ?r = "\<lparr>PageIndex = word_of_int (int j), PageSize = n\<rparr>"
  have l: "Limit ?r = Limit \<lparr>PageIndex = i, PageSize = n\<rparr>"
    by (simp add: Limit_def Normalized_def Let_def)
  have "int j < int (2 ^ 56)" using assms by (simp only: of_nat_less_iff)
  then have "int j < 2 ^ 56" by simp
  then have j: "sint (word_of_int (int j) :: go_int) = int j"
    unfolding sint_sbintrunc' by (intro signed_take_bit_int_eq_self) auto
  have o: "sint (Offset ?r) = int j * sint (Limit ?r)"
    using Offset_exact [of ?r] \<open>int j < 2 ^ 56\<close> j by simp
  then show "0 \<le> sint (Offset ?r)" using Limit_bounds [of ?r] by simp
  show "page_rows (sint (Offset ?r)) (sint (Limit ?r)) rows
     = (let l = nat (sint (Limit \<lparr>PageIndex = i, PageSize = n\<rparr>)) in take l (drop (j * l) rows))"
    using o l Limit_bounds [of ?r] by (simp add: page_rows_def nat_mult_distrib Let_def)
qed


lemma pages_cover:
  "concat (map (\<lambda>i. take n (drop (i * n) xs)) [0..<k]) = take (k * n) xs"
proof (induction k)
  case 0
  then show ?case by simp
next
  case (Suc k)
  have "take (k * n + n) xs = take (k * n) xs @ take n (drop (k * n) xs)"
    by (simp add: take_add)
  with Suc show ?case by (simp add: add.commute)
qed

section \<open>Properties\<close>

text \<open>
  Whatever page is asked for, at most 100 rows and at least one are requested, and for page
  numbers up to 2^56 the offset is the exact product and never negative: consecutive pages neither
  overlap nor leave a gap.
\<close>

theorem pages_partition:
  assumes "k \<le> 2 ^ 56"
  shows "1 \<le> sint (Limit \<lparr>PageIndex = i, PageSize = n\<rparr>) \<and> sint (Limit \<lparr>PageIndex = i, PageSize = n\<rparr>) \<le> 100 \<and>
    concat (map (\<lambda>j. let r = \<lparr>PageIndex = word_of_int (int j), PageSize = n\<rparr> in
                     page_rows (sint (Offset r)) (sint (Limit r)) rows) [0..<k])
    = take (k * nat (sint (Limit \<lparr>PageIndex = i, PageSize = n\<rparr>))) rows"
proof -
  let ?r = "\<lambda>j. \<lparr>PageIndex = word_of_int (int j), PageSize = n\<rparr>"
  let ?l = "sint (Limit \<lparr>PageIndex = i, PageSize = n\<rparr>)"
  have one: "page_rows (sint (Offset (?r j))) (sint (Limit (?r j))) rows
      = take (nat ?l) (drop (j * nat ?l) rows)" if "j < k" for j
    using page_at(2) [where n = n and i = i and rows = rows, of j] that assms by (simp add: Let_def)
  have "map (\<lambda>j. page_rows (sint (Offset (?r j))) (sint (Limit (?r j))) rows) [0..<k]
      = map (\<lambda>j. take (nat ?l) (drop (j * nat ?l) rows)) [0..<k]"
    by (rule map_cong [OF refl], rule one) simp
  then have "concat (map (\<lambda>j. page_rows (sint (Offset (?r j))) (sint (Limit (?r j))) rows) [0..<k])
      = take (k * nat ?l) rows"
    using Limit_bounds [of "\<lparr>PageIndex = i, PageSize = n\<rparr>"] by (simp only: pages_cover)
  then show ?thesis
    using Limit_bounds [of "\<lparr>PageIndex = i, PageSize = n\<rparr>"] unfolding Let_def by blast
qed

theorem pages_partition_witness:
  "concat (map (\<lambda>j. let r = \<lparr>PageIndex = word_of_int (int j), PageSize = 2\<rparr> in
                     page_rows (sint (Offset r)) (sint (Limit r)) ''abcde'') [0..<3])
    = take (3 * nat (sint (Limit \<lparr>PageIndex = 0, PageSize = 2\<rparr>))) ''abcde''"
  by (rule pages_partition [of 3, THEN conjunct2, THEN conjunct2]) simp

text \<open>
  For larger page numbers the clamping does not help: the product wraps around, so a request
  with a page number that was accepted asks the database to skip a negative number of rows.
\<close>

theorem offset_wraps:
  "\<exists>r. 0 \<le> sint (PageIndex r) \<and> Normalized r = r \<and> sint (Offset r) < 0"
  by (rule exI [of _ "\<lparr>PageIndex = 2 ^ 62, PageSize = 10\<rparr>"])
    (simp add: Offset_def Normalized_def MaxPageSize_def DefaultPageSize_def Let_def word_sless_alt
      word_sle_eq)

end
