(* ===== verification/Ordering_Store.thy ===== *)
theory Ordering_Store
  imports Order_Domain Messaging Pagination "HOL-Library.Product_Lexorder"
begin

text \<open>
  Ordering's tables on SQL Server and the code that reads and writes them:
  \<open>internal/ordering/mssql\<close> (\<open>repository.go\<close>, \<open>scan.go\<close>, \<open>outbox.go\<close>, \<open>inbox.go\<close>, \<open>guid.go\<close>) and the
  columns of \<open>migrations/*.sql\<close>. One SQL statement is one call, so it can fail with or without
  effect; \<open>inTx\<close> is a transaction. What the server itself decides is the parameter \<open>sqlserver\<close>.
\<close>

section \<open>The server\<close>

text \<open>
  How a value is stored in a column: \<open>column_text n\<close> for \<open>NVARCHAR(n)\<close>, \<open>None\<close> when the value does
  not fit; \<open>column_money\<close> for \<open>DECIMAL(18, 2)\<close>; \<open>column_time\<close> for \<open>DATETIME2\<close>; \<open>guid_rank\<close> is the
  place of an id in the order of \<open>UNIQUEIDENTIFIER\<close>.
\<close>

record sqlserver =
  column_text :: "nat \<Rightarrow> string \<Rightarrow> string option"
  column_money :: "decimal \<Rightarrow> decimal option"
  column_time :: "time \<Rightarrow> time"
  guid_rank :: "uuid \<Rightarrow> nat"

text \<open>The length of a text in UTF-16 units, which is what the size of a column counts.\<close>

fun utf16_units :: "string \<Rightarrow> nat" where
  "utf16_units [] = 0"
| "utf16_units (c # cs) =
     (if byte_in 0x80 0xBF c then 0 else if byte_in 0xF0 0xFF c then 2 else 1) + utf16_units cs"

definition is_cents :: "decimal \<Rightarrow> bool" where
  "is_cents d \<longleftrightarrow> d * 100 \<in> \<int>"

text \<open>
  What the documentation of SQL Server promises: a text that fits is stored as it is, one that is
  too long and does not end in a blank is refused; an amount of at most 16 digits and two decimals
  is stored as it is.
\<close>

definition sqlserver_ok :: "sqlserver \<Rightarrow> bool" where
  "sqlserver_ok S \<longleftrightarrow>
     (\<forall>n s. utf16_units s \<le> n \<longrightarrow> column_text S n s = Some s) \<and>
     (\<forall>n s. n < utf16_units s \<and> last s \<noteq> CHR '' '' \<longrightarrow> column_text S n s = None) \<and>
     (\<forall>d. is_cents d \<and> \<bar>d\<bar> < 10 ^ 16 \<longrightarrow> column_money S d = Some d) \<and>
     inj (guid_rank S)"

text \<open>\<open>INT\<close> has 32 bits; a value outside is refused.\<close>

definition column_int :: "int \<Rightarrow> int option" where
  "column_int i = (if -(2 ^ 31) \<le> i \<and> i < 2 ^ 31 then Some i else None)"

text \<open>The error numbers the code tests for, and the ones the columns raise.\<close>

definition foreignKeyViolation :: int where "foreignKeyViolation = 547"

definition uniqueIndexViolation :: int where "uniqueIndexViolation = 2601"

definition primaryKeyViolation :: int where "primaryKeyViolation = 2627"

definition truncated :: go_error where "truncated = SqlError 2628"

definition overflow :: go_error where "overflow = SqlError 8115"

definition negative_offset :: go_error where "negative_offset = SqlError 10742"

section \<open>Rows and tables\<close>

record customer_row =
  cr_Name :: string
  cr_Email :: string

record product_row =
  pr_Name :: string
  pr_Price :: decimal

text \<open>An address as its seven columns; the e-mail column is nullable.\<close>

record address_row =
  ar_FirstName :: string
  ar_LastName :: string
  ar_EmailAddress :: "string option"
  ar_AddressLine :: string
  ar_Country :: string
  ar_State :: string
  ar_ZipCode :: string

record order_row =
  or_Id :: uuid
  or_CustomerId :: uuid
  or_Status :: string
  or_Shipping :: address_row
  or_Billing :: address_row
  or_PaymentToken :: "string option"
  or_CardLast4 :: "string option"
  or_PaymentMethod :: "int option"
  or_CreatedAt :: time

record item_row =
  ir_Id :: uuid
  ir_OrderId :: uuid
  ir_ProductId :: uuid
  ir_Quantity :: int
  ir_Price :: decimal

record outbox_row =
  ob_Id :: uuid
  ob_EventType :: string
  ob_SchemaVersion :: int
  ob_AggregateId :: string
  ob_CorrelationId :: "string option"
  ob_OccurredOnUtc :: time
  ob_Payload :: payload

record ordering_db =
  Customers :: "uuid \<rightharpoonup> customer_row"
  Products :: "uuid \<rightharpoonup> product_row"
  Orders :: "order_row list"
  OrderItems :: "item_row list"
  OutboxMessages :: "outbox_row list"
  InboxMessages :: "uuid \<times> string \<rightharpoonup> time option"

definition ordering_db_empty :: ordering_db where
  "ordering_db_empty =
     \<lparr>Customers = Map.empty, Products = Map.empty, Orders = [], OrderItems = [],
      OutboxMessages = [], InboxMessages = Map.empty\<rparr>"

type_synonym 'a db_act = "(ordering_db, 'a) act"

section \<open>Errors of the server\<close>

fun sql_number :: "go_error list \<Rightarrow> int option" where
  "sql_number [] = None"
| "sql_number (SqlError n # es) = Some n"
| "sql_number (e # es) = sql_number es"

definition isForeignKeyViolation :: "go_error \<Rightarrow> bool" where
  "isForeignKeyViolation e \<longleftrightarrow> sql_number (error_chain e) = Some foreignKeyViolation"

definition isDuplicateKey :: "go_error \<Rightarrow> bool" where
  "isDuplicateKey e \<longleftrightarrow>
     (case sql_number (error_chain e) of
        Some n \<Rightarrow> n = uniqueIndexViolation \<or> n = primaryKeyViolation
      | None \<Rightarrow> False)"

section \<open>Writing\<close>

definition nullable :: "string \<Rightarrow> string option" where
  "nullable s = (if s = '''' then None else Some s)"

definition nullable_text :: "sqlserver \<Rightarrow> nat \<Rightarrow> string option \<Rightarrow> string option option" where
  "nullable_text S n v =
     (case v of None \<Rightarrow> Some None | Some s \<Rightarrow> map_option Some (column_text S n s))"

definition address_columns :: "sqlserver \<Rightarrow> address \<Rightarrow> address_row option" where
  "address_columns S a =
     Option.bind (column_text S 50 (FirstName a)) (\<lambda>f.
     Option.bind (column_text S 50 (LastName a)) (\<lambda>l.
     Option.bind (nullable_text S 50 (nullable (EmailAddress a))) (\<lambda>e.
     Option.bind (column_text S 180 (AddressLine a)) (\<lambda>al.
     Option.bind (column_text S 50 (Country a)) (\<lambda>c.
     Option.bind (column_text S 50 (State a)) (\<lambda>s.
     Option.bind (column_text S 5 (ZipCode a)) (\<lambda>z.
     Some \<lparr>ar_FirstName = f, ar_LastName = l, ar_EmailAddress = e, ar_AddressLine = al,
           ar_Country = c, ar_State = s, ar_ZipCode = z\<rparr>)))))))"

definition payment_columns :: "sqlserver \<Rightarrow> payment \<Rightarrow> (string option \<times> string option \<times> int option) option" where
  "payment_columns S p =
     (if IsZero p then Some (None, None, None)
      else case (column_text S 64 (paymentToken p), column_text S 4 (cardLast4 p),
                 column_int (paymentMethod p)) of
             (Some t, Some l, Some m) \<Rightarrow> Some (Some t, Some l, Some m)
           | _ \<Rightarrow> None)"

text \<open>The row that the \<open>MERGE\<close> of \<open>upsertOrder\<close> writes; \<open>None\<close> when a value does not fit its column.\<close>

definition order_columns :: "sqlserver \<Rightarrow> order \<Rightarrow> time \<Rightarrow> order_row option" where
  "order_columns S o' created =
     Option.bind (column_text S 20 (status_String (order_status o'))) (\<lambda>st.
     Option.bind (address_columns S (shippingAddress o')) (\<lambda>sh.
     Option.bind (address_columns S (billingAddress o')) (\<lambda>bi.
     Option.bind (payment_columns S (order_payment o')) (\<lambda>(tok, l4, mt).
     Some \<lparr>or_Id = order_id o', or_CustomerId = customerID o', or_Status = st,
           or_Shipping = sh, or_Billing = bi, or_PaymentToken = tok, or_CardLast4 = l4,
           or_PaymentMethod = mt, or_CreatedAt = created\<rparr>))))"

definition find_order :: "uuid \<Rightarrow> order_row list \<Rightarrow> order_row option" where
  "find_order oid rows = find (\<lambda>r. or_Id r = oid) rows"

text \<open>A matched row is updated in place and keeps the time it was created.\<close>

definition merge_order :: "order_row \<Rightarrow> order_row list \<Rightarrow> order_row list" where
  "merge_order r rows =
     (case find_order (or_Id r) rows of
        None \<Rightarrow> rows @ [r]
      | Some _ \<Rightarrow> map (\<lambda>r'. if or_Id r' = or_Id r then r\<lparr>or_CreatedAt := or_CreatedAt r'\<rparr> else r') rows)"

definition upsert_stmt ::
  "sqlserver \<Rightarrow> order \<Rightarrow> time \<Rightarrow> ordering_db \<Rightarrow> (go_error + unit) \<times> ordering_db" where
  "upsert_stmt S o' t db =
     (case order_columns S o' (column_time S t) of
        None \<Rightarrow> (Inl truncated, db)
      | Some r \<Rightarrow>
          if Customers db (customerID o') = None then (Inl (SqlError foreignKeyViolation), db)
          else (Inr (), db\<lparr>Orders := merge_order r (Orders db)\<rparr>))"

definition upsertOrder :: "sqlserver \<Rightarrow> order \<Rightarrow> unit db_act" where
  "upsertOrder S o' =
     on_err (\<lambda>e. if isForeignKeyViolation e
                 then BadRequest (Fmt ''customer %s does not exist'' [ArgUuid (customerID o')])
                 else Wrapped (Fmt ''saving order %s'' [ArgUuid (order_id o')]) e)
       (call (upsert_stmt S o'))"

definition item_columns :: "sqlserver \<Rightarrow> uuid \<Rightarrow> order_item \<Rightarrow> item_row option" where
  "item_columns S oid i =
     (case (column_int (item_Quantity i), column_money S (item_Price i)) of
        (Some q, Some p) \<Rightarrow>
          Some \<lparr>ir_Id = item_ID i, ir_OrderId = oid, ir_ProductId = item_ProductID i,
                ir_Quantity = q, ir_Price = p\<rparr>
      | _ \<Rightarrow> None)"

definition insert_item_stmt ::
  "sqlserver \<Rightarrow> uuid \<Rightarrow> order_item \<Rightarrow> time \<Rightarrow> ordering_db \<Rightarrow> (go_error + unit) \<times> ordering_db" where
  "insert_item_stmt S oid i t db =
     (case item_columns S oid i of
        None \<Rightarrow> (Inl overflow, db)
      | Some r \<Rightarrow>
          if ir_Id r \<in> ir_Id ` set (OrderItems db) then (Inl (SqlError primaryKeyViolation), db)
          else if find_order oid (Orders db) = None \<or> Products db (ir_ProductId r) = None
          then (Inl (SqlError foreignKeyViolation), db)
          else (Inr (), db\<lparr>OrderItems := OrderItems db @ [r]\<rparr>))"

definition insertOrderItem :: "sqlserver \<Rightarrow> uuid \<Rightarrow> order_item \<Rightarrow> unit db_act" where
  "insertOrderItem S oid i =
     on_err (\<lambda>e. if isForeignKeyViolation e
                 then BadRequest (Fmt ''product %s does not exist'' [ArgUuid (item_ProductID i)])
                 else Wrapped (Fmt ''saving line of order %s'' [ArgUuid oid]) e)
       (call (insert_item_stmt S oid i))"

definition clear_items :: "uuid \<Rightarrow> ordering_db \<Rightarrow> ordering_db" where
  "clear_items oid db = db\<lparr>OrderItems := filter (\<lambda>r. ir_OrderId r \<noteq> oid) (OrderItems db)\<rparr>"

subsection \<open>Outbox rows\<close>

definition outbox_columns :: "sqlserver \<Rightarrow> envelope \<Rightarrow> outbox_row option" where
  "outbox_columns S e =
     (case (column_text S 200 (EventType (env_Contract e)), column_int (Version (env_Contract e)),
            column_text S 100 (env_AggregateID e),
            nullable_text S 100 (nullable (env_CorrelationID e))) of
        (Some ty, Some v, Some a, Some c) \<Rightarrow>
          Some \<lparr>ob_Id = env_ID e, ob_EventType = ty, ob_SchemaVersion = v, ob_AggregateId = a,
                ob_CorrelationId = c, ob_OccurredOnUtc = column_time S (env_OccurredOnUTC e),
                ob_Payload = env_Payload e\<rparr>
      | _ \<Rightarrow> None)"

definition insert_outbox_stmt ::
  "sqlserver \<Rightarrow> envelope \<Rightarrow> time \<Rightarrow> ordering_db \<Rightarrow> (go_error + unit) \<times> ordering_db" where
  "insert_outbox_stmt S e t db =
     (case outbox_columns S e of
        None \<Rightarrow> (Inl truncated, db)
      | Some r \<Rightarrow>
          if ob_Id r \<in> ob_Id ` set (OutboxMessages db) then (Inl (SqlError primaryKeyViolation), db)
          else (Inr (), db\<lparr>OutboxMessages := OutboxMessages db @ [r]\<rparr>))"

definition insertOutboxMessage :: "sqlserver \<Rightarrow> envelope \<Rightarrow> unit db_act" where
  "insertOutboxMessage S e =
     on_err (Wrapped (Fmt ''staging outbox message %s'' [ArgUuid (env_ID e)]))
       (call (insert_outbox_stmt S e))"

text \<open>
  \<open>EventMapper\<close>: the message for an event of an order, or \<open>None\<close> when it has no outward contract.
\<close>

type_synonym event_mapper = "order \<Rightarrow> event \<Rightarrow> envelope option db_act"

definition DropEvents :: event_mapper where
  "DropEvents o' ev = ret None"

definition stageEvents :: "sqlserver \<Rightarrow> event_mapper \<Rightarrow> order \<Rightarrow> unit db_act" where
  "stageEvents S mapEvent o' =
     for_each (\<lambda>ev. andthen (on_err (Wrapped (Fmt ''mapping domain event'' [])) (mapEvent o' ev))
                 (\<lambda>mapped. case mapped of None \<Rightarrow> ret () | Some e \<Rightarrow> insertOutboxMessage S e))
       (events o')"

subsection \<open>Orders\<close>

definition saveOrder :: "sqlserver \<Rightarrow> event_mapper \<Rightarrow> order \<Rightarrow> unit db_act" where
  "saveOrder S mapEvent o' =
     andthen (upsertOrder S o') (\<lambda>_.
     andthen (on_err (Wrapped (Fmt ''clearing order lines'' []))
                (update (\<lambda>t. clear_items (order_id o')))) (\<lambda>_.
     andthen (for_each (insertOrderItem S (order_id o')) (items o')) (\<lambda>_.
     stageEvents S mapEvent o')))"

definition inTx :: "'a db_act \<Rightarrow> 'a db_act" where
  "inTx = transaction (Fmt ''beginning transaction'' []) (Fmt ''committing transaction'' [])"

text \<open>\<open>Save\<close> returns the order as it is afterwards: its events are gone once they are committed.\<close>

definition Save :: "sqlserver \<Rightarrow> event_mapper \<Rightarrow> order \<Rightarrow> order db_act" where
  "Save S mapEvent o' =
     andthen (inTx (saveOrder S mapEvent o')) (\<lambda>_. ret (snd (PullEvents o')))"

definition save_customer_stmt ::
  "sqlserver \<Rightarrow> customer \<Rightarrow> time \<Rightarrow> ordering_db \<Rightarrow> (go_error + unit) \<times> ordering_db" where
  "save_customer_stmt S c t db =
     (case (column_text S 100 (customer_Name c), column_text S 255 (customer_Email c)) of
        (Some n, Some e) \<Rightarrow>
          (Inr (), db\<lparr>Customers := (Customers db)(customer_ID c \<mapsto> \<lparr>cr_Name = n, cr_Email = e\<rparr>)\<rparr>)
      | _ \<Rightarrow> (Inl truncated, db))"

definition saveCustomer :: "sqlserver \<Rightarrow> customer \<Rightarrow> unit db_act" where
  "saveCustomer S c =
     on_err (Wrapped (Fmt ''recording customer %s'' [ArgUuid (customer_ID c)]))
       (call (save_customer_stmt S c))"

text \<open>The values of the \<open>INSERT\<close> branch are only stored when the product is not known.\<close>

definition add_product_stmt ::
  "sqlserver \<Rightarrow> product \<Rightarrow> time \<Rightarrow> ordering_db \<Rightarrow> (go_error + unit) \<times> ordering_db" where
  "add_product_stmt S p t db =
     (if Products db (product_ID p) \<noteq> None then (Inr (), db)
      else case (column_text S 100 (product_Name p), column_money S (product_Price p)) of
             (Some n, Some pr) \<Rightarrow>
               (Inr (), db\<lparr>Products := (Products db)(product_ID p \<mapsto> \<lparr>pr_Name = n, pr_Price = pr\<rparr>)\<rparr>)
           | _ \<Rightarrow> (Inl truncated, db))"

definition addProductIfUnknown :: "sqlserver \<Rightarrow> product \<Rightarrow> unit db_act" where
  "addProductIfUnknown S p =
     on_err (Wrapped (Fmt ''recording product %s'' [ArgUuid (product_ID p)]))
       (call (add_product_stmt S p))"

text \<open>The loop of \<open>Place\<close> over the products, with the ids seen so far.\<close>

fun add_products :: "sqlserver \<Rightarrow> uuid set \<Rightarrow> product list \<Rightarrow> unit db_act" where
  "add_products S seen [] = ret ()"
| "add_products S seen (p # ps) =
     (if product_ID p \<in> seen then add_products S seen ps
      else andthen (addProductIfUnknown S p)
             (\<lambda>_. add_products S (insert (product_ID p) seen) ps))"

definition place_tx :: "sqlserver \<Rightarrow> event_mapper \<Rightarrow> order \<Rightarrow> customer \<Rightarrow> product list \<Rightarrow> unit db_act" where
  "place_tx S mapEvent o' c ps =
     andthen (saveCustomer S c) (\<lambda>_.
     andthen (add_products S {} ps) (\<lambda>_.
     saveOrder S mapEvent o'))"

definition Place :: "sqlserver \<Rightarrow> event_mapper \<Rightarrow> order \<Rightarrow> customer \<Rightarrow> product list \<Rightarrow> order db_act" where
  "Place S mapEvent o' c ps =
     andthen (inTx (place_tx S mapEvent o' c ps)) (\<lambda>_. ret (snd (PullEvents o')))"

definition delete_stmt :: "uuid \<Rightarrow> time \<Rightarrow> ordering_db \<Rightarrow> (go_error + nat) \<times> ordering_db" where
  "delete_stmt oid t db =
     (let rows = filter (\<lambda>r. or_Id r = oid) (Orders db) in
      (Inr (length rows),
       if rows = [] then db
       else (clear_items oid db)\<lparr>Orders := filter (\<lambda>r. or_Id r \<noteq> oid) (Orders db)\<rparr>))"

definition Delete :: "uuid \<Rightarrow> unit db_act" where
  "Delete oid =
     andthen (on_err (Wrapped (Fmt ''deleting order %s'' [ArgUuid oid])) (call (delete_stmt oid)))
       (\<lambda>affected. if affected = 0 then fail (NotFound ''Order'' (ArgUuid oid)) else ret ())"

section \<open>Reading\<close>

definition deref :: "string option \<Rightarrow> string" where
  "deref v = (case v of None \<Rightarrow> '''' | Some s \<Rightarrow> s)"

definition scanPayment :: "string option \<Rightarrow> string option \<Rightarrow> int option \<Rightarrow> go_error + payment" where
  "scanPayment token last4 meth =
     (case token of
        None \<Rightarrow> Inr payment_zero
      | Some t \<Rightarrow>
          map_left (Wrapped (Fmt ''payment'' []))
            (NewPayment t (deref last4) (case meth of None \<Rightarrow> 0 | Some m \<Rightarrow> m)))"

definition scan_address :: "address_row \<Rightarrow> go_error + address" where
  "scan_address r =
     NewAddress (ar_FirstName r) (ar_LastName r) (deref (ar_EmailAddress r)) (ar_AddressLine r)
       (ar_Country r) (ar_State r) (ar_ZipCode r)"

definition scanOrder :: "order_row \<Rightarrow> go_error + order" where
  "scanOrder r =
     try_res (NewOrderID (or_Id r)) (\<lambda>orderID.
     try_res (NewCustomerID (or_CustomerId r)) (\<lambda>customer.
     try_res (ParseOrderStatus (or_Status r)) (\<lambda>orderStatus.
     try_res (map_left (Wrapped (Fmt ''shipping address'' [])) (scan_address (or_Shipping r))) (\<lambda>shipping.
     try_res (map_left (Wrapped (Fmt ''billing address'' [])) (scan_address (or_Billing r))) (\<lambda>billing.
     try_res (scanPayment (or_PaymentToken r) (or_CardLast4 r) (or_PaymentMethod r)) (\<lambda>pay.
     Inr (Restore orderID customer shipping billing pay orderStatus [])))))))"

definition scanOrderItem :: "item_row \<Rightarrow> go_error + order_item" where
  "scanOrderItem r =
     try_res (NewOrderItemID (ir_Id r)) (\<lambda>itemID.
     try_res (NewOrderID (ir_OrderId r)) (\<lambda>oid.
     try_res (NewProductID (ir_ProductId r)) (\<lambda>pid.
     Inr \<lparr>item_ID = itemID, item_OrderID = oid, item_ProductID = pid,
          item_Quantity = ir_Quantity r, item_Price = ir_Price r\<rparr>)))"

definition withItems :: "order \<Rightarrow> order_item list \<Rightarrow> order" where
  "withItems o' lines =
     Restore (order_id o') (customerID o') (shippingAddress o') (billingAddress o')
       (order_payment o') (order_status o') lines"

definition item_rows :: "sqlserver \<Rightarrow> uuid \<Rightarrow> ordering_db \<Rightarrow> item_row list" where
  "item_rows S oid db =
     sort_key (\<lambda>r. guid_rank S (ir_Id r)) (filter (\<lambda>r. ir_OrderId r = oid) (OrderItems db))"

definition itemsFor :: "sqlserver \<Rightarrow> uuid \<Rightarrow> order_item list db_act" where
  "itemsFor S oid =
     andthen (on_err (Wrapped (Fmt ''loading lines of order %s'' [ArgUuid oid]))
                (query (item_rows S oid)))
       (\<lambda>rows. of_res (map_left (Wrapped (Fmt ''reading line of order %s'' [ArgUuid oid]))
                          (map_err scanOrderItem rows)))"

definition ByID :: "sqlserver \<Rightarrow> uuid \<Rightarrow> order db_act" where
  "ByID S oid =
     andthen (on_err (Wrapped (Fmt ''loading order %s'' [ArgUuid oid]))
                (query (\<lambda>db. find_order oid (Orders db))))
       (\<lambda>row. case row of
          None \<Rightarrow> fail (NotFound ''Order'' (ArgUuid oid))
        | Some r \<Rightarrow>
            andthen (of_res (map_left (Wrapped (Fmt ''loading order %s'' [ArgUuid oid])) (scanOrder r)))
              (\<lambda>o'. andthen (itemsFor S oid) (\<lambda>lines. ret (withItems o' lines))))"

text \<open>\<open>ORDER BY CreatedAt DESC, Id\<close>\<close>

definition newestFirst :: "sqlserver \<Rightarrow> order_row list \<Rightarrow> order_row list" where
  "newestFirst S rows = sort_key (\<lambda>r. (- or_CreatedAt r, guid_rank S (or_Id r))) rows"

fun attach_items :: "sqlserver \<Rightarrow> order list \<Rightarrow> order list db_act" where
  "attach_items S [] = ret []"
| "attach_items S (o' # os) =
     andthen (itemsFor S (order_id o')) (\<lambda>lines.
     andthen (attach_items S os) (\<lambda>rest. ret (withItems o' lines # rest)))"

definition collect :: "sqlserver \<Rightarrow> order_row list \<Rightarrow> order list db_act" where
  "collect S rows =
     andthen (of_res (map_left (Wrapped (Fmt ''reading order'' [])) (map_err scanOrder rows)))
       (attach_items S)"

definition list_stmt ::
  "sqlserver \<Rightarrow> int \<Rightarrow> int \<Rightarrow> time \<Rightarrow> ordering_db \<Rightarrow> (go_error + order_row list) \<times> ordering_db" where
  "list_stmt S offset limit t db =
     (if offset < 0 then (Inl negative_offset, db)
      else (Inr (page_rows offset limit (newestFirst S (Orders db))), db))"

definition List :: "sqlserver \<Rightarrow> page_request \<Rightarrow> (order list \<times> int) db_act" where
  "List S page =
     (let normalized = Normalized page in
      andthen (on_err (Wrapped (Fmt ''counting orders'' [])) (query (\<lambda>db. int (length (Orders db)))))
        (\<lambda>n. andthen (on_err (Wrapped (Fmt ''listing orders'' []))
                            (call (list_stmt S (sint (Offset normalized)) (sint (Limit normalized)))))
        (\<lambda>rows. andthen (collect S rows) (\<lambda>os. ret (os, n)))))"

definition ByCustomer :: "sqlserver \<Rightarrow> uuid \<Rightarrow> order list db_act" where
  "ByCustomer S cid =
     andthen (on_err (Wrapped (Fmt ''listing orders for customer %s'' [ArgUuid cid]))
                (query (\<lambda>db. newestFirst S (filter (\<lambda>r. or_CustomerId r = cid) (Orders db)))))
       (collect S)"

section \<open>The inbox\<close>

definition inbox_insert_stmt ::
  "uuid \<Rightarrow> string \<Rightarrow> time \<Rightarrow> ordering_db \<Rightarrow> (go_error + unit) \<times> ordering_db" where
  "inbox_insert_stmt mid consumer t db =
     (if 200 < utf16_units consumer then (Inl truncated, db)
      else if InboxMessages db (mid, consumer) \<noteq> None then (Inl (SqlError primaryKeyViolation), db)
      else (Inr (), db\<lparr>InboxMessages := (InboxMessages db)((mid, consumer) \<mapsto> None)\<rparr>))"

text \<open>\<open>Begin\<close> reports whether the message is to be handled.\<close>

definition Begin :: "uuid \<Rightarrow> string \<Rightarrow> bool db_act" where
  "Begin mid consumer w =
     (case call (inbox_insert_stmt mid consumer) w of
        (Inr _, w') \<Rightarrow> (Inr True, w')
      | (Inl e, w') \<Rightarrow>
          if \<not> isDuplicateKey e
          then (Inl (Wrapped (Fmt ''claiming message %s for %s'' [ArgUuid mid, ArgStr consumer]) e), w')
          else andthen
                 (on_err (Wrapped (Fmt ''reading the state of message %s for %s''
                                     [ArgUuid mid, ArgStr consumer]))
                    (andthen (query (\<lambda>db. InboxMessages db (mid, consumer)))
                       (\<lambda>row. case row of None \<Rightarrow> fail NoRows | Some processed \<Rightarrow> ret processed)))
                 (\<lambda>processed. ret (processed = None)) w')"

definition Complete :: "sqlserver \<Rightarrow> uuid \<Rightarrow> string \<Rightarrow> unit db_act" where
  "Complete S mid consumer =
     on_err (Wrapped (Fmt ''completing message %s for %s'' [ArgUuid mid, ArgStr consumer]))
       (update (\<lambda>t db. db\<lparr>InboxMessages :=
          (case InboxMessages db (mid, consumer) of
             None \<Rightarrow> InboxMessages db
           | Some _ \<Rightarrow> (InboxMessages db)((mid, consumer) \<mapsto> Some (column_time S t)))\<rparr>))"

end
