(* ===== verification/Ordering_Store_Facts.thy ===== *)
theory Ordering_Store_Facts
  imports Ordering_Store "HOL-Library.Multiset"
begin

text \<open>
  What holds of Ordering's tables: each statement and operation described by what it changes, the
  integrity of the tables as an invariant of all of them, the atomicity of \<open>Save\<close> and \<open>Place\<close>
  under every pattern of failures, and loading what was saved.
\<close>

section \<open>What one operation changes\<close>

lemma bind_eq_Some: "Option.bind m f = Some y \<longleftrightarrow> (\<exists>x. m = Some x \<and> f x = Some y)"
  by (cases m) auto

lemma order_columns_ids:
  "order_columns S o' t = Some r \<Longrightarrow> or_Id r = order_id o' \<and> or_CustomerId r = customerID o' \<and> or_CreatedAt r = t"
  by (auto simp: order_columns_def bind_eq_Some)

lemma item_columns_ids:
  "item_columns S oid i = Some r \<Longrightarrow>
     ir_Id r = item_ID i \<and> ir_OrderId r = oid \<and> ir_ProductId r = item_ProductID i"
  by (auto simp: item_columns_def split: option.splits)

lemma upsertOrder_Inr:
  assumes "upsertOrder S o' (E, db) = (Inr u, E', db')"
  shows "\<exists>r. order_columns S o' (column_time S (now E)) = Some r \<and>
    Customers db (customerID o') \<noteq> None \<and> db' = db\<lparr>Orders := merge_order r (Orders db)\<rparr>"
  using assms
  by (auto simp: upsertOrder_def on_err_Inr upsert_stmt_def dest!: call_Inr split: option.splits if_splits)

lemma insertOrderItem_Inr:
  assumes "insertOrderItem S oid i (E, db) = (Inr u, E', db')"
  shows "\<exists>r. item_columns S oid i = Some r \<and> ir_Id r \<notin> ir_Id ` set (OrderItems db) \<and>
    Products db (ir_ProductId r) \<noteq> None \<and> db' = db\<lparr>OrderItems := OrderItems db @ [r]\<rparr>"
  using assms
  by (auto simp: insertOrderItem_def on_err_Inr insert_item_stmt_def dest!: call_Inr
      split: option.splits if_splits)

lemma insertOrderItems_Inr:
  assumes "for_each (insertOrderItem S oid) is (E, db) = (Inr u, E', db')"
  shows "\<exists>rs. map (item_columns S oid) is = map Some rs \<and> db' = db\<lparr>OrderItems := OrderItems db @ rs\<rparr>"
  using assms
proof (induction "is" arbitrary: E db)
  case Nil
  then show ?case by auto
next
  case (Cons i "is")
  from Cons.prems obtain E1 db1 where
    1: "insertOrderItem S oid i (E, db) = (Inr (), E1, db1)"
       "for_each (insertOrderItem S oid) is (E1, db1) = (Inr u, E', db')"
    unfolding for_each_Inr_Cons by auto
  from insertOrderItem_Inr [OF 1(1)] obtain r where
    r: "item_columns S oid i = Some r" "db1 = db\<lparr>OrderItems := OrderItems db @ [r]\<rparr>" by blast
  from Cons.IH [OF 1(2)] obtain rs where
    "map (item_columns S oid) is = map Some rs" "db' = db1\<lparr>OrderItems := OrderItems db1 @ rs\<rparr>"
    by blast
  with r have "map (item_columns S oid) (i # is) = map Some (r # rs) \<and>
      db' = db\<lparr>OrderItems := OrderItems db @ (r # rs)\<rparr>" by simp
  then show ?case by blast
qed

text \<open>A mapper reads the order and makes ids; it does not touch the tables.\<close>

definition quiet_mapper :: "event_mapper \<Rightarrow> bool" where
  "quiet_mapper m \<longleftrightarrow> (\<forall>o' ev. quiet (m o' ev))"

lemma insertOutboxMessage_Inr:
  assumes "insertOutboxMessage S e (E, db) = (Inr u, E', db')"
  shows "\<exists>r. outbox_columns S e = Some r \<and> db' = db\<lparr>OutboxMessages := OutboxMessages db @ [r]\<rparr>"
  using assms
  by (auto simp: insertOutboxMessage_def on_err_Inr insert_outbox_stmt_def dest!: call_Inr
      split: option.splits if_splits)

lemma stageEvents_loop_Inr:
  assumes "quiet_mapper m"
    and "for_each (\<lambda>ev. andthen (on_err g (m o' ev))
            (\<lambda>mapped. case mapped of None \<Rightarrow> ret () | Some e \<Rightarrow> insertOutboxMessage S e)) evs (E, db)
          = (Inr u, E', db')"
  shows "\<exists>rows. db' = db\<lparr>OutboxMessages := OutboxMessages db @ rows\<rparr>"
  using assms(2)
proof (induction evs arbitrary: E db)
  case Nil
  then show ?case by (auto intro: exI [of _ "[]"])
next
  case (Cons ev evs)
  from Cons.prems [unfolded for_each_Inr_Cons] obtain mapped E1 db1 E2 db2 where
    1: "m o' ev (E, db) = (Inr mapped, E1, db1)"
       "(case mapped of None \<Rightarrow> ret () | Some e \<Rightarrow> insertOutboxMessage S e) (E1, db1) = (Inr (), E2, db2)"
       "for_each (\<lambda>ev. andthen (on_err g (m o' ev))
            (\<lambda>mapped. case mapped of None \<Rightarrow> ret () | Some e \<Rightarrow> insertOutboxMessage S e)) evs (E2, db2)
          = (Inr u, E', db')"
    by (auto simp: andthen_Inr on_err_Inr)
  have db1: "db1 = db" using 1(1) assms(1) by (auto simp: quiet_mapper_def dest: quietD)
  have "\<exists>rows. db2 = db\<lparr>OutboxMessages := OutboxMessages db @ rows\<rparr>"
  proof (cases mapped)
    case None
    with 1(2) db1 show ?thesis by (auto intro: exI [of _ "[]"])
  next
    case (Some e)
    with 1(2) db1 show ?thesis by (auto dest: insertOutboxMessage_Inr)
  qed
  then obtain rows where "db2 = db\<lparr>OutboxMessages := OutboxMessages db @ rows\<rparr>" ..
  moreover from Cons.IH [OF 1(3)] obtain rows' where
    "db' = db2\<lparr>OutboxMessages := OutboxMessages db2 @ rows'\<rparr>" ..
  ultimately show ?case by (auto intro: exI [of _ "rows @ rows'"])
qed

lemma stageEvents_Inr:
  assumes "quiet_mapper m" "stageEvents S m o' (E, db) = (Inr u, E', db')"
  shows "\<exists>rows. db' = db\<lparr>OutboxMessages := OutboxMessages db @ rows\<rparr>"
  using stageEvents_loop_Inr [OF assms(1)] assms(2) by (simp add: stageEvents_def)

text \<open>
  The whole of a save: the order's row is written, its lines are replaced by the ones it has, rows
  are appended to the outbox, and nothing else changes.
\<close>

definition saved :: "sqlserver \<Rightarrow> order \<Rightarrow> ordering_db \<Rightarrow> ordering_db \<Rightarrow> bool" where
  "saved S o' db db' \<longleftrightarrow>
     (\<exists>r t rs rows. order_columns S o' t = Some r \<and>
        map (item_columns S (order_id o')) (items o') = map Some rs \<and>
        db' = db\<lparr>Orders := merge_order r (Orders db),
                 OrderItems := filter (\<lambda>r. ir_OrderId r \<noteq> order_id o') (OrderItems db) @ rs,
                 OutboxMessages := OutboxMessages db @ rows\<rparr>)"

lemma saveOrder_Inr:
  assumes "quiet_mapper m" "saveOrder S m o' (E, db) = (Inr u, E', db')"
  shows "saved S o' db db'"
proof -
  from assms(2) obtain E1 db1 E2 db2 E3 db3 where
    1: "upsertOrder S o' (E, db) = (Inr (), E1, db1)" and
    2: "update (\<lambda>t. clear_items (order_id o')) (E1, db1) = (Inr (), E2, db2)" and
    3: "for_each (insertOrderItem S (order_id o')) (items o') (E2, db2) = (Inr (), E3, db3)" and
    4: "stageEvents S m o' (E3, db3) = (Inr u, E', db')"
    by (auto simp: saveOrder_def andthen_Inr on_err_Inr)
  from upsertOrder_Inr [OF 1] obtain r t where
    r: "order_columns S o' t = Some r" "db1 = db\<lparr>Orders := merge_order r (Orders db)\<rparr>" by blast
  have "db2 = clear_items (order_id o') db1" using update_Inr [OF 2] .
  moreover from insertOrderItems_Inr [OF 3] obtain rs where
    "map (item_columns S (order_id o')) (items o') = map Some rs"
    "db3 = db2\<lparr>OrderItems := OrderItems db2 @ rs\<rparr>" by blast
  moreover from stageEvents_Inr [OF assms(1) 4] obtain rows where
    "db' = db3\<lparr>OutboxMessages := OutboxMessages db3 @ rows\<rparr>" ..
  ultimately show ?thesis
    using r unfolding saved_def by (intro exI [of _ r] exI [of _ t] exI [of _ rs] exI [of _ rows])
      (simp add: clear_items_def)
qed

lemma Save_cases:
  assumes "quiet_mapper m" "Save S m o' (E, db) = (r, E', db')"
  shows "db' = db \<or> saved S o' db db'"
    and "r = Inr o2 \<Longrightarrow> saved S o' db db' \<and> o2 = o'\<lparr>events := []\<rparr>"
proof -
  have a: "\<exists>r'. inTx (saveOrder S m o') (E, db) = (r', E', db') \<and>
      (\<forall>o2. r = Inr o2 \<longrightarrow> (\<exists>u. r' = Inr u) \<and> o2 = o'\<lparr>events := []\<rparr>)"
    using assms(2) by (auto simp: Save_def andthen_def PullEvents_def split: prod.splits sum.splits)
  then obtain r' where r': "inTx (saveOrder S m o') (E, db) = (r', E', db')"
    "\<forall>o2. r = Inr o2 \<longrightarrow> (\<exists>u. r' = Inr u) \<and> o2 = o'\<lparr>events := []\<rparr>" by (elim exE conjE)
  show "db' = db \<or> saved S o' db db'"
    using transaction_atomic [OF r'(1) [unfolded inTx_def]] saveOrder_Inr [OF assms(1)] by blast
  show "saved S o' db db' \<and> o2 = o'\<lparr>events := []\<rparr>" if "r = Inr o2"
  proof -
    from r'(2) that obtain u where "r' = Inr u" and o2: "o2 = o'\<lparr>events := []\<rparr>" by auto
    with r'(1) have "inTx (saveOrder S m o') (E, db) = (Inr u, E', db')" by simp
    from transaction_Inr [OF this [unfolded inTx_def]] saveOrder_Inr [OF assms(1)] o2
    show ?thesis by blast
  qed
qed

lemma saveCustomer_Inr:
  assumes "saveCustomer S c (E, db) = (Inr u, E', db')"
  shows "\<exists>n e. column_text S 100 (customer_Name c) = Some n \<and> column_text S 255 (customer_Email c) = Some e
    \<and> db' = db\<lparr>Customers := (Customers db)(customer_ID c \<mapsto> \<lparr>cr_Name = n, cr_Email = e\<rparr>)\<rparr>"
  using assms
  by (auto simp: saveCustomer_def on_err_Inr save_customer_stmt_def dest!: call_Inr
      split: option.splits)

lemma addProductIfUnknown_Inr:
  assumes "addProductIfUnknown S p (E, db) = (Inr u, E', db')"
  shows "\<exists>ps. db' = db\<lparr>Products := ps\<rparr> \<and> ps (product_ID p) \<noteq> None \<and> Products db \<subseteq>\<^sub>m ps
    \<and> (\<forall>x. x \<noteq> product_ID p \<longrightarrow> ps x = Products db x)"
proof (cases "Products db (product_ID p)")
  case None
  with assms obtain row where "db' = db\<lparr>Products := (Products db)(product_ID p \<mapsto> row)\<rparr>"
    by (auto simp: addProductIfUnknown_def on_err_Inr add_product_stmt_def
        dest!: call_Inr split: option.splits)
  with None show ?thesis
    by (intro exI [of _ "(Products db)(product_ID p \<mapsto> row)"]) (auto simp: map_le_def)
next
  case (Some row)
  with assms have "db' = db\<lparr>Products := Products db\<rparr>"
    by (auto simp: addProductIfUnknown_def on_err_Inr add_product_stmt_def dest!: call_Inr)
  with Some show ?thesis by (intro exI [of _ "Products db"]) simp
qed

lemma add_products_Inr:
  assumes "add_products S seen ps (E, db) = (Inr u, E', db')"
  shows "\<exists>qs. db' = db\<lparr>Products := qs\<rparr> \<and> Products db \<subseteq>\<^sub>m qs \<and>
    (\<forall>p \<in> set ps. product_ID p \<in> seen \<or> qs (product_ID p) \<noteq> None) \<and>
    (\<forall>x. x \<notin> product_ID ` set ps \<longrightarrow> qs x = Products db x)"
  using assms
proof (induction S seen ps arbitrary: E db rule: add_products.induct)
  case (1 S seen)
  then have "db' = db\<lparr>Products := Products db\<rparr>" by simp
  then show ?case by (intro exI [of _ "Products db"]) simp
next
  case (2 S seen p ps)
  show ?case
  proof (cases "product_ID p \<in> seen")
    case True
    with "2.IH"(1) [OF True] "2.prems" show ?thesis by fastforce
  next
    case False
    with "2.prems" obtain E1 db1 where
      1: "addProductIfUnknown S p (E, db) = (Inr (), E1, db1)"
         "add_products S (insert (product_ID p) seen) ps (E1, db1) = (Inr u, E', db')"
      by (auto simp: andthen_Inr)
    from addProductIfUnknown_Inr [OF 1(1)] obtain q1 where
      q1: "db1 = db\<lparr>Products := q1\<rparr>" "q1 (product_ID p) \<noteq> None" "Products db \<subseteq>\<^sub>m q1"
          "\<forall>x. x \<noteq> product_ID p \<longrightarrow> q1 x = Products db x" by blast
    from "2.IH"(2) [OF False 1(2)] obtain q2 where
      q2: "db' = db1\<lparr>Products := q2\<rparr>" "q1 \<subseteq>\<^sub>m q2"
          "\<forall>p' \<in> set ps. product_ID p' \<in> insert (product_ID p) seen \<or> q2 (product_ID p') \<noteq> None"
          "\<forall>x. x \<notin> product_ID ` set ps \<longrightarrow> q2 x = q1 x"
      using q1(1) by auto
    have "q2 (product_ID p) \<noteq> None"
      using q1(2) q2(2) by (auto simp: map_le_def dom_def)
    with q1 q2 show ?thesis
      by (intro exI [of _ q2]) (auto intro: map_le_trans)
  qed
qed

text \<open>
  The whole of a placement: the customer's row is what the checkout said, products that were known
  are as they were, and the order is saved on top of that.
\<close>

definition placed :: "sqlserver \<Rightarrow> order \<Rightarrow> customer \<Rightarrow> product list \<Rightarrow> ordering_db \<Rightarrow> ordering_db \<Rightarrow> bool" where
  "placed S o' c ps db db' \<longleftrightarrow>
     (\<exists>n e qs. column_text S 100 (customer_Name c) = Some n \<and> column_text S 255 (customer_Email c) = Some e \<and>
        Products db \<subseteq>\<^sub>m qs \<and> (\<forall>p \<in> set ps. qs (product_ID p) \<noteq> None) \<and>
        (\<forall>x. x \<notin> product_ID ` set ps \<longrightarrow> qs x = Products db x) \<and>
        saved S o' (db\<lparr>Customers := (Customers db)(customer_ID c \<mapsto> \<lparr>cr_Name = n, cr_Email = e\<rparr>),
                      Products := qs\<rparr>) db')"

lemma place_tx_Inr:
  assumes "quiet_mapper m" "place_tx S m o' c ps (E, db) = (Inr u, E', db')"
  shows "placed S o' c ps db db'"
proof -
  from assms(2) obtain E1 db1 E2 db2 where
    1: "saveCustomer S c (E, db) = (Inr (), E1, db1)" and
    2: "add_products S {} ps (E1, db1) = (Inr (), E2, db2)" and
    3: "saveOrder S m o' (E2, db2) = (Inr u, E', db')"
    by (auto simp: place_tx_def andthen_Inr)
  from saveCustomer_Inr [OF 1] obtain n e where
    n: "column_text S 100 (customer_Name c) = Some n" "column_text S 255 (customer_Email c) = Some e"
       "db1 = db\<lparr>Customers := (Customers db)(customer_ID c \<mapsto> \<lparr>cr_Name = n, cr_Email = e\<rparr>)\<rparr>" by blast
  from add_products_Inr [OF 2] obtain qs where
    q: "db2 = db1\<lparr>Products := qs\<rparr>" "Products db1 \<subseteq>\<^sub>m qs" "\<forall>p \<in> set ps. qs (product_ID p) \<noteq> None"
       "\<forall>x. x \<notin> product_ID ` set ps \<longrightarrow> qs x = Products db1 x" by auto
  have "saved S o' db2 db'" using saveOrder_Inr [OF assms(1) 3] .
  with n q show ?thesis
    unfolding placed_def by (intro exI [of _ n] exI [of _ e] exI [of _ qs]) simp
qed

lemma Place_cases:
  assumes "quiet_mapper m" "Place S m o' c ps (E, db) = (r, E', db')"
  shows "db' = db \<or> placed S o' c ps db db'"
    and "r = Inr o2 \<Longrightarrow> placed S o' c ps db db' \<and> o2 = o'\<lparr>events := []\<rparr>"
proof -
  have a: "\<exists>r'. inTx (place_tx S m o' c ps) (E, db) = (r', E', db') \<and>
      (\<forall>o2. r = Inr o2 \<longrightarrow> (\<exists>u. r' = Inr u) \<and> o2 = o'\<lparr>events := []\<rparr>)"
    using assms(2) by (auto simp: Place_def andthen_def PullEvents_def split: prod.splits sum.splits)
  then obtain r' where r': "inTx (place_tx S m o' c ps) (E, db) = (r', E', db')"
    "\<forall>o2. r = Inr o2 \<longrightarrow> (\<exists>u. r' = Inr u) \<and> o2 = o'\<lparr>events := []\<rparr>" by (elim exE conjE)
  show "db' = db \<or> placed S o' c ps db db'"
    using transaction_atomic [OF r'(1) [unfolded inTx_def]] place_tx_Inr [OF assms(1)] by blast
  show "placed S o' c ps db db' \<and> o2 = o'\<lparr>events := []\<rparr>" if "r = Inr o2"
  proof -
    from r'(2) that obtain u where "r' = Inr u" and o2: "o2 = o'\<lparr>events := []\<rparr>" by auto
    with r'(1) have "inTx (place_tx S m o' c ps) (E, db) = (Inr u, E', db')" by simp
    from transaction_Inr [OF this [unfolded inTx_def]] place_tx_Inr [OF assms(1)] o2
    show ?thesis by blast
  qed
qed

section \<open>Integrity of the tables\<close>

definition db_ok :: "ordering_db \<Rightarrow> bool" where
  "db_ok db \<longleftrightarrow>
     distinct (map or_Id (Orders db)) \<and> distinct (map ir_Id (OrderItems db)) \<and>
     distinct (map ob_Id (OutboxMessages db)) \<and>
     (\<forall>r \<in> set (Orders db). Customers db (or_CustomerId r) \<noteq> None) \<and>
     (\<forall>i \<in> set (OrderItems db). ir_OrderId i \<in> or_Id ` set (Orders db) \<and> Products db (ir_ProductId i) \<noteq> None)"

lemma find_order_None: "find_order oid rows = None \<longleftrightarrow> oid \<notin> or_Id ` set rows"
  by (auto simp: find_order_def find_None_iff)

lemma find_order_Some: "find_order oid rows = Some r \<Longrightarrow> r \<in> set rows \<and> or_Id r = oid"
  by (auto simp: find_order_def find_Some_iff)

lemma merge_order_ids:
  "map or_Id (merge_order r rows) =
     (if or_Id r \<in> or_Id ` set rows then map or_Id rows else map or_Id rows @ [or_Id r])"
  by (auto simp: merge_order_def find_order_None dest!: find_order_Some split: option.split
      intro: rev_image_eqI)

lemma merge_order_id_set: "or_Id ` set (merge_order r rows) = insert (or_Id r) (or_Id ` set rows)"
proof -
  have "or_Id ` set (merge_order r rows) = set (map or_Id (merge_order r rows))" by simp
  also have "\<dots> = insert (or_Id r) (or_Id ` set rows)" by (auto simp: merge_order_ids)
  finally show ?thesis .
qed

lemma merge_order_customers:
  "r' \<in> set (merge_order r rows) \<Longrightarrow> or_CustomerId r' = or_CustomerId r \<or> r' \<in> set rows"
  by (auto simp: merge_order_def split: option.splits if_splits)

lemma keeps_upsertOrder [wf_intro]: "keeps db_ok (upsertOrder S o')"
  unfolding upsertOrder_def
  by (intro wf_intro)
    (auto simp: upsert_stmt_def db_ok_def merge_order_ids merge_order_id_set
      dest: order_columns_ids dest!: merge_order_customers split: option.split)

lemma keeps_clear [wf_intro]: "db_ok db \<Longrightarrow> db_ok (clear_items oid db)"
  by (auto simp: db_ok_def clear_items_def distinct_map_filter)

lemma keeps_insertOrderItem [wf_intro]: "keeps db_ok (insertOrderItem S oid i)"
  unfolding insertOrderItem_def
  by (intro wf_intro)
    (auto simp: insert_item_stmt_def db_ok_def find_order_None dest: item_columns_ids split: option.split)

lemma keeps_insertOutboxMessage [wf_intro]: "keeps db_ok (insertOutboxMessage S e)"
  unfolding insertOutboxMessage_def
  by (intro wf_intro) (auto simp: insert_outbox_stmt_def db_ok_def split: option.split)

lemma keeps_stageEvents [wf_intro]: "quiet_mapper m \<Longrightarrow> keeps db_ok (stageEvents S m o')"
  unfolding stageEvents_def quiet_mapper_def
  by (intro wf_intro) (auto split: option.split intro: wf_intro quiet_keeps)

lemma keeps_saveOrder [wf_intro]: "quiet_mapper m \<Longrightarrow> keeps db_ok (saveOrder S m o')"
  unfolding saveOrder_def by (intro wf_intro)

lemma keeps_saveCustomer [wf_intro]: "keeps db_ok (saveCustomer S c)"
  unfolding saveCustomer_def
  by (intro wf_intro) (auto simp: save_customer_stmt_def db_ok_def split: option.split)

lemma keeps_addProductIfUnknown [wf_intro]: "keeps db_ok (addProductIfUnknown S p)"
  unfolding addProductIfUnknown_def
  by (intro wf_intro) (auto simp: add_product_stmt_def db_ok_def split: option.split)

lemma keeps_add_products [wf_intro]: "keeps db_ok (add_products S seen ps)"
  by (induction S seen ps rule: add_products.induct) (auto intro!: wf_intro)

lemma keeps_Save [wf_intro]: "quiet_mapper m \<Longrightarrow> keeps db_ok (Save S m o')"
  unfolding Save_def inTx_def by (intro wf_intro)

lemma keeps_Place [wf_intro]: "quiet_mapper m \<Longrightarrow> keeps db_ok (Place S m o' c ps)"
  unfolding Place_def inTx_def place_tx_def by (intro wf_intro)

lemma keeps_Delete [wf_intro]: "keeps db_ok (Delete oid)"
proof -
  have "db_ok (snd (delete_stmt oid t db))" if "db_ok db" for t db
    using that by (auto simp: delete_stmt_def db_ok_def clear_items_def distinct_map_filter Let_def)
  then show ?thesis
    unfolding Delete_def by (intro wf_intro) (auto intro: wf_intro)
qed

lemma keeps_inbox [wf_intro]: "keeps db_ok (Begin mid c)" "keeps db_ok (Complete S mid c)"
proof -
  have "keeps db_ok (call (inbox_insert_stmt mid c))"
    by (intro wf_intro) (auto simp: inbox_insert_stmt_def db_ok_def split: option.split)
  moreover have "quiet (andthen (on_err g (andthen (query f)
      (\<lambda>row. case row of None \<Rightarrow> fail NoRows | Some processed \<Rightarrow> ret processed)))
      (\<lambda>processed. ret (processed = None)))" for g :: "go_error \<Rightarrow> go_error" and f :: "ordering_db \<Rightarrow> time option option"
    by (auto intro!: quiet_andthen split: option.split)
  ultimately show "keeps db_ok (Begin mid c)"
    by (intro keepsI) (auto simp: Begin_def dest: keepsD quietD split: prod.splits sum.splits if_splits)
  show "keeps db_ok (Complete S mid c)"
    unfolding Complete_def by (intro wf_intro) (auto simp: db_ok_def split: option.split)
qed

section \<open>Loading what was saved\<close>

text \<open>The values of an order that fits its columns.\<close>

definition address_fits :: "address \<Rightarrow> bool" where
  "address_fits a \<longleftrightarrow>
     utf16_units (FirstName a) \<le> 50 \<and> utf16_units (LastName a) \<le> 50 \<and>
     utf16_units (EmailAddress a) \<le> 50 \<and> utf16_units (AddressLine a) \<le> 180 \<and>
     utf16_units (Country a) \<le> 50 \<and> utf16_units (State a) \<le> 50 \<and> utf16_units (ZipCode a) \<le> 5"

definition int32 :: "int \<Rightarrow> bool" where
  "int32 i \<longleftrightarrow> -(2 ^ 31) \<le> i \<and> i < 2 ^ 31"

definition item_fits :: "order_item \<Rightarrow> bool" where
  "item_fits i \<longleftrightarrow>
     int32 (item_Quantity i) \<and> is_cents (item_Price i) \<and> \<bar>item_Price i\<bar> < 10 ^ 16 \<and>
     item_ID i \<noteq> 0 \<and> item_ProductID i \<noteq> 0"

definition order_fits :: "order \<Rightarrow> bool" where
  "order_fits o' \<longleftrightarrow>
     order_id o' \<noteq> 0 \<and> customerID o' \<noteq> 0 \<and>
     address_fits (shippingAddress o') \<and> address_fits (billingAddress o') \<and>
     utf16_units (paymentToken (order_payment o')) \<le> 64 \<and> int32 (paymentMethod (order_payment o')) \<and>
     utf16_units (cardLast4 (order_payment o')) \<le> 4 \<and> list_all item_fits (items o')"

lemma sqlserver_okD:
  assumes "sqlserver_ok S"
  shows "utf16_units s \<le> n \<Longrightarrow> column_text S n s = Some s"
    and "n < utf16_units s \<Longrightarrow> last s \<noteq> CHR '' '' \<Longrightarrow> column_text S n s = None"
    and "is_cents d \<Longrightarrow> \<bar>d\<bar> < 10 ^ 16 \<Longrightarrow> column_money S d = Some d"
    and "inj (guid_rank S)"
  using assms by (auto simp: sqlserver_ok_def)

lemma deref_nullable [simp]: "deref (nullable s) = s"
  by (simp add: deref_def nullable_def)

lemma scan_address_columns:
  assumes "sqlserver_ok S" "address_fits a" "address_ok a"
  obtains r where "address_columns S a = Some r" "scan_address r = Inr a"
proof -
  have "nullable_text S 50 (nullable (EmailAddress a)) = Some (nullable (EmailAddress a))"
    using assms by (auto simp: nullable_text_def nullable_def sqlserver_okD address_fits_def)
  with assms have "address_columns S a = Some
     \<lparr>ar_FirstName = FirstName a, ar_LastName = LastName a,
      ar_EmailAddress = nullable (EmailAddress a), ar_AddressLine = AddressLine a,
      ar_Country = Country a, ar_State = State a, ar_ZipCode = ZipCode a\<rparr>"
    by (simp add: address_columns_def sqlserver_okD address_fits_def)
  moreover have "NewAddress (FirstName a) (LastName a) (EmailAddress a) (AddressLine a)
      (Country a) (State a) (ZipCode a) = Inr a"
    using assms(3) by (auto simp: NewAddress_Inr)
  ultimately show ?thesis by (intro that) (auto simp: scan_address_def)
qed

lemma IsZero_ok: "payment_ok p \<Longrightarrow> IsZero p \<Longrightarrow> p = payment_zero"
  by (auto simp: payment_ok_def IsZero_def)

lemma scan_payment_columns:
  assumes "sqlserver_ok S" "payment_ok p" "utf16_units (paymentToken p) \<le> 64"
    "int32 (paymentMethod p)" "utf16_units (cardLast4 p) \<le> 4"
  obtains t l m where "payment_columns S p = Some (t, l, m)" "scanPayment t l m = Inr p"
proof (cases "IsZero p")
  case True
  with assms(2) have "p = payment_zero" by (rule IsZero_ok)
  with True show ?thesis
    by (intro that [of None None None]) (auto simp: payment_columns_def scanPayment_def)
next
  case False
  with assms have c: "payment_columns S p =
      Some (Some (paymentToken p), Some (cardLast4 p), Some (paymentMethod p))"
    by (simp add: payment_columns_def sqlserver_okD column_int_def int32_def)
  have "NewPayment (paymentToken p) (cardLast4 p) (paymentMethod p) = Inr p"
    using assms(2) False by (auto simp: payment_ok_def NewPayment_Inr cardLast4Length_def)
  with c show ?thesis
    by (intro that [of "Some (paymentToken p)" "Some (cardLast4 p)" "Some (paymentMethod p)"])
      (auto simp: scanPayment_def deref_def)
qed

lemma status_String_short:
  "utf16_units (status_String s) \<le> 20"
  by (auto simp: status_String_def byte_in_def)

lemma ParseOrderStatus_String: "status_IsValid s \<Longrightarrow> ParseOrderStatus (status_String s) = Inr s"
  by (auto simp: ParseOrderStatus_def status_String_def status_IsValid_def status_defs)

lemma scan_order_columns:
  assumes "sqlserver_ok S" "order_ok o'" "order_fits o'"
  obtains r where "order_columns S o' t = Some r"
    "scanOrder (r\<lparr>or_CreatedAt := t'\<rparr>) = Inr (o'\<lparr>events := [], items := []\<rparr>)"
proof -
  from assms(2,3) have
    a: "address_fits (shippingAddress o')" "address_ok (shippingAddress o')"
       "address_fits (billingAddress o')" "address_ok (billingAddress o')"
       "payment_ok (order_payment o')" "status_IsValid (order_status o')"
       "utf16_units (paymentToken (order_payment o')) \<le> 64" "int32 (paymentMethod (order_payment o'))"
       "utf16_units (cardLast4 (order_payment o')) \<le> 4" "order_id o' \<noteq> 0" "customerID o' \<noteq> 0"
    by (auto simp: order_ok_def order_fits_def)
  obtain sh where sh: "address_columns S (shippingAddress o') = Some sh"
      "scan_address sh = Inr (shippingAddress o')"
    using scan_address_columns [OF assms(1) a(1,2)] .
  obtain bi where bi: "address_columns S (billingAddress o') = Some bi"
      "scan_address bi = Inr (billingAddress o')"
    using scan_address_columns [OF assms(1) a(3,4)] .
  obtain tok l m where p: "payment_columns S (order_payment o') = Some (tok, l, m)"
      "scanPayment tok l m = Inr (order_payment o')"
    using scan_payment_columns [OF assms(1) a(5,7,8,9)] .
  show ?thesis
    by (rule that [of "\<lparr>or_Id = order_id o', or_CustomerId = customerID o',
        or_Status = status_String (order_status o'), or_Shipping = sh, or_Billing = bi,
        or_PaymentToken = tok, or_CardLast4 = l, or_PaymentMethod = m, or_CreatedAt = t\<rparr>"])
      (simp_all add: order_columns_def sh bi p sqlserver_okD(1) [OF assms(1)] status_String_short
        scanOrder_def id_defs a ParseOrderStatus_String Restore_def newOrder_def)
qed

lemma scan_item_columns:
  assumes "sqlserver_ok S" "item_fits i" "item_OrderID i = oid" "oid \<noteq> 0"
  shows "\<exists>r. item_columns S oid i = Some r \<and> scanOrderItem r = Inr i \<and> ir_Id r = item_ID i"
  using assms
  by (auto simp: item_columns_def column_int_def item_fits_def int32_def sqlserver_okD
      scanOrderItem_def id_defs)

lemma item_columns_map:
  assumes "sqlserver_ok S" "list_all item_fits is" "list_all (item_ok oid) is" "oid \<noteq> 0"
    and "map (item_columns S oid) is = map Some rs"
  shows "map scanOrderItem rs = map Inr is \<and> map ir_Id rs = map item_ID is"
  using assms(2,3,5)
proof (induction "is" arbitrary: rs)
  case Nil
  then show ?case by simp
next
  case (Cons i "is")
  then obtain r rs' where rs: "rs = r # rs'" "item_columns S oid i = Some r"
      "map (item_columns S oid) is = map Some rs'" by (cases rs) auto
  have "scanOrderItem r = Inr i \<and> ir_Id r = item_ID i"
    using scan_item_columns [OF assms(1), of i oid] Cons.prems rs(2) assms(4)
    by (auto simp: item_ok_def)
  with Cons rs show ?case by simp
qed

text \<open>Sorting rows by the rank of their id and reading them gives the lines sorted the same way.\<close>

lemma sort_key_map:
  assumes "\<And>x. x \<in> set xs \<Longrightarrow> f' (h x) = f x"
  shows "map h (sort_key f xs) = sort_key f' (map h xs)"
  using assms
proof (induction xs)
  case Nil
  then show ?case by simp
next
  case (Cons a xs)
  have "map h (insort_key f a ys) = insort_key f' (h a) (map h ys)"
    if "\<And>x. x \<in> set (a # ys) \<Longrightarrow> f' (h x) = f x" for ys
    using that by (induction ys) auto
  from this [of "sort_key f xs"] Cons show ?case by simp
qed

lemma find_merge:
  assumes "distinct (map or_Id rows)"
  shows "\<exists>t. find_order (or_Id r) (merge_order r rows) = Some (r\<lparr>or_CreatedAt := t\<rparr>)"
proof (cases "find_order (or_Id r) rows")
  case None
  then have "find_order (or_Id r) (merge_order r rows) = Some r"
    by (auto simp: merge_order_def find_order_def find_append)
  then show ?thesis by (intro exI [of _ "or_CreatedAt r"]) simp
next
  case (Some r0)
  have "\<exists>t. find (\<lambda>r'. or_Id r' = or_Id r)
      (map (\<lambda>r'. if or_Id r' = or_Id r then r\<lparr>or_CreatedAt := or_CreatedAt r'\<rparr> else r') rs)
      = Some (r\<lparr>or_CreatedAt := t\<rparr>)" if "or_Id r \<in> or_Id ` set rs" for rs
    using that by (induction rs) auto
  moreover have "or_Id r \<in> or_Id ` set rows" using find_order_Some [OF Some] by (metis imageI)
  ultimately show ?thesis using Some by (simp add: merge_order_def find_order_def)
qed

lemma merge_other:
  "oid \<noteq> or_Id r \<Longrightarrow> find_order oid (merge_order r rows) = find_order oid rows"
proof -
  assume ne: "oid \<noteq> or_Id r"
  have "find (\<lambda>r'. or_Id r' = oid)
      (map (\<lambda>r'. if or_Id r' = or_Id r then r\<lparr>or_CreatedAt := or_CreatedAt r'\<rparr> else r') rs)
      = find (\<lambda>r'. or_Id r' = oid) rs" for rs
    using ne by (induction rs) auto
  with ne show ?thesis
    by (auto simp: merge_order_def find_order_def find_append split: option.splits)
qed

definition loaded :: "sqlserver \<Rightarrow> order \<Rightarrow> order" where
  "loaded S o' = o'\<lparr>events := [], items := sort_key (\<lambda>i. guid_rank S (item_ID i)) (items o')\<rparr>"

lemma itemsFor_saved:
  assumes "sqlserver_ok S" "order_ok o'" "order_fits o'" "saved S o' db db'" "outcomes E = []"
  shows "itemsFor S (order_id o') (E, db') =
    (Inr (sort_key (\<lambda>i. guid_rank S (item_ID i)) (items o')), E, db')"
proof -
  from assms(4) obtain rs where
    rs: "map (item_columns S (order_id o')) (items o') = map Some rs"
        "OrderItems db' = filter (\<lambda>r. ir_OrderId r \<noteq> order_id o') (OrderItems db) @ rs"
    by (auto simp: saved_def)
  have "\<forall>r \<in> set rs. ir_OrderId r = order_id o'"
  proof
    fix r assume "r \<in> set rs"
    then have "Some r \<in> set (map (item_columns S (order_id o')) (items o'))"
      unfolding rs(1) by simp
    then show "ir_OrderId r = order_id o'" by (auto dest!: item_columns_ids [OF sym])
  qed
  then have f: "filter (\<lambda>r. ir_OrderId r = order_id o') (OrderItems db') = rs"
    by (simp add: rs(2))
  have m: "map scanOrderItem rs = map Inr (items o')"
    using assms(2,3) by (intro item_columns_map [OF assms(1) _ _ _ rs(1), THEN conjunct1])
      (auto simp: order_ok_def order_fits_def)
  let ?g = "\<lambda>r. projr (scanOrderItem r)"
  have g: "map ?g rs = items o'" using arg_cong [OF m, of "map projr"] by (simp add: comp_def)
  have s: "scanOrderItem r = Inr (?g r) \<and> item_ID (?g r) = ir_Id r" if "r \<in> set rs" for r
  proof -
    from that have "scanOrderItem r \<in> set (map Inr (items o'))"
      unfolding m [symmetric] by simp
    then obtain i where "scanOrderItem r = Inr i" by auto
    then show ?thesis by (auto simp: scanOrderItem_def try_res_Inr id_defs split: if_splits)
  qed
  have "map_err scanOrderItem (item_rows S (order_id o') db')
      = Inr (map ?g (item_rows S (order_id o') db'))"
    by (rule map_err_all) (use s f in \<open>auto simp: item_rows_def\<close>)
  also have "map ?g (item_rows S (order_id o') db') = sort_key (\<lambda>i. guid_rank S (item_ID i)) (items o')"
    unfolding g [symmetric] item_rows_def f by (rule sort_key_map) (use s in auto)
  finally show ?thesis
    using assms(5) by (simp add: itemsFor_def andthen_def on_err_def query_ok of_res_def)
qed

lemma ByID_saved:
  assumes "sqlserver_ok S" "order_ok o'" "order_fits o'" "saved S o' db db'"
    and "distinct (map or_Id (Orders db))" "outcomes E = []"
  shows "ByID S (order_id o') (E, db') = (Inr (loaded S o'), E, db')"
proof -
  from assms(4) obtain r t where
    r: "order_columns S o' t = Some r" "Orders db' = merge_order r (Orders db)"
    by (auto simp: saved_def)
  from order_columns_ids [OF r(1)] have oid: "or_Id r = order_id o'" by simp
  from find_merge [OF assms(5), of r] obtain t' where
    f: "find_order (order_id o') (Orders db') = Some (r\<lparr>or_CreatedAt := t'\<rparr>)"
    unfolding oid r(2) by blast
  obtain r2 where r2: "order_columns S o' t = Some r2"
      "scanOrder (r2\<lparr>or_CreatedAt := t'\<rparr>) = Inr (o'\<lparr>events := [], items := []\<rparr>)"
    using scan_order_columns [OF assms(1-3)] .
  with r(1) have "scanOrder (r\<lparr>or_CreatedAt := t'\<rparr>) = Inr (o'\<lparr>events := [], items := []\<rparr>)" by simp
  then show ?thesis
    using itemsFor_saved [OF assms(1-4,6)] f assms(6)
    by (simp add: ByID_def andthen_def on_err_def query_ok of_res_def ret_def withItems_def
        Restore_def newOrder_def loaded_def)
qed

lemma TotalPrice_loaded: "TotalPrice (loaded S o') = TotalPrice o'"
proof -
  have "sum_list (map line_amount (sort_key f xs)) = sum_list (map line_amount xs)"
    for f :: "order_item \<Rightarrow> nat" and xs
    unfolding sum_mset_sum_list [symmetric] mset_map by simp
  then show ?thesis
    unfolding TotalPrice_eq loaded_def by simp
qed

section \<open>Success\<close>

text \<open>Without failures a save whose references exist goes through.\<close>

lemma call_ok_Inr: "outcomes E = [] \<Longrightarrow> stmt (now E) s = (Inr x, s') \<Longrightarrow> call stmt (E, s) = (Inr x, E, s')"
  by (simp add: call_ok)

lemma on_err_ok: "m w = (Inr x, w') \<Longrightarrow> on_err g m w = (Inr x, w')"
  by (simp add: on_err_def)

lemma insertOrderItems_ok:
  assumes "sqlserver_ok S" "list_all item_fits is" "list_all (item_ok oid) is" "oid \<noteq> 0"
    and "outcomes E = []" "distinct (map item_ID is)"
    and "set (map item_ID is) \<inter> ir_Id ` set (OrderItems db) = {}"
    and "find_order oid (Orders db) \<noteq> None" "\<forall>i \<in> set is. Products db (item_ProductID i) \<noteq> None"
  shows "\<exists>rs. for_each (insertOrderItem S oid) is (E, db) = (Inr (), E, db\<lparr>OrderItems := OrderItems db @ rs\<rparr>)
           \<and> map ir_Id rs = map item_ID is"
  using assms(2,3,6-9)
proof (induction "is" arbitrary: db)
  case Nil
  then show ?case by (auto intro: exI [of _ "[]"])
next
  case (Cons i "is")
  then obtain r where r: "item_columns S oid i = Some r" "ir_Id r = item_ID i"
    using scan_item_columns [OF assms(1), of i oid] assms(4) by (auto simp: item_ok_def)
  with item_columns_ids [OF r(1)] Cons.prems have
    "insertOrderItem S oid i (E, db) = (Inr (), E, db\<lparr>OrderItems := OrderItems db @ [r]\<rparr>)"
    unfolding insertOrderItem_def
    by (intro on_err_ok call_ok_Inr [OF assms(5)]) (auto simp: insert_item_stmt_def)
  moreover have "\<exists>rs. for_each (insertOrderItem S oid) is (E, db\<lparr>OrderItems := OrderItems db @ [r]\<rparr>)
      = (Inr (), E, db\<lparr>OrderItems := (OrderItems db @ [r]) @ rs\<rparr>) \<and> map ir_Id rs = map item_ID is"
    using Cons.IH [of "db\<lparr>OrderItems := OrderItems db @ [r]\<rparr>"] Cons.prems r by auto
  ultimately obtain rs where
    "for_each (insertOrderItem S oid) (i # is) (E, db) = (Inr (), E, db\<lparr>OrderItems := OrderItems db @ (r # rs)\<rparr>)"
    "map ir_Id rs = map item_ID is"
    by (auto simp: andthen_def)
  with r(2) show ?case by (intro exI [of _ "r # rs"]) simp
qed

definition references_exist :: "order \<Rightarrow> ordering_db \<Rightarrow> bool" where
  "references_exist o' db \<longleftrightarrow>
     Customers db (customerID o') \<noteq> None \<and>
     (\<forall>i \<in> set (items o'). Products db (item_ProductID i) \<noteq> None) \<and>
     distinct (map item_ID (items o')) \<and>
     set (map item_ID (items o')) \<inter> ir_Id ` {r \<in> set (OrderItems db). ir_OrderId r \<noteq> order_id o'} = {}"

lemma saveOrder_ok:
  assumes "sqlserver_ok S" "order_ok o'" "order_fits o'" "references_exist o' db" "outcomes E = []"
  shows "\<exists>db3. OutboxMessages db3 = OutboxMessages db \<and>
    saveOrder S m o' (E, db) = stageEvents S m o' (E, db3)"
proof -
  from assms(2,3) have a: "order_id o' \<noteq> 0" "list_all item_fits (items o')"
      "list_all (item_ok (order_id o')) (items o')"
    by (auto simp: order_ok_def order_fits_def)
  obtain r where r: "order_columns S o' (column_time S (now E)) = Some r"
    using scan_order_columns [OF assms(1-3)] .
  from order_columns_ids [OF this] have rid: "or_Id r = order_id o'" by simp
  let ?db1 = "db\<lparr>Orders := merge_order r (Orders db)\<rparr>"
  let ?db2 = "clear_items (order_id o') ?db1"
  have 1: "upsertOrder S o' (E, db) = (Inr (), E, ?db1)"
    unfolding upsertOrder_def
    using assms(4) by (intro on_err_ok call_ok_Inr [OF assms(5)])
      (auto simp: upsert_stmt_def r references_exist_def)
  have 2: "on_err g (update (\<lambda>t. clear_items (order_id o'))) (E, ?db1) = (Inr (), E, ?db2)" for g
    by (intro on_err_ok) (simp add: update_ok [OF assms(5)])
  have "order_id o' \<in> or_Id ` set (merge_order r (Orders db))"
    unfolding merge_order_id_set rid by (rule insertI1)
  then have f: "find_order (order_id o') (Orders ?db2) \<noteq> None"
    by (simp only: find_order_None clear_items_def) simp
  have i: "distinct (map item_ID (items o'))"
    "set (map item_ID (items o')) \<inter> ir_Id ` set (OrderItems ?db2) = {}"
    "\<forall>i \<in> set (items o'). Products ?db2 (item_ProductID i) \<noteq> None"
    using assms(4) by (auto simp: references_exist_def clear_items_def)
  obtain rs where
    3: "for_each (insertOrderItem S (order_id o')) (items o') (E, ?db2)
          = (Inr (), E, ?db2\<lparr>OrderItems := OrderItems ?db2 @ rs\<rparr>)"
    using insertOrderItems_ok [OF assms(1) a(2,3,1) assms(5) i(1,2) f i(3)] by (elim exE conjE)
  show ?thesis
    by (rule exI [of _ "?db2\<lparr>OrderItems := OrderItems ?db2 @ rs\<rparr>"])
      (simp add: saveOrder_def andthen_def 1 2 3 del: for_each.simps, simp add: clear_items_def)
qed

lemma inTx_ok:
  "outcomes E = [] \<Longrightarrow> body (E, s) = (Inr x, E2, s2) \<Longrightarrow> outcomes E2 = [] \<Longrightarrow>
     inTx body (E, s) = (Inr x, E2, s2)"
  unfolding inTx_def by (rule transaction_ok)

lemma Save_ok:
  assumes "sqlserver_ok S" "order_ok o'" "order_fits o'" "references_exist o' db" "outcomes E = []"
    and "\<And>db3. OutboxMessages db3 = OutboxMessages db \<Longrightarrow>
           \<exists>E4 db4. stageEvents S m o' (E, db3) = (Inr (), E4, db4) \<and> outcomes E4 = []"
  shows "\<exists>E' db'. Save S m o' (E, db) = (Inr (o'\<lparr>events := []\<rparr>), E', db') \<and> outcomes E' = []"
proof -
  from saveOrder_ok [OF assms(1-5), of m] obtain db3 where
    d: "OutboxMessages db3 = OutboxMessages db" "saveOrder S m o' (E, db) = stageEvents S m o' (E, db3)"
    by blast
  from assms(6) [OF d(1)] obtain E4 db4 where
    4: "stageEvents S m o' (E, db3) = (Inr (), E4, db4)" "outcomes E4 = []" by blast
  have "inTx (saveOrder S m o') (E, db) = (Inr (), E4, db4)"
    by (rule inTx_ok [OF assms(5) _ 4(2)]) (simp add: d(2) 4(1))
  with 4(2) show ?thesis
    by (simp add: Save_def andthen_def PullEvents_def ret_def)
qed

text \<open>Without failures a placement whose values fit goes through.\<close>

definition product_fits :: "product \<Rightarrow> bool" where
  "product_fits p \<longleftrightarrow>
     utf16_units (product_Name p) \<le> 100 \<and> is_cents (product_Price p) \<and> \<bar>product_Price p\<bar> < 10 ^ 16"

definition customer_fits :: "customer \<Rightarrow> bool" where
  "customer_fits c \<longleftrightarrow> utf16_units (customer_Name c) \<le> 100 \<and> utf16_units (customer_Email c) \<le> 255"

lemma addProductIfUnknown_ok:
  assumes "sqlserver_ok S" "product_fits p" "outcomes E = []"
  shows "\<exists>qs. addProductIfUnknown S p (E, db) = (Inr (), E, db\<lparr>Products := qs\<rparr>)"
proof (cases "Products db (product_ID p)")
  case None
  with assms have
    "add_product_stmt S p t db = (Inr (), db\<lparr>Products := (Products db)(product_ID p \<mapsto>
        \<lparr>pr_Name = product_Name p, pr_Price = product_Price p\<rparr>)\<rparr>)" for t
    by (simp add: add_product_stmt_def product_fits_def sqlserver_okD)
  then show ?thesis
    unfolding addProductIfUnknown_def by (blast intro: on_err_ok call_ok_Inr [OF assms(3)])
next
  case (Some row)
  then have "add_product_stmt S p t db = (Inr (), db\<lparr>Products := Products db\<rparr>)" for t
    by (simp add: add_product_stmt_def)
  then show ?thesis
    unfolding addProductIfUnknown_def by (blast intro: on_err_ok call_ok_Inr [OF assms(3)])
qed

lemma add_products_ok:
  assumes "sqlserver_ok S" "outcomes E = []" "list_all product_fits ps"
  shows "\<exists>qs. add_products S seen ps (E, db) = (Inr (), E, db\<lparr>Products := qs\<rparr>)"
  using assms(3)
proof (induction ps arbitrary: seen db)
  case Nil
  have "db = db\<lparr>Products := Products db\<rparr>" by simp
  then show ?case by (auto intro: exI [of _ "Products db"])
next
  case (Cons p ps)
  show ?case
  proof (cases "product_ID p \<in> seen")
    case True
    with Cons show ?thesis by simp
  next
    case False
    obtain q1 where q1: "addProductIfUnknown S p (E, db) = (Inr (), E, db\<lparr>Products := q1\<rparr>)"
      using addProductIfUnknown_ok [OF assms(1) _ assms(2)] Cons.prems by auto
    obtain q2 where "add_products S (insert (product_ID p) seen) ps (E, db\<lparr>Products := q1\<rparr>)
        = (Inr (), E, db\<lparr>Products := q1\<rparr>\<lparr>Products := q2\<rparr>)"
      using Cons.IH [of "insert (product_ID p) seen" "db\<lparr>Products := q1\<rparr>"] Cons.prems by auto
    with False q1 show ?thesis
      by (intro exI [of _ q2]) (simp add: andthen_def)
  qed
qed

lemma Place_ok:
  assumes "sqlserver_ok S" "order_ok o'" "order_fits o'" "outcomes E = []"
    and "customer_fits c" "customer_ID c = customerID o'" "list_all product_fits ps"
    and "item_ProductID ` set (items o') \<subseteq> product_ID ` set ps"
    and "distinct (map item_ID (items o'))"
    and "set (map item_ID (items o')) \<inter> ir_Id ` {r \<in> set (OrderItems db). ir_OrderId r \<noteq> order_id o'} = {}"
    and "\<And>db3. OutboxMessages db3 = OutboxMessages db \<Longrightarrow>
           \<exists>E4 db4. stageEvents S m o' (E, db3) = (Inr (), E4, db4) \<and> outcomes E4 = []"
  shows "\<exists>E' db'. Place S m o' c ps (E, db) = (Inr (o'\<lparr>events := []\<rparr>), E', db') \<and> outcomes E' = []"
proof -
  let ?db1 = "db\<lparr>Customers := (Customers db)(customer_ID c \<mapsto>
      \<lparr>cr_Name = customer_Name c, cr_Email = customer_Email c\<rparr>)\<rparr>"
  have 1: "saveCustomer S c (E, db) = (Inr (), E, ?db1)"
    unfolding saveCustomer_def
    using assms(5) by (intro on_err_ok call_ok_Inr [OF assms(4)])
      (simp add: save_customer_stmt_def customer_fits_def sqlserver_okD [OF assms(1)])
  obtain qs where 2: "add_products S {} ps (E, ?db1) = (Inr (), E, ?db1\<lparr>Products := qs\<rparr>)"
    using add_products_ok [OF assms(1,4,7)] by blast
  let ?db2 = "?db1\<lparr>Products := qs\<rparr>"
  from add_products_Inr [OF 2] obtain qs' where
    q: "?db2 = ?db1\<lparr>Products := qs'\<rparr>" "\<forall>p \<in> set ps. qs' (product_ID p) \<noteq> None" by auto
  have "qs = qs'" using arg_cong [OF q(1), of Products] by simp
  with q(2) have "\<forall>p \<in> set ps. qs (product_ID p) \<noteq> None" by simp
  with assms(6,8,9,10) have r: "references_exist o' ?db2"
    by (auto simp: references_exist_def)
  from saveOrder_ok [OF assms(1-3) r assms(4), of m] obtain db3 where
    d: "OutboxMessages db3 = OutboxMessages db" "saveOrder S m o' (E, ?db2) = stageEvents S m o' (E, db3)"
    by auto
  from assms(11) [OF d(1)] obtain E4 db4 where
    4: "stageEvents S m o' (E, db3) = (Inr (), E4, db4)" "outcomes E4 = []" by blast
  have "inTx (place_tx S m o' c ps) (E, db) = (Inr (), E4, db4)"
    by (rule inTx_ok [OF assms(4) _ 4(2)]) (simp add: place_tx_def andthen_def 1 2 d(2) 4(1))
  with 4(2) show ?thesis
    by (simp add: Place_def andthen_def PullEvents_def ret_def)
qed

lemma stageEvents_Drop: "stageEvents S DropEvents o' w = (Inr (), w)"
proof -
  have "for_each (\<lambda>ev. andthen (on_err g (DropEvents o' ev))
      (\<lambda>mapped. case mapped of None \<Rightarrow> ret () | Some e \<Rightarrow> insertOutboxMessage S e)) evs w = (Inr (), w)"
    for g evs
    by (induction evs) (simp_all add: andthen_def on_err_def DropEvents_def ret_def)
  then show ?thesis by (simp add: stageEvents_def)
qed

lemma quiet_DropEvents [simp]: "quiet_mapper DropEvents"
  by (simp add: quiet_mapper_def DropEvents_def)

section \<open>A server and tables to run on\<close>

definition sample_sql :: sqlserver where
  "sample_sql =
     \<lparr>column_text = (\<lambda>n s. if utf16_units s \<le> n then Some s else None),
      column_money = (\<lambda>d. if \<bar>d\<bar> < 10 ^ 16 then Some (of_int (round (d * 100)) / 100) else None),
      column_time = (\<lambda>t. t div 100 * 100), guid_rank = unat\<rparr>"

lemma sample_sql_ok: "sqlserver_ok sample_sql"
proof -
  have "of_int (round (d * 100)) / 100 = d" if "is_cents d" for d
    using that by (auto simp: is_cents_def elim!: Ints_cases)
  moreover have "inj (unat :: uuid \<Rightarrow> nat)" by (rule injI) (simp add: word_unat_eq_iff)
  ultimately show ?thesis by (auto simp: sqlserver_ok_def sample_sql_def)
qed

definition sample_order :: order where
  "sample_order =
     (NewOrder 1 2 sample_address sample_address sample_payment)\<lparr>items :=
        [\<lparr>item_ID = 5, item_OrderID = 1, item_ProductID = 8, item_Quantity = 2, item_Price = 3\<rparr>,
         \<lparr>item_ID = 4, item_OrderID = 1, item_ProductID = 8, item_Quantity = 1, item_Price = 7\<rparr>]\<rparr>"

definition sample_db :: ordering_db where
  "sample_db = ordering_db_empty\<lparr>Customers := [2 \<mapsto> \<lparr>cr_Name = ''A'', cr_Email = ''a@b.c''\<rparr>],
     Products := [8 \<mapsto> \<lparr>pr_Name = ''Pen'', pr_Price = 3\<rparr>]\<rparr>"

definition sample_customer :: customer where
  "sample_customer = \<lparr>customer_ID = 2, customer_Name = ''A'', customer_Email = ''a@b.c''\<rparr>"

definition sample_product :: product where
  "sample_product = \<lparr>product_ID = 8, product_Name = ''Pen'', product_Price = 3\<rparr>"

lemma sample_address_props: "address_ok sample_address" "address_fits sample_address"
  using NewAddress_ok [OF sample_address]
  by (simp_all add: address_fits_def sample_address_def byte_in_def)

lemma sample_order_props: "order_ok sample_order" "order_fits sample_order"
    "references_exist sample_order sample_db"
proof -
  have "payment_ok sample_payment" using NewPayment_ok [OF sample_payment] .
  then show "order_ok sample_order"
    by (simp add: order_ok_def sample_order_def NewOrder_def raise_event_def newOrder_def
        sample_address_props status_IsValid_def item_ok_def)
  have "is_cents 3" "is_cents 7" by (simp_all add: is_cents_def)
  then show "order_fits sample_order"
    by (simp add: order_fits_def sample_order_def NewOrder_def raise_event_def newOrder_def
        sample_address_props item_fits_def int32_def sample_payment_def byte_in_def)
  show "references_exist sample_order sample_db"
    by (simp add: references_exist_def sample_order_def sample_db_def ordering_db_empty_def
        NewOrder_def raise_event_def newOrder_def)
qed

section \<open>Sequences of calls on the tables\<close>

datatype store_call =
    CallSave order
  | CallPlace order customer "product list"
  | CallDelete uuid
  | CallByID uuid
  | CallList page_request
  | CallByCustomer uuid
  | CallBegin uuid string
  | CallComplete uuid string

fun store_step :: "sqlserver \<Rightarrow> event_mapper \<Rightarrow> env \<times> ordering_db \<Rightarrow> store_call \<Rightarrow> env \<times> ordering_db" where
  "store_step S m w (CallSave o') = snd (Save S m o' w)"
| "store_step S m w (CallPlace o' c ps) = snd (Place S m o' c ps w)"
| "store_step S m w (CallDelete oid) = snd (Delete oid w)"
| "store_step S m w (CallByID oid) = snd (ByID S oid w)"
| "store_step S m w (CallList p) = snd (List S p w)"
| "store_step S m w (CallByCustomer cid) = snd (ByCustomer S cid w)"
| "store_step S m w (CallBegin mid c) = snd (Begin mid c w)"
| "store_step S m w (CallComplete mid c) = snd (Complete S mid c w)"

lemma quiet_attach_items: "quiet (attach_items S os)"
  by (induction os) (auto simp: itemsFor_def intro!: quiet_andthen)

lemma quiet_collect: "quiet (collect S rows)"
  unfolding collect_def by (intro quiet_andthen quiet_attach_items) simp_all

lemma quiet_list_stmt: "quiet (call (list_stmt S a b))"
  by (rule quietI) (auto simp: list_stmt_def dest!: call_cases split: if_splits)

lemma quiet_reads: "quiet (ByID S oid)" "quiet (List S p)" "quiet (ByCustomer S cid)"
proof -
  show "quiet (ByID S oid)"
    unfolding ByID_def itemsFor_def by (intro quiet_andthen) (auto intro!: quiet_andthen split: option.split)
  show "quiet (List S p)"
    unfolding List_def Let_def
    by (intro quiet_andthen) (auto intro!: quiet_andthen quiet_collect simp: quiet_list_stmt)
  show "quiet (ByCustomer S cid)"
    unfolding ByCustomer_def by (intro quiet_andthen quiet_collect) simp
qed

lemma keeps_snd: "keeps P m \<Longrightarrow> P (snd w) \<Longrightarrow> P (snd (snd (m w)))"
  by (cases w; cases "m w") (auto dest: keepsD)

lemma store_step_ok: "quiet_mapper m \<Longrightarrow> db_ok (snd w) \<Longrightarrow> db_ok (snd (store_step S m w c))"
  by (cases c) (simp_all add: keeps_snd keeps_Save keeps_Place keeps_Delete keeps_inbox
      quiet_keeps quiet_reads)

lemma store_steps_ok:
  "quiet_mapper m \<Longrightarrow> db_ok (snd w) \<Longrightarrow> db_ok (snd (foldl (store_step S m) w cs))"
  by (induction cs arbitrary: w) (simp_all add: store_step_ok)

lemma db_ok_empty: "db_ok ordering_db_empty"
  by (simp add: db_ok_def ordering_db_empty_def)

lemma saved_frame:
  assumes "saved S o' db db'" "oid \<noteq> order_id o'"
  shows "find_order oid (Orders db') = find_order oid (Orders db) \<and>
    filter (\<lambda>r. ir_OrderId r = oid) (OrderItems db') = filter (\<lambda>r. ir_OrderId r = oid) (OrderItems db)"
proof -
  from assms(1) obtain r t rs where r: "order_columns S o' t = Some r"
    "map (item_columns S (order_id o')) (items o') = map Some rs"
    "Orders db' = merge_order r (Orders db)"
    "OrderItems db' = filter (\<lambda>r. ir_OrderId r \<noteq> order_id o') (OrderItems db) @ rs"
    by (auto simp: saved_def)
  have "\<forall>r \<in> set rs. ir_OrderId r = order_id o'"
  proof
    fix r assume "r \<in> set rs"
    then have "Some r \<in> set (map (item_columns S (order_id o')) (items o'))"
      unfolding r(2) by simp
    then show "ir_OrderId r = order_id o'" by (auto dest!: item_columns_ids [OF sym])
  qed
  then have "filter (\<lambda>r. ir_OrderId r = oid) rs = []" using assms(2) by (auto simp: filter_empty_conv)
  moreover have "filter (\<lambda>r. ir_OrderId r = oid) (filter (\<lambda>r. ir_OrderId r \<noteq> order_id o') xs)
      = filter (\<lambda>r. ir_OrderId r = oid) xs" for xs
    using assms(2) by (induction xs) auto
  ultimately show ?thesis
    using order_columns_ids [OF r(1)] assms(2) by (simp add: r(3,4) merge_other)
qed

section \<open>Properties\<close>



text \<open>
  C5. Placing a checkout's order is all or nothing in the same way, over the customer, the products
  and the order together. A product that was known keeps its name and price, every product of the
  checkout is known afterwards, and the customer's row is what this checkout said.
\<close>

theorem place_all_or_nothing:
  assumes "quiet_mapper m" "Place S m o' c ps (E, db) = (res, E', db')"
  shows "(db' = db \<or> placed S o' c ps db db' \<and> Products db \<subseteq>\<^sub>m Products db' \<and>
           product_ID ` set ps \<subseteq> dom (Products db') \<and> customer_ID c \<in> dom (Customers db')) \<and>
    (case res of Inr o2 \<Rightarrow> placed S o' c ps db db' \<and> o2 = o'\<lparr>events := []\<rparr> | Inl e \<Rightarrow> True)"
proof -
  have "Products db \<subseteq>\<^sub>m Products db' \<and> product_ID ` set ps \<subseteq> dom (Products db') \<and>
      customer_ID c \<in> dom (Customers db')" if "placed S o' c ps db db'"
    using that by (auto simp: placed_def saved_def dom_def)
  with Place_cases [OF assms] show ?thesis by (auto split: sum.split)
qed

theorem place_all_or_nothing_witness:
  "\<exists>E' db'. Place sample_sql DropEvents sample_order sample_customer [sample_product]
        (sample_env, ordering_db_empty) = (Inr (sample_order\<lparr>events := []\<rparr>), E', db') \<and>
      product_ID ` set [sample_product] \<subseteq> dom (Products db')"
proof -
  have fits: "customer_fits sample_customer" "list_all product_fits [sample_product]"
    by (simp_all add: customer_fits_def product_fits_def sample_customer_def sample_product_def
        is_cents_def byte_in_def)
  obtain E' db' where
    s: "Place sample_sql DropEvents sample_order sample_customer [sample_product]
        (sample_env, ordering_db_empty) = (Inr (sample_order\<lparr>events := []\<rparr>), E', db')"
    using Place_ok [OF sample_sql_ok sample_order_props(1,2) sample_env_ok fits(1) _ fits(2),
        of ordering_db_empty DropEvents] stageEvents_Drop
    by (fastforce simp: sample_customer_def sample_product_def sample_order_def NewOrder_def
        raise_event_def newOrder_def ordering_db_empty_def)
  from place_all_or_nothing [OF quiet_DropEvents s]
  have "placed sample_sql sample_order sample_customer [sample_product] ordering_db_empty db'" by simp
  with s show ?thesis by (auto simp: placed_def saved_def dom_def)
qed



text \<open>
  C7. An order that was saved is loaded back as it was: the same customer, addresses, payment,
  status and lines, the lines in the order of their ids and without the events, and with the same
  total.
\<close>

theorem load_after_save:
  assumes "sqlserver_ok S" "quiet_mapper m" "order_ok o'" "order_fits o'" "db_ok db"
    and "Save S m o' (E, db) = (Inr o2, E', db')" "outcomes E2 = []"
  shows "\<exists>o3. ByID S (order_id o') (E2, db') = (Inr o3, E2, db') \<and>
    o3 = o'\<lparr>events := [], items := sort_key (\<lambda>i. guid_rank S (item_ID i)) (items o')\<rparr> \<and>
    mset (items o3) = mset (items o') \<and> TotalPrice o3 = TotalPrice o'"
proof -
  have s: "saved S o' db db'" using Save_cases(2) [OF assms(2,6) refl] by simp
  have "distinct (map or_Id (Orders db))" using assms(5) by (simp add: db_ok_def)
  from ByID_saved [OF assms(1,3,4) s this assms(7)] TotalPrice_loaded [of S o'] show ?thesis
    by (simp add: loaded_def)
qed

theorem load_after_save_witness:
  "\<exists>E' db' o3. Save sample_sql DropEvents sample_order (sample_env, sample_db)
      = (Inr (sample_order\<lparr>events := []\<rparr>), E', db') \<and>
    ByID sample_sql 1 (sample_env, db') = (Inr o3, sample_env, db') \<and> TotalPrice o3 = TotalPrice sample_order"
proof -
  obtain E' db' where
    s: "Save sample_sql DropEvents sample_order (sample_env, sample_db)
      = (Inr (sample_order\<lparr>events := []\<rparr>), E', db')"
    using Save_ok [OF sample_sql_ok sample_order_props sample_env_ok, of DropEvents]
      stageEvents_Drop by fastforce
  have d: "db_ok sample_db" by (simp add: db_ok_def sample_db_def ordering_db_empty_def)
  have "order_id sample_order = 1" by (simp add: sample_order_def NewOrder_def raise_event_def newOrder_def)
  with load_after_save [OF sample_sql_ok quiet_DropEvents sample_order_props(1,2) d s sample_env_ok] s
  show ?thesis by auto
qed

end
