(* ===== verification/Integration.thy ===== *)
theory Integration
  imports Ordering_Store_Facts
begin

text \<open>
  What Ordering tells the outside: \<open>internal/ordering/integration/integration.go\<close>, the mapping of
  domain events to the contracts that are stored in the outbox.
\<close>

section \<open>The mapper\<close>

text \<open>The correlation id of the request is a parameter: it comes with the request's context.\<close>

definition order_lines :: "order \<Rightarrow> order_line list" where
  "order_lines o' =
     map (\<lambda>i. \<lparr>ol_ProductID = item_ProductID i, ol_Quantity = item_Quantity i, ol_Price = item_Price i\<rparr>)
       (items o')"

definition order_envelope :: "texts \<Rightarrow> integration_event \<Rightarrow> order \<Rightarrow> go_error + envelope option" where
  "order_envelope T ev o' = map_sum id Some (NewEnvelope T ev (uuid_text T (order_id o')))"

definition Mapper :: "texts \<Rightarrow> bool \<Rightarrow> string \<Rightarrow> event_mapper" where
  "Mapper T fulfillOrders correlationID o' ev =
     andthen new_uuid (\<lambda>new_id.
     andthen time_now (\<lambda>t.
       let header = NewHeader new_id t correlationID in
       case ev of
         OrderCreated \<Rightarrow>
           if \<not> fulfillOrders then ret None
           else of_res (order_envelope T
             (OrderCreatedV2
               \<lparr>oc_Header = header, oc_OrderID = order_id o', oc_CustomerID = customerID o',
                oc_Status = status_String (order_status o'), oc_TotalPrice = TotalPrice o',
                oc_Items = order_lines o'\<rparr>) o')
       | OrderUpdated \<Rightarrow>
           of_res (order_envelope T
             (OrderUpdatedV2
               \<lparr>ou_Header = header, ou_OrderID = order_id o', ou_CustomerID = customerID o',
                ou_Status = status_String (order_status o'), ou_TotalPrice = TotalPrice o'\<rparr>) o')))"

text \<open>The contracts this service publishes.\<close>

definition integration_Registry :: "registry option" where
  "integration_Registry = orderingv2_Register NewRegistry"

lemma quiet_Mapper [simp]: "quiet_mapper (Mapper T f c)"
  unfolding quiet_mapper_def Mapper_def
  by (auto intro!: quiet_andthen simp: Let_def split: event.split)

lemma throws_order_envelope: "order_envelope T ev o' = Inl e \<Longrightarrow> \<exists>m. e = Plain m"
  by (auto simp: order_envelope_def NewEnvelope_def Let_def split: if_splits)

lemma throws_Mapper: "(\<And>m. Q (Plain m)) \<Longrightarrow> throws Q (Mapper T f c o' ev)"
  unfolding Mapper_def Let_def
  by (intro throw_intro) (auto intro!: throw_intro dest!: throws_order_envelope split: event.split)

section \<open>What a created order announces\<close>

definition created_event :: "header \<Rightarrow> order \<Rightarrow> integration_event" where
  "created_event h o' = OrderCreatedV2
     \<lparr>oc_Header = h, oc_OrderID = order_id o', oc_CustomerID = customerID o',
      oc_Status = status_String (order_status o'), oc_TotalPrice = TotalPrice o',
      oc_Items = order_lines o'\<rparr>"

definition updated_event :: "header \<Rightarrow> order \<Rightarrow> integration_event" where
  "updated_event h o' = OrderUpdatedV2
     \<lparr>ou_Header = h, ou_OrderID = order_id o', ou_CustomerID = customerID o',
      ou_Status = status_String (order_status o'), ou_TotalPrice = TotalPrice o'\<rparr>"

text \<open>The event of an order that an outbox row carries.\<close>

definition announces :: "sqlserver \<Rightarrow> texts \<Rightarrow> order \<Rightarrow> event \<Rightarrow> outbox_row \<Rightarrow> bool" where
  "announces S T o' ev row \<longleftrightarrow>
     (\<exists>h e. NewEnvelope T (case ev of OrderCreated \<Rightarrow> created_event h o' | OrderUpdated \<Rightarrow> updated_event h o')
              (uuid_text T (order_id o')) = Inr e \<and> outbox_columns S e = Some row)"

lemma stage_one:
  assumes "andthen (on_err g (Mapper T f c o' ev))
      (\<lambda>mapped. case mapped of None \<Rightarrow> ret () | Some e \<Rightarrow> insertOutboxMessage S e) (E, db) = (Inr u, E', db')"
  shows "if ev = OrderCreated \<and> \<not> f then db' = db
    else \<exists>row. announces S T o' ev row \<and> db' = db\<lparr>OutboxMessages := OutboxMessages db @ [row]\<rparr>"
proof -
  from assms obtain mapped E1 db1 where
    1: "Mapper T f c o' ev (E, db) = (Inr mapped, E1, db1)" and
    2: "(case mapped of None \<Rightarrow> ret () | Some e \<Rightarrow> insertOutboxMessage S e) (E1, db1) = (Inr u, E', db')"
    by (auto simp: andthen_Inr on_err_Inr)
  have db1: "db1 = db"
    using quiet_Mapper [of T f c] 1 by (auto simp: quiet_mapper_def dest: quietD)
  have m: "if ev = OrderCreated \<and> \<not> f then mapped = None
      else \<exists>h e. mapped = Some e \<and>
        NewEnvelope T (case ev of OrderCreated \<Rightarrow> created_event h o' | OrderUpdated \<Rightarrow> updated_event h o')
          (uuid_text T (order_id o')) = Inr e"
    using 1
    by (cases ev)
      (auto simp: Mapper_def andthen_Inr Let_def order_envelope_def created_event_def updated_event_def
        map_sum_Inr split: if_splits)
  show ?thesis
  proof (cases "ev = OrderCreated \<and> \<not> f")
    case True
    with m 2 db1 show ?thesis by simp
  next
    case False
    with m obtain h e where e: "mapped = Some e"
      "NewEnvelope T (case ev of OrderCreated \<Rightarrow> created_event h o' | OrderUpdated \<Rightarrow> updated_event h o')
        (uuid_text T (order_id o')) = Inr e" by auto
    with 2 db1 have "insertOutboxMessage S e (E1, db) = (Inr u, E', db')" by simp
    from insertOutboxMessage_Inr [OF this] e False show ?thesis
      unfolding announces_def by auto
  qed
qed

fun announced_rows :: "sqlserver \<Rightarrow> texts \<Rightarrow> bool \<Rightarrow> order \<Rightarrow> event list \<Rightarrow> outbox_row list \<Rightarrow> bool" where
  "announced_rows S T f o' [] rows \<longleftrightarrow> rows = []"
| "announced_rows S T f o' (ev # evs) rows \<longleftrightarrow>
     (if ev = OrderCreated \<and> \<not> f then announced_rows S T f o' evs rows
      else case rows of [] \<Rightarrow> False | row # rest \<Rightarrow> announces S T o' ev row \<and> announced_rows S T f o' evs rest)"

lemma stage_all:
  assumes "for_each (\<lambda>ev. andthen (on_err g (Mapper T f c o' ev))
      (\<lambda>mapped. case mapped of None \<Rightarrow> ret () | Some e \<Rightarrow> insertOutboxMessage S e)) evs (E, db)
    = (Inr u, E', db')"
  shows "\<exists>rows. announced_rows S T f o' evs rows \<and> db' = db\<lparr>OutboxMessages := OutboxMessages db @ rows\<rparr>"
  using assms
proof (induction evs arbitrary: E db)
  case Nil
  then show ?case by simp
next
  case (Cons ev evs)
  from Cons.prems [unfolded for_each_Inr_Cons] obtain E1 db1 where
    1: "andthen (on_err g (Mapper T f c o' ev))
      (\<lambda>mapped. case mapped of None \<Rightarrow> ret () | Some e \<Rightarrow> insertOutboxMessage S e) (E, db) = (Inr (), E1, db1)"
    and 2: "for_each (\<lambda>ev. andthen (on_err g (Mapper T f c o' ev))
      (\<lambda>mapped. case mapped of None \<Rightarrow> ret () | Some e \<Rightarrow> insertOutboxMessage S e)) evs (E1, db1) = (Inr u, E', db')"
    by auto
  from Cons.IH [OF 2] obtain rows where
    r: "announced_rows S T f o' evs rows" "db' = db1\<lparr>OutboxMessages := OutboxMessages db1 @ rows\<rparr>" by blast
  show ?case
  proof (cases "ev = OrderCreated \<and> \<not> f")
    case True
    with stage_one [OF 1] r show ?thesis by auto
  next
    case False
    with stage_one [OF 1] obtain row where
      "announces S T o' ev row" "db1 = db\<lparr>OutboxMessages := OutboxMessages db @ [row]\<rparr>" by auto
    with False r have "announced_rows S T f o' (ev # evs) (row # rows) \<and>
        db' = db\<lparr>OutboxMessages := OutboxMessages db @ (row # rows)\<rparr>" by auto
    then show ?thesis by blast
  qed
qed

lemma saveOrder_announces:
  assumes "saveOrder S (Mapper T f c) o' (E, db) = (Inr u, E', db')"
  shows "\<exists>rows. announced_rows S T f o' (events o') rows \<and> OutboxMessages db' = OutboxMessages db @ rows"
proof -
  from assms obtain E1 db1 E2 db2 E3 db3 where
    1: "upsertOrder S o' (E, db) = (Inr (), E1, db1)" and
    2: "update (\<lambda>t. clear_items (order_id o')) (E1, db1) = (Inr (), E2, db2)" and
    3: "for_each (insertOrderItem S (order_id o')) (items o') (E2, db2) = (Inr (), E3, db3)" and
    4: "stageEvents S (Mapper T f c) o' (E3, db3) = (Inr u, E', db')"
    by (auto simp: saveOrder_def andthen_Inr on_err_Inr)
  have "OutboxMessages db3 = OutboxMessages db"
    using upsertOrder_Inr [OF 1] update_Inr [OF 2] insertOrderItems_Inr [OF 3]
    by (auto simp: clear_items_def)
  with stage_all [OF 4 [unfolded stageEvents_def]] show ?thesis by auto
qed

lemma Save_announces:
  assumes "Save S (Mapper T f c) o' (E, db) = (Inr o2, E', db')"
  shows "\<exists>rows. announced_rows S T f o' (events o') rows \<and> OutboxMessages db' = OutboxMessages db @ rows"
proof -
  from assms obtain u where "inTx (saveOrder S (Mapper T f c) o') (E, db) = (Inr u, E', db')"
    by (auto simp: Save_def andthen_Inr)
  from transaction_Inr [OF this [unfolded inTx_def]] saveOrder_announces show ?thesis by metis
qed

section \<open>Properties\<close>

text \<open>
  C9. A committed save announces exactly what happened: without the switch a created order adds no
  row to the outbox, with it one row whose message carries the order's id, customer, status, lines
  and total; an update always adds one. Several events add their rows in the order they were
  raised.
\<close>

theorem save_announces:
  assumes "Save S (Mapper T f c) o' (E, db) = (Inr o2, E', db')"
  shows "\<exists>rows. OutboxMessages db' = OutboxMessages db @ rows \<and> announced_rows S T f o' (events o') rows \<and>
    length rows = length (filter (\<lambda>ev. f \<or> ev = OrderUpdated) (events o'))"
proof -
  have "announced_rows S T f o' evs rows \<Longrightarrow>
      length rows = length (filter (\<lambda>ev. f \<or> ev = OrderUpdated) evs)" for evs rows
  proof (induction evs arbitrary: rows)
    case Nil
    then show ?case by simp
  next
    case (Cons ev evs)
    then show ?case by (cases ev) (auto split: if_splits list.splits)
  qed
  with Save_announces [OF assms] show ?thesis by blast
qed

lemma char_49: "char_of (49 :: nat) = CHR ''1''"
  by (simp add: char_of_def bit_0)

lemma sample_NewEnvelope:
  "h = NewHeader 100 1000 '''' \<Longrightarrow>
     NewEnvelope sample_texts (created_event h sample_order) (uuid_text sample_texts 1) =
       Inr \<lparr>env_ID = 100, env_Contract = order_created_contract, env_AggregateID = ''1'',
            env_CorrelationID = '''', env_OccurredOnUTC = 1000,
            env_Payload = Marshal sample_texts (created_event h sample_order)\<rparr>"
  by (simp add: NewEnvelope_Inr created_event_def NewHeader_def sample_texts_def nat_text.simps
      char_49)

lemma sample_save_fulfilled:
  "\<exists>E' db'. Save sample_sql (Mapper sample_texts True '''') sample_order (sample_env, sample_db)
    = (Inr (sample_order\<lparr>events := []\<rparr>), E', db') \<and> outcomes E' = []"
proof (rule Save_ok [OF sample_sql_ok sample_order_props sample_env_ok])
  fix db3 :: ordering_db
  assume d: "OutboxMessages db3 = OutboxMessages sample_db"
  have i: "order_id sample_order = 1" "events sample_order = [OrderCreated]"
    by (simp_all add: sample_order_def NewOrder_def raise_event_def newOrder_def)
  have m: "Mapper sample_texts True '''' sample_order OrderCreated (sample_env, db3)
      = (Inr (Some \<lparr>env_ID = 100, env_Contract = order_created_contract, env_AggregateID = ''1'',
            env_CorrelationID = '''', env_OccurredOnUTC = 1000,
            env_Payload = Marshal sample_texts (created_event (NewHeader 100 1000 '''') sample_order)\<rparr>),
         sample_env\<lparr>drawn := 1\<rparr>, db3)"
    using sample_NewEnvelope [OF refl]
    by (simp add: Mapper_def andthen_def new_uuid_def time_now_def sample_env_def of_res_def
        order_envelope_def created_event_def Let_def i)
  show "\<exists>E4 db4. stageEvents sample_sql (Mapper sample_texts True '''') sample_order (sample_env, db3)
      = (Inr (), E4, db4) \<and> outcomes E4 = []"
    by (simp add: stageEvents_def i andthen_def on_err_def m)
      (simp add: insertOutboxMessage_def on_err_def call_def
        next_outcome_def sample_env_def insert_outbox_stmt_def outbox_columns_def column_int_def
        sample_sql_def nullable_def nullable_text_def contract_defs byte_in_def d sample_db_def
        ordering_db_empty_def ret_def)
qed

theorem save_announces_witness:
  "\<exists>E' db' row. Save sample_sql (Mapper sample_texts True '''') sample_order (sample_env, sample_db)
      = (Inr (sample_order\<lparr>events := []\<rparr>), E', db') \<and>
    OutboxMessages db' = [row] \<and> announces sample_sql sample_texts sample_order OrderCreated row"
proof -
  obtain E' db' where
    s: "Save sample_sql (Mapper sample_texts True '''') sample_order (sample_env, sample_db)
      = (Inr (sample_order\<lparr>events := []\<rparr>), E', db')"
    using sample_save_fulfilled by blast
  have "events sample_order = [OrderCreated]"
    by (simp add: sample_order_def NewOrder_def raise_event_def newOrder_def)
  with save_announces [OF s] obtain rows where
    "OutboxMessages db' = OutboxMessages sample_db @ rows"
    "announced_rows sample_sql sample_texts True sample_order [OrderCreated] rows" by metis
  then have "\<exists>row. OutboxMessages db' = OutboxMessages sample_db @ [row] \<and>
      announces sample_sql sample_texts sample_order OrderCreated row"
    by (cases rows) auto
  with s show ?thesis by (auto simp: sample_db_def ordering_db_empty_def)
qed

text \<open>
  C10. What leaves the service does not depend on what must not leave it: the message of an event is
  the same whatever the order's payment and addresses are.
\<close>

theorem messages_carry_no_payment:
  "Mapper T f c (o'\<lparr>order_payment := p, shippingAddress := a, billingAddress := b\<rparr>) ev = Mapper T f c o' ev"
proof -
  have "TotalPrice (o'\<lparr>order_payment := p, shippingAddress := a, billingAddress := b\<rparr>) = TotalPrice o'"
    "order_lines (o'\<lparr>order_payment := p, shippingAddress := a, billingAddress := b\<rparr>) = order_lines o'"
    by (simp_all add: TotalPrice_def order_lines_def)
  then show ?thesis
    by (cases ev; cases f) (simp_all add: Mapper_def order_envelope_def)
qed

end
