(* ===== verification/Inbox.thy ===== *)
theory Inbox
  imports Ordering_Store_Facts
begin

text \<open>
  Deliveries that may repeat: \<open>internal/platform/messaging/inbox/inbox.go\<close>. The store of handled
  messages is an interface; its laws are a locale, in which \<open>Idempotent\<close> is proved to do a message's
  work no more after it finished, and which the inbox table of \<open>internal/ordering/mssql/inbox.go\<close>
  satisfies.
\<close>

section \<open>The store and the wrapper\<close>

record 's inbox_store =
  inbox_Begin :: "uuid \<Rightarrow> string \<Rightarrow> ('s, bool) act"
  inbox_Complete :: "uuid \<Rightarrow> string \<Rightarrow> ('s, unit) act"

type_synonym 's delivery = "envelope \<Rightarrow> ('s, unit) act"

definition Idempotent :: "'s inbox_store \<Rightarrow> string \<Rightarrow> 's delivery \<Rightarrow> 's delivery" where
  "Idempotent store consumer work e =
     (if env_ID e = uuid_nil
      then fail (Plain (contract_msg ''a '' (env_Contract e)
        '' message arrived without an id and cannot be deduplicated; publishers must carry the event id as the message id''))
      else andthen (inbox_Begin store (env_ID e) consumer) (\<lambda>claimed.
             if \<not> claimed then ret ()
             else andthen (work e) (\<lambda>_. inbox_Complete store (env_ID e) consumer)))"

definition mssql_inbox :: "sqlserver \<Rightarrow> ordering_db inbox_store" where
  "mssql_inbox S = \<lparr>inbox_Begin = Begin, inbox_Complete = Complete S\<rparr>"

section \<open>The laws of a store\<close>

text \<open>
  \<open>finished s m c\<close> and \<open>claimed s m c\<close> are what the state knows of a message and a consumer.
\<close>

locale inbox_laws =
  fixes store :: "'s inbox_store"
    and claimed finished :: "'s \<Rightarrow> uuid \<Rightarrow> string \<Rightarrow> bool"
  assumes begin_answer: "inbox_Begin store m c (E, s) = (Inr b, E', s') \<Longrightarrow> b \<longleftrightarrow> \<not> finished s m c"
    and begin_claims: "inbox_Begin store m c (E, s) = (Inr True, E', s') \<Longrightarrow> claimed s' m c"
    and begin_finished: "inbox_Begin store m c (E, s) = (res, E', s') \<Longrightarrow> finished s' = finished s"
    and begin_keeps_claims: "inbox_Begin store m c (E, s) = (res, E', s') \<Longrightarrow> claimed s x y \<Longrightarrow> claimed s' x y"
    and begin_duplicate: "inbox_Begin store m c (E, s) = (Inr False, E', s') \<Longrightarrow> s' = s"
    and complete_finishes: "claimed s m c \<Longrightarrow> inbox_Complete store m c (E, s) = (Inr u, E', s') \<Longrightarrow> finished s' m c"
    and complete_keeps: "inbox_Complete store m c (E, s) = (q, E', s') \<Longrightarrow> finished s x y \<Longrightarrow> finished s' x y"
    and complete_only: "inbox_Complete store m c (E, s) = (q, E', s') \<Longrightarrow> finished s' x y \<Longrightarrow>
        finished s x y \<or> x = m \<and> y = c"
begin

text \<open>The work of the message leaves the records of the inbox alone.\<close>

definition leaves_inbox :: "'s delivery \<Rightarrow> bool" where
  "leaves_inbox d \<longleftrightarrow>
     (\<forall>e E s r E' s'. d e (E, s) = (r, E', s') \<longrightarrow> claimed s' = claimed s \<and> finished s' = finished s)"

lemma delivered_finishes:
  assumes "leaves_inbox d" "Idempotent store c d e (E, s) = (Inr u, E', s')"
  shows "finished s' (env_ID e) c"
proof -
  from assms(2) have "env_ID e \<noteq> 0" by (auto simp: Idempotent_def split: if_splits)
  with assms(2) obtain b E1 s1 where
    1: "inbox_Begin store (env_ID e) c (E, s) = (Inr b, E1, s1)" and
    2: "(if \<not> b then ret () else andthen (d e) (\<lambda>_. inbox_Complete store (env_ID e) c)) (E1, s1)
          = (Inr u, E', s')"
    by (auto simp: Idempotent_def andthen_Inr)
  show ?thesis
  proof (cases b)
    case False
    with 2 begin_answer [OF 1] begin_finished [OF 1] show ?thesis by simp
  next
    case True
    with 2 obtain E2 s2 where
      3: "d e (E1, s1) = (Inr (), E2, s2)" "inbox_Complete store (env_ID e) c (E2, s2) = (Inr u, E', s')"
      by (auto simp: andthen_Inr)
    have "claimed s1 (env_ID e) c" using begin_claims 1 True by simp
    with 3(1) assms(1) have "claimed s2 (env_ID e) c" by (simp add: leaves_inbox_def)
    from complete_finishes [OF this 3(2)] show ?thesis .
  qed
qed

lemma finished_skips:
  assumes "finished s (env_ID e) c" "Idempotent store c d e (E, s) = (res, E', s')"
    and "env_ID e \<noteq> 0"
  shows "finished s' = finished s \<and> (res = Inr () \<longrightarrow> s' = s) \<and>
    (\<forall>d'. Idempotent store c d' e (E, s) = (res, E', s'))"
proof -
  obtain r1 E1 s1 where 1: "inbox_Begin store (env_ID e) c (E, s) = (r1, E1, s1)"
    by (cases "inbox_Begin store (env_ID e) c (E, s)") auto
  show ?thesis
  proof (cases r1)
    case (Inl er)
    with 1 assms begin_finished [OF 1] show ?thesis by (auto simp: Idempotent_def andthen_def)
  next
    case (Inr b)
    have "b = False" using begin_answer [of "env_ID e" c E s b E1 s1] 1 assms(1) Inr by simp
    with Inr 1 assms begin_duplicate [of "env_ID e" c E s E1 s1] begin_finished [OF 1]
    show ?thesis by (simp add: Idempotent_def andthen_def ret_def)
  qed
qed

text \<open>Over any number of deliveries of any messages, a finished message stays finished.\<close>

lemma finished_stays:
  assumes "leaves_inbox d" "finished s m c" "Idempotent store c d e (E, s) = (res, E', s')"
  shows "finished s' m c"
proof (cases "env_ID e = 0")
  case True
  with assms(2,3) show ?thesis by (simp add: Idempotent_def)
next
  case False
  obtain r1 E1 s1 where 1: "inbox_Begin store (env_ID e) c (E, s) = (r1, E1, s1)"
    by (cases "inbox_Begin store (env_ID e) c (E, s)") auto
  have f1: "finished s1 m c" using begin_finished [OF 1] assms(2) by simp
  show ?thesis
  proof (cases r1)
    case (Inl er)
    with 1 False assms(3) f1 show ?thesis by (simp add: Idempotent_def andthen_def)
  next
    case (Inr b)
    show ?thesis
    proof (cases b)
      case False
      with Inr 1 \<open>env_ID e \<noteq> 0\<close> assms(3) f1 show ?thesis
        by (simp add: Idempotent_def andthen_def ret_def)
    next
      case True
      obtain r2 E2 s2 where 2: "d e (E1, s1) = (r2, E2, s2)" by (cases "d e (E1, s1)") auto
      with assms(1) f1 have f2: "finished s2 m c" by (simp add: leaves_inbox_def)
      show ?thesis
      proof (cases r2)
        case (Inl er)
        with Inr True 1 2 \<open>env_ID e \<noteq> 0\<close> assms(3) f2 show ?thesis
          by (simp add: Idempotent_def andthen_def)
      next
        case (Inr v)
        with \<open>r1 = Inr b\<close> True 1 2 \<open>env_ID e \<noteq> 0\<close> assms(3)
        have "inbox_Complete store (env_ID e) c (E2, s2) = (res, E', s')"
          by (simp add: Idempotent_def andthen_def)
        from complete_keeps [OF this f2] show ?thesis .
      qed
    qed
  qed
qed

text \<open>A delivery that failed before the work was recorded runs the work again.\<close>

lemma unfinished_runs:
  assumes "\<not> finished s (env_ID e) c" "inbox_Begin store (env_ID e) c (E, s) = (Inr b, E1, s1)"
    "env_ID e \<noteq> 0"
  shows "Idempotent store c d e (E, s)
    = andthen (d e) (\<lambda>_. inbox_Complete store (env_ID e) c) (E1, s1)"
  using assms begin_answer [OF assms(2)] by (simp add: Idempotent_def andthen_def)

end

section \<open>Ordering's inbox table satisfies them\<close>

definition inbox_claimed :: "ordering_db \<Rightarrow> uuid \<Rightarrow> string \<Rightarrow> bool" where
  "inbox_claimed db m c \<longleftrightarrow> InboxMessages db (m, c) \<noteq> None"

definition inbox_finished :: "ordering_db \<Rightarrow> uuid \<Rightarrow> string \<Rightarrow> bool" where
  "inbox_finished db m c \<longleftrightarrow> (\<exists>t. InboxMessages db (m, c) = Some (Some t))"

text \<open>The ways \<open>Begin\<close> can end.\<close>

lemma isDuplicateKey_simps [simp]:
  "\<not> isDuplicateKey (DriverError f)"
  "isDuplicateKey (SqlError primaryKeyViolation)"
  "\<not> isDuplicateKey truncated"
  by (simp_all add: isDuplicateKey_def truncated_def uniqueIndexViolation_def primaryKeyViolation_def)

lemma Begin_cases:
  assumes "Begin m c (E, db) = (res, E', db')"
  obtains (fresh) "res = Inr True" "InboxMessages db (m, c) = None"
      "db' = db\<lparr>InboxMessages := (InboxMessages db)((m, c) \<mapsto> None)\<rparr>"
  | (known) p where "res = Inr (p = None)" "InboxMessages db (m, c) = Some p" "db' = db"
  | (failed) e where "res = Inl e" "db' = db \<or> InboxMessages db (m, c) = None \<and>
      db' = db\<lparr>InboxMessages := (InboxMessages db)((m, c) \<mapsto> None)\<rparr>"
proof -
  obtain r1 E1 db1 where 1: "call (inbox_insert_stmt m c) (E, db) = (r1, E1, db1)"
    by (cases "call (inbox_insert_stmt m c) (E, db)") auto
  have d1: "db1 = db \<or> InboxMessages db (m, c) = None \<and>
      db1 = db\<lparr>InboxMessages := (InboxMessages db)((m, c) \<mapsto> None)\<rparr>"
    using call_cases [OF 1] by (auto simp: inbox_insert_stmt_def split: if_splits)
  show ?thesis
  proof (cases r1)
    case (Inr u)
    with 1 have "inbox_insert_stmt m c (now E) db = (Inr u, db1)" using call_Inr by auto
    with assms 1 Inr show ?thesis
      by (intro fresh) (auto simp: Begin_def inbox_insert_stmt_def split: if_splits)
  next
    case (Inl e)
    show ?thesis
    proof (cases "isDuplicateKey e")
      case False
      with assms 1 Inl d1 show ?thesis by (intro failed) (auto simp: Begin_def)
    next
      case True
      with 1 Inl call_Inl [of "inbox_insert_stmt m c" E db e E1 db1]
      have "inbox_insert_stmt m c (now E) db = (Inl e, db1)" by auto
      with True have k: "InboxMessages db (m, c) \<noteq> None" "db1 = db"
        by (auto simp: inbox_insert_stmt_def split: if_splits)
      then obtain p where p: "InboxMessages db (m, c) = Some p" by auto
      obtain r2 E2 db2 where q: "query (\<lambda>db. InboxMessages db (m, c)) (E1, db) = (r2, E2, db2)"
        by (cases "query (\<lambda>db. InboxMessages db (m, c)) (E1, db)") auto
      have db2: "db2 = db" using query_state [OF q] .
      show ?thesis
      proof (cases r2)
        case (Inl e2)
        with assms 1 \<open>r1 = Inl e\<close> True k q db2 show ?thesis
          by (intro failed) (auto simp: Begin_def andthen_def on_err_def)
      next
        case (Inr row)
        with q p have "row = Some p" by (auto dest: query_Inr)
        with assms 1 \<open>r1 = Inl e\<close> True k q db2 Inr p show ?thesis
          by (intro known [of p]) (auto simp: Begin_def andthen_def on_err_def ret_def)
      qed
    qed
  qed
qed

lemma Complete_cases:
  assumes "Complete S m c (E, db) = (res, E', db')"
  obtains "db' = db"
  | p where "InboxMessages db (m, c) = Some p"
      "db' = db\<lparr>InboxMessages := (InboxMessages db)((m, c) \<mapsto> Some (column_time S (now E)))\<rparr>"
  using assms
  by (auto simp: Complete_def dest!: on_err_state update_cases split: option.splits)

lemma Complete_Inr:
  assumes "Complete S m c (E, db) = (Inr u, E', db')" "InboxMessages db (m, c) = Some p"
  shows "db' = db\<lparr>InboxMessages := (InboxMessages db)((m, c) \<mapsto> Some (column_time S (now E)))\<rparr>"
  using assms by (auto simp: Complete_def on_err_Inr dest!: update_Inr)

interpretation mssql: inbox_laws "mssql_inbox S" inbox_claimed inbox_finished for S
proof (unfold_locales, goal_cases)
  case (1 m c E s b E' s')
  then show ?case by (auto simp: mssql_inbox_def inbox_finished_def elim!: Begin_cases)
next
  case (2 m c E s E' s')
  then show ?case by (auto simp: mssql_inbox_def inbox_claimed_def elim!: Begin_cases)
next
  case (3 m c E s res E' s')
  then show ?case
    by (auto simp: mssql_inbox_def inbox_finished_def fun_eq_iff elim!: Begin_cases split: if_splits)
next
  case (4 m c E s res E' s' x y)
  then show ?case by (auto simp: mssql_inbox_def inbox_claimed_def elim!: Begin_cases)
next
  case (5 m c E s E' s')
  then show ?case by (auto simp: mssql_inbox_def elim!: Begin_cases)
next
  case (6 s m c E u E' s')
  then show ?case by (auto simp: mssql_inbox_def inbox_claimed_def inbox_finished_def dest: Complete_Inr)
next
  case (7 m c E s res E' s' x y)
  then show ?case by (auto simp: mssql_inbox_def inbox_finished_def elim!: Complete_cases)
next
  case (8 m c E s res E' s' x y)
  then show ?case
    by (auto simp: mssql_inbox_def inbox_finished_def elim!: Complete_cases split: if_splits)
qed

section \<open>Properties\<close>

definition keeps_inbox_records :: "ordering_db delivery \<Rightarrow> bool" where
  "keeps_inbox_records d \<longleftrightarrow>
     (\<forall>e E s r E' s'. d e (E, s) = (r, E', s') \<longrightarrow> InboxMessages s' = InboxMessages s)"

lemma leaves_inbox: "keeps_inbox_records d \<Longrightarrow> mssql.leaves_inbox d"
  by (auto simp: keeps_inbox_records_def mssql.leaves_inbox_def inbox_claimed_def inbox_finished_def
      fun_eq_iff)

text \<open>Deliveries one after the other, whatever each of them answers.\<close>

definition deliver_all ::
  "sqlserver \<Rightarrow> string \<Rightarrow> ordering_db delivery \<Rightarrow> envelope list \<Rightarrow> env \<times> ordering_db \<Rightarrow> env \<times> ordering_db" where
  "deliver_all S c d es w = foldl (\<lambda>w e. snd (Idempotent (mssql_inbox S) c d e w)) w es"

lemma deliver_all_finished:
  "keeps_inbox_records d \<Longrightarrow> inbox_finished (snd w) m c \<Longrightarrow> inbox_finished (snd (deliver_all S c d es w)) m c"
proof (induction es arbitrary: w)
  case Nil
  then show ?case by (simp add: deliver_all_def)
next
  case (Cons e es)
  obtain E s where w: "w = (E, s)" by (cases w)
  obtain r E' s' where d: "Idempotent (mssql_inbox S) c d e (E, s) = (r, E', s')"
    by (cases "Idempotent (mssql_inbox S) c d e (E, s)") auto
  have "inbox_finished s' m c"
    using mssql.finished_stays [OF leaves_inbox [OF Cons.prems(1)] _ d] Cons.prems(2) w by simp
  with Cons.IH [of "(E', s')"] Cons.prems(1) w d show ?case by (simp add: deliver_all_def)
qed

text \<open>
  C8. Once a delivery of a message has succeeded, the work is never done for it again: after any
  number of further deliveries, of this message or others, and under any failures, delivering it
  answers the same whatever the work would be, and an answer of success changes nothing.
\<close>

theorem handled_once:
  assumes "keeps_inbox_records d"
    and "Idempotent (mssql_inbox S) c d e (E, db) = (Inr u, E1, db1)"
    and "deliver_all S c d es (E1, db1) = (E2, db2)"
    and "Idempotent (mssql_inbox S) c d e (E2, db2) = (res, E3, db3)"
  shows "Idempotent (mssql_inbox S) c d' e (E2, db2) = (res, E3, db3) \<and> (res = Inr () \<longrightarrow> db3 = db2)"
proof -
  have id: "env_ID e \<noteq> 0" using assms(2) by (auto simp: Idempotent_def split: if_splits)
  have "inbox_finished db1 (env_ID e) c"
    by (rule mssql.delivered_finishes [OF leaves_inbox [OF assms(1)] assms(2)])
  with deliver_all_finished [OF assms(1), of "(E1, db1)"] assms(3)
  have "inbox_finished db2 (env_ID e) c" by (metis snd_conv)
  from mssql.finished_skips [OF this assms(4) id] show ?thesis by blast
qed

definition sample_envelope :: envelope where
  "sample_envelope =
     \<lparr>env_ID = 7, env_Contract = checkout_contract, env_AggregateID = ''swn01'', env_CorrelationID = '''',
      env_OccurredOnUTC = 5, env_Payload = OtherBytes []\<rparr>"

definition add_sample_product :: "ordering_db delivery" where
  "add_sample_product e = update (\<lambda>t db. db\<lparr>Products := (Products db)(3 \<mapsto> \<lparr>pr_Name = '''', pr_Price = 1\<rparr>)\<rparr>)"

theorem handled_once_witness:
  "\<exists>E1 db1 E2 db2. Idempotent (mssql_inbox sample_sql) ''c'' add_sample_product sample_envelope
        (sample_env, ordering_db_empty) = (Inr (), E1, db1) \<and>
     Idempotent (mssql_inbox sample_sql) ''c'' add_sample_product sample_envelope (E1, db1) = (Inr (), E2, db2) \<and>
     Idempotent (mssql_inbox sample_sql) ''c'' (\<lambda>e. fail NoRows) sample_envelope (E1, db1) = (Inr (), E2, db2)"
proof -
  have k: "keeps_inbox_records add_sample_product"
    by (auto simp: keeps_inbox_records_def add_sample_product_def dest: update_cases)
  have 1: "Idempotent (mssql_inbox sample_sql) ''c'' add_sample_product sample_envelope
        (sample_env, ordering_db_empty)
      = (Inr (), sample_env, ordering_db_empty\<lparr>InboxMessages := [(7, ''c'') \<mapsto> Some 1000],
          Products := [3 \<mapsto> \<lparr>pr_Name = '''', pr_Price = 1\<rparr>]\<rparr>)" (is "_ = (_, _, ?db1)")
    by (simp add: Idempotent_def mssql_inbox_def andthen_def Begin_def Complete_def call_ok update_ok
        on_err_def inbox_insert_stmt_def sample_envelope_def ordering_db_empty_def add_sample_product_def
        sample_sql_def byte_in_def sample_env_def)
  have 2: "Idempotent (mssql_inbox sample_sql) ''c'' add_sample_product sample_envelope (sample_env, ?db1)
      = (Inr (), sample_env, ?db1)"
    by (simp add: Idempotent_def mssql_inbox_def andthen_def Begin_def call_ok query_ok
        on_err_def inbox_insert_stmt_def sample_envelope_def byte_in_def ret_def)
  have 3: "deliver_all sample_sql ''c'' add_sample_product [] (sample_env, ?db1) = (sample_env, ?db1)"
    by (simp add: deliver_all_def)
  from handled_once [OF k 1 3 2] 1 2 show ?thesis by blast
qed

text \<open>
  Two deliveries of one message that race both do the work: the second claim finds the first
  one's row, sees that it has not finished, and is told to go ahead.
\<close>

theorem racing_claims_both_win:
  "\<exists>E db db1. Begin m ''ordering-checkout'' (E, db) = (Inr True, E, db1) \<and>
     Begin m ''ordering-checkout'' (E, db1) = (Inr True, E, db1) \<and> \<not> inbox_finished db m ''ordering-checkout''"
proof -
  have "Begin m ''ordering-checkout'' (sample_env, ordering_db_empty)
      = (Inr True, sample_env, ordering_db_empty\<lparr>InboxMessages := [(m, ''ordering-checkout'') \<mapsto> None]\<rparr>)"
    by (simp add: Begin_def call_ok inbox_insert_stmt_def ordering_db_empty_def byte_in_def)
  moreover have "Begin m ''ordering-checkout'' (sample_env, ordering_db_empty\<lparr>InboxMessages := [(m, ''ordering-checkout'') \<mapsto> None]\<rparr>)
      = (Inr True, sample_env, ordering_db_empty\<lparr>InboxMessages := [(m, ''ordering-checkout'') \<mapsto> None]\<rparr>)"
    by (simp add: Begin_def call_ok query_ok inbox_insert_stmt_def andthen_def on_err_def ret_def byte_in_def)
  moreover have "\<not> inbox_finished ordering_db_empty m ''ordering-checkout''"
    by (simp add: inbox_finished_def ordering_db_empty_def)
  ultimately show ?thesis by blast
qed

end
