(* ===== verification/Orders.thy ===== *)
theory Orders
  imports Integration Inbox
begin

text \<open>
  The order feature slices, \<open>internal/ordering/orders\<close>: the commands and queries with their handlers,
  the read model, and the handler of checkouts. The repository is an interface, a record of
  operations; \<open>mssql_repo\<close> is the one the service is wired with.
\<close>

section \<open>The repository\<close>

record 's order_repo =
  repo_Save :: "order \<Rightarrow> ('s, order) act"
  repo_Place :: "order \<Rightarrow> customer \<Rightarrow> product list \<Rightarrow> ('s, order) act"
  repo_ByID :: "uuid \<Rightarrow> ('s, order) act"
  repo_List :: "page_request \<Rightarrow> ('s, order list \<times> int) act"
  repo_ByCustomer :: "uuid \<Rightarrow> ('s, order list) act"
  repo_Delete :: "uuid \<Rightarrow> ('s, unit) act"

definition mssql_repo :: "sqlserver \<Rightarrow> event_mapper \<Rightarrow> ordering_db order_repo" where
  "mssql_repo S m =
     \<lparr>repo_Save = Save S m, repo_Place = Place S m, repo_ByID = ByID S, repo_List = List S,
      repo_ByCustomer = ByCustomer S, repo_Delete = Delete\<rparr>"

section \<open>Commands\<close>

record address_input =
  ai_FirstName :: string
  ai_LastName :: string
  ai_EmailAddress :: string
  ai_AddressLine :: string
  ai_Country :: string
  ai_State :: string
  ai_ZipCode :: string

definition address_toDomain :: "address_input \<Rightarrow> go_error + address" where
  "address_toDomain a =
     NewAddress (ai_FirstName a) (ai_LastName a) (ai_EmailAddress a) (ai_AddressLine a)
       (ai_Country a) (ai_State a) (ai_ZipCode a)"

record payment_input =
  pi_PaymentToken :: string
  pi_CardLast4 :: string
  pi_PaymentMethod :: int

definition payment_toDomain :: "payment_input \<Rightarrow> go_error + payment" where
  "payment_toDomain p = NewPayment (pi_PaymentToken p) (pi_CardLast4 p) (pi_PaymentMethod p)"

definition payment_input_String :: "payment_input \<Rightarrow> string" where
  "payment_input_String p = ''PaymentInput{cardLast4: '' @ pi_CardLast4 p @ '', token: [redacted]}''"

text \<open>\<open>MarshalJSON\<close> refuses to serialize a payment.\<close>

definition payment_input_MarshalJSON :: "payment_input \<Rightarrow> go_error + json" where
  "payment_input_MarshalJSON p = Inl (Plain (Fmt
     ''payment details must not be serialized; map them to an explicit contract instead'' []))"

record line_input =
  li_ProductID :: uuid
  li_Quantity :: int
  li_Price :: decimal

record create_order_command =
  co_CustomerID :: uuid
  co_ShippingAddress :: address_input
  co_BillingAddress :: address_input
  co_Payment :: payment_input
  co_Items :: "line_input list"

record update_order_command =
  uo_ID :: uuid
  uo_ShippingAddress :: address_input
  uo_BillingAddress :: address_input
  uo_Payment :: payment_input
  uo_Status :: string

section \<open>Creating an order\<close>

text \<open>A line id is drawn once the checks of \<open>Add\<close> have passed.\<close>

definition add_line :: "uuid \<Rightarrow> int \<Rightarrow> decimal \<Rightarrow> order \<Rightarrow> ('s, order) act" where
  "add_line pid q p o' =
     (case Add uuid_nil pid q p o' of
        Inl e \<Rightarrow> fail e
      | Inr _ \<Rightarrow> andthen new_uuid (\<lambda>line_id. of_res (Add line_id pid q p o')))"

fun add_lines :: "line_input list \<Rightarrow> order \<Rightarrow> ('s, order) act" where
  "add_lines [] o' = ret o'"
| "add_lines (l # ls) o' =
     andthen (of_res (NewProductID (li_ProductID l))) (\<lambda>pid.
     andthen (add_line pid (li_Quantity l) (li_Price l) o') (add_lines ls))"

definition buildOrder :: "create_order_command \<Rightarrow> ('s, order) act" where
  "buildOrder c =
     andthen new_uuid (\<lambda>u.
     andthen (of_res (NewOrderID u)) (\<lambda>orderID.
     andthen (of_res (NewCustomerID (co_CustomerID c))) (\<lambda>cid.
     andthen (of_res (map_left (Wrapped (Fmt ''shipping address'' [])) (address_toDomain (co_ShippingAddress c)))) (\<lambda>shipping.
     andthen (of_res (map_left (Wrapped (Fmt ''billing address'' [])) (address_toDomain (co_BillingAddress c)))) (\<lambda>billing.
     andthen (of_res (payment_toDomain (co_Payment c))) (\<lambda>pay.
     add_lines (co_Items c) (NewOrder orderID cid shipping billing pay)))))))"

definition CreateOrder :: "'s order_repo \<Rightarrow> create_order_command \<Rightarrow> ('s, uuid) act" where
  "CreateOrder repo c =
     andthen (on_err clientError (buildOrder c)) (\<lambda>o'.
     andthen (repo_Save repo o') (\<lambda>o2. ret (order_id o2)))"

section \<open>Updating and deleting\<close>

definition applyUpdate :: "update_order_command \<Rightarrow> order \<Rightarrow> go_error + order" where
  "applyUpdate c o' =
     try_res (map_left (Wrapped (Fmt ''shipping address'' [])) (address_toDomain (uo_ShippingAddress c))) (\<lambda>shipping.
     try_res (map_left (Wrapped (Fmt ''billing address'' [])) (address_toDomain (uo_BillingAddress c))) (\<lambda>billing.
     try_res (payment_toDomain (uo_Payment c)) (\<lambda>pay.
     try_res (ParseOrderStatus (uo_Status c)) (\<lambda>status.
     Update shipping billing pay status o'))))"

definition UpdateOrder :: "'s order_repo \<Rightarrow> update_order_command \<Rightarrow> ('s, bool) act" where
  "UpdateOrder repo c =
     andthen (on_err clientError (of_res (NewOrderID (uo_ID c)))) (\<lambda>orderID.
     andthen (repo_ByID repo orderID) (\<lambda>o'.
     andthen (on_err clientError (of_res (applyUpdate c o'))) (\<lambda>o2.
     andthen (repo_Save repo o2) (\<lambda>_. ret True))))"

definition DeleteOrder :: "'s order_repo \<Rightarrow> uuid \<Rightarrow> ('s, bool) act" where
  "DeleteOrder repo oid =
     andthen (on_err clientError (of_res (NewOrderID oid))) (\<lambda>orderID.
     andthen (repo_Delete repo orderID) (\<lambda>_. ret True))"

section \<open>The read model\<close>

record address_view =
  av_FirstName :: string
  av_LastName :: string
  av_EmailAddress :: string
  av_AddressLine :: string
  av_Country :: string
  av_State :: string
  av_ZipCode :: string

record payment_view =
  pv_CardLast4 :: string
  pv_PaymentMethod :: int

record order_item_view =
  iv_OrderID :: uuid
  iv_ProductID :: uuid
  iv_Quantity :: int
  iv_Price :: decimal

record order_view =
  ov_ID :: uuid
  ov_CustomerID :: uuid
  ov_Status :: string
  ov_ShippingAddress :: address_view
  ov_BillingAddress :: address_view
  ov_Payment :: "payment_view option"
  ov_Items :: "order_item_view list"
  ov_TotalPrice :: decimal

definition addressView :: "address \<Rightarrow> address_view" where
  "addressView a =
     \<lparr>av_FirstName = FirstName a, av_LastName = LastName a, av_EmailAddress = EmailAddress a,
      av_AddressLine = AddressLine a, av_Country = Country a, av_State = State a,
      av_ZipCode = ZipCode a\<rparr>"

definition paymentView :: "payment \<Rightarrow> payment_view option" where
  "paymentView p =
     (if IsZero p then None
      else Some \<lparr>pv_CardLast4 = cardLast4 p, pv_PaymentMethod = paymentMethod p\<rparr>)"

definition viewOf :: "order \<Rightarrow> order_view" where
  "viewOf o' =
     \<lparr>ov_ID = order_id o', ov_CustomerID = customerID o', ov_Status = status_String (order_status o'),
      ov_ShippingAddress = addressView (shippingAddress o'),
      ov_BillingAddress = addressView (billingAddress o'), ov_Payment = paymentView (order_payment o'),
      ov_Items = map (\<lambda>i. \<lparr>iv_OrderID = item_OrderID i, iv_ProductID = item_ProductID i,
                            iv_Quantity = item_Quantity i, iv_Price = item_Price i\<rparr>) (items o'),
      ov_TotalPrice = TotalPrice o'\<rparr>"

definition viewsOf :: "order list \<Rightarrow> order_view list" where
  "viewsOf = map viewOf"

definition GetOrderByID :: "'s order_repo \<Rightarrow> uuid \<Rightarrow> ('s, order_view) act" where
  "GetOrderByID repo oid =
     andthen (on_err clientError (of_res (NewOrderID oid))) (\<lambda>orderID.
     andthen (repo_ByID repo orderID) (\<lambda>o'. ret (viewOf o')))"

definition GetOrders :: "'s order_repo \<Rightarrow> page_request \<Rightarrow> ('s, order_view page) act" where
  "GetOrders repo page =
     andthen (repo_List repo page) (\<lambda>(os, n). ret (NewResult page n (viewsOf os)))"

definition GetOrdersByCustomer :: "'s order_repo \<Rightarrow> uuid \<Rightarrow> ('s, order_view list) act" where
  "GetOrdersByCustomer repo cid =
     andthen (on_err clientError (of_res (NewCustomerID cid))) (\<lambda>c.
     andthen (repo_ByCustomer repo c) (\<lambda>os. ret (viewsOf os)))"

section \<open>Checkouts\<close>

definition addressOf :: "checkout_address \<Rightarrow> go_error + address" where
  "addressOf a =
     NewAddress (ca_FirstName a) (ca_LastName a) (ca_EmailAddress a) (ca_AddressLine a)
       (ca_Country a) (ca_State a) (ca_ZipCode a)"

fun totalOf_loop :: "decimal \<Rightarrow> checkout_line list \<Rightarrow> decimal" where
  "totalOf_loop acc [] = acc"
| "totalOf_loop acc (l # ls) = totalOf_loop (acc + cl_UnitPrice l * of_int (cl_Quantity l)) ls"

definition totalOf :: "checkout_line list \<Rightarrow> decimal" where
  "totalOf = totalOf_loop 0"

definition customerName :: "checkout_submitted \<Rightarrow> string" where
  "customerName ev =
     (let full = TrimSpace (ca_FirstName (cs_ShippingAddress ev) @ '' '' @ ca_LastName (cs_ShippingAddress ev))
      in if full = '''' then cs_UserName ev else full)"

definition checkout_newOrder :: "checkout_submitted \<Rightarrow> uuid \<Rightarrow> ('s, order) act" where
  "checkout_newOrder ev cid =
     andthen new_uuid (\<lambda>u.
     andthen (of_res (NewOrderID u)) (\<lambda>orderID.
     andthen (of_res (map_left (Wrapped (Fmt ''shipping address'' [])) (addressOf (cs_ShippingAddress ev)))) (\<lambda>shipping.
     andthen (of_res (map_left (Wrapped (Fmt ''billing address'' [])) (addressOf (cs_BillingAddress ev)))) (\<lambda>billing.
     andthen (of_res (map_left (Wrapped (Fmt ''payment'' []))
                (NewPayment (cp_PaymentToken (cs_Payment ev)) (cp_CardLast4 (cs_Payment ev))
                   (cp_PaymentMethod (cs_Payment ev))))) (\<lambda>pay.
     ret (NewOrder orderID cid shipping billing pay))))))"

text \<open>The loop over the items: the products so far and the order with the lines so far.\<close>

fun checkout_lines ::
  "checkout_line list \<Rightarrow> product list \<Rightarrow> order \<Rightarrow> ('s, order \<times> product list) act" where
  "checkout_lines [] ps o' = ret (o', ps)"
| "checkout_lines (l # ls) ps o' =
     andthen (of_res (NewProductID (cl_ProductID l))) (\<lambda>pid.
     andthen (of_res (map_left (Wrapped (Fmt ''product %s'' [ArgUuid pid]))
                (NewProduct pid (cl_ProductName l) (cl_UnitPrice l)))) (\<lambda>p.
     andthen (add_line pid (cl_Quantity l) (cl_UnitPrice l) o') (\<lambda>o2.
     checkout_lines ls (ps @ [p]) o2)))"

definition orderFrom :: "checkout_submitted \<Rightarrow> ('s, order \<times> customer \<times> product list) act" where
  "orderFrom ev =
     (if cs_Items ev = [] then fail (Plain (Fmt ''it carries no items'' []))
      else let linesTotal = totalOf (cs_Items ev) in
      if linesTotal \<noteq> cs_TotalPrice ev
      then fail (Plain (Fmt ''its total %s does not match its items (%s)''
                   [ArgDec (cs_TotalPrice ev), ArgDec linesTotal]))
      else
        andthen (of_res (NewCustomerID (cs_CustomerID ev))) (\<lambda>cid.
        andthen (of_res (map_left (Wrapped (Fmt ''customer'' []))
                   (NewCustomer cid (customerName ev) (ca_EmailAddress (cs_ShippingAddress ev))))) (\<lambda>cu.
        andthen (checkout_newOrder ev cid) (\<lambda>o'.
        andthen (checkout_lines (cs_Items ev) [] o') (\<lambda>(o2, ps).
        ret (o2, cu, ps))))))"

definition checkout_Handle :: "texts \<Rightarrow> 's order_repo \<Rightarrow> 's delivery" where
  "checkout_Handle T repo e =
     (case UnmarshalAs checkout_contract (decode_checkout T) (env_Payload e) checkout_zero of
        Inl er \<Rightarrow> fail (Rejection er)
      | Inr ev \<Rightarrow>
          andthen (on_err (\<lambda>er. Rejection (Wrapped (Fmt ''checkout %s'' [ArgUuid (env_ID e)]) er))
                     (orderFrom ev))
            (\<lambda>(o', cu, ps). andthen (repo_Place repo o' cu ps) (\<lambda>_. ret ())))"

text \<open>What the service subscribes with: the handler behind its inbox.\<close>

definition consumerName :: string where
  "consumerName = ''ordering-checkout''"

definition checkout_delivery :: "texts \<Rightarrow> sqlserver \<Rightarrow> event_mapper \<Rightarrow> ordering_db delivery" where
  "checkout_delivery T S m =
     Idempotent (mssql_inbox S) consumerName (checkout_Handle T (mssql_repo S m))"

end
