(* ===== verification/Orders_Facts.thy ===== *)
theory Orders_Facts
  imports Orders
begin

text \<open>
  What holds of the order handlers: the order a checkout describes, which checkouts are rejected
  and which are retried, the laws of the repository as a locale with what the handlers make of
  them, and the read model.
\<close>

section \<open>The order a checkout describes\<close>

definition line_matches :: "checkout_line \<Rightarrow> order_item \<Rightarrow> bool" where
  "line_matches l i \<longleftrightarrow>
     item_ProductID i = cl_ProductID l \<and> item_Quantity i = cl_Quantity l \<and> item_Price i = cl_UnitPrice l"

definition line_product :: "checkout_line \<Rightarrow> product" where
  "line_product l =
     \<lparr>product_ID = cl_ProductID l, product_Name = cl_ProductName l, product_Price = cl_UnitPrice l\<rparr>"

lemma add_line_Inr:
  assumes "add_line pid q p o' (E, s) = (Inr o2, E', s')"
  shows "\<exists>l. Add l pid q p o' = Inr o2"
  using assms by (auto simp: add_line_def andthen_Inr split: sum.splits)

lemma stateless_add_line [stateless_intro]: "stateless (add_line pid q p o')"
  unfolding add_line_def by (auto intro!: stateless_intro split: sum.split)

lemma checkout_lines_Inr:
  assumes "checkout_lines ls ps o' (E, s) = (Inr (o2, ps2), E', s')"
  shows "\<exists>is. o2 = o'\<lparr>items := items o' @ is\<rparr> \<and> list_all2 line_matches ls is \<and>
    list_all (item_ok (order_id o')) is \<and> ps2 = ps @ map line_product ls"
  using assms
proof (induction ls arbitrary: ps o' E s)
  case Nil
  then show ?case by simp
next
  case (Cons l ls)
  from Cons.prems obtain o1 E1 s1 E2 s2 p where
    p: "NewProduct (cl_ProductID l) (cl_ProductName l) (cl_UnitPrice l) = Inr p" and
    1: "add_line (cl_ProductID l) (cl_Quantity l) (cl_UnitPrice l) o' (E1, s1) = (Inr o1, E2, s2)" and
    2: "checkout_lines ls (ps @ [p]) o1 (E2, s2) = (Inr (o2, ps2), E', s')"
    by (auto simp: andthen_Inr NewProductID_def)
  from add_line_Inr [OF 1] obtain i where
    i: "o1 = o'\<lparr>items := items o' @ [i]\<rparr>" "line_matches l i" "item_ok (order_id o') i"
    by (auto simp: Add_Inr line_matches_def item_ok_def)
  from p have "p = line_product l" by (auto simp: NewProduct_Inr line_product_def)
  with Cons.IH [OF 2] i obtain is' where
    "o2 = o'\<lparr>items := items o' @ (i # is')\<rparr>" "list_all2 line_matches ls is'"
    "list_all (item_ok (order_id o')) is'" "ps2 = ps @ map line_product (l # ls)" by auto
  with i show ?case by (intro exI [of _ "i # is'"]) simp
qed

lemma totalOf_eq: "totalOf ls = sum_list (map (\<lambda>l. cl_UnitPrice l * of_int (cl_Quantity l)) ls)"
proof -
  have "totalOf_loop a ls = a + sum_list (map (\<lambda>l. cl_UnitPrice l * of_int (cl_Quantity l)) ls)" for a
    by (induction ls arbitrary: a) auto
  then show ?thesis by (simp add: totalOf_def)
qed

lemma line_matches_total:
  "list_all2 line_matches ls is \<Longrightarrow>
     sum_list (map line_amount is) = sum_list (map (\<lambda>l. cl_UnitPrice l * of_int (cl_Quantity l)) ls)"
  by (induction ls "is" rule: list_all2_induct) (auto simp: line_matches_def line_amount_def)

text \<open>The order, customer and products agree with the message.\<close>

definition describes :: "checkout_submitted \<Rightarrow> order \<Rightarrow> customer \<Rightarrow> product list \<Rightarrow> bool" where
  "describes ev o' cu ps \<longleftrightarrow>
     order_ok o' \<and> order_id o' \<noteq> 0 \<and> customerID o' = cs_CustomerID ev \<and> customerID o' \<noteq> 0 \<and>
     order_status o' = OrderStatusPending \<and> events o' = [OrderCreated] \<and>
     list_all2 line_matches (cs_Items ev) (items o') \<and> items o' \<noteq> [] \<and>
     TotalPrice o' = cs_TotalPrice ev \<and> 0 < TotalPrice o' \<and>
     order_payment o' = \<lparr>paymentToken = cp_PaymentToken (cs_Payment ev),
        cardLast4 = cp_CardLast4 (cs_Payment ev), paymentMethod = cp_PaymentMethod (cs_Payment ev)\<rparr> \<and>
     addressOf (cs_ShippingAddress ev) = Inr (shippingAddress o') \<and>
     addressOf (cs_BillingAddress ev) = Inr (billingAddress o') \<and>
     customer_ID cu = cs_CustomerID ev \<and> customer_Name cu = customerName ev \<and>
     customer_Email cu = ca_EmailAddress (cs_ShippingAddress ev) \<and> ps = map line_product (cs_Items ev)"

lemma checkout_newOrder_Inr:
  assumes "checkout_newOrder ev cid (E, s) = (Inr o', E', s')"
  shows "\<exists>oid shipping billing pay. o' = NewOrder oid cid shipping billing pay \<and> oid \<noteq> 0 \<and>
    addressOf (cs_ShippingAddress ev) = Inr shipping \<and> addressOf (cs_BillingAddress ev) = Inr billing \<and>
    NewPayment (cp_PaymentToken (cs_Payment ev)) (cp_CardLast4 (cs_Payment ev))
                   (cp_PaymentMethod (cs_Payment ev)) = Inr pay"
  using assms by (auto simp: checkout_newOrder_def andthen_Inr NewOrderID_def)

lemma orderFrom_Inr:
  assumes "orderFrom ev (E, s) = (Inr (o', cu, ps), E', s')"
  shows "describes ev o' cu ps"
proof -
  from assms have ne: "cs_Items ev \<noteq> []" and tot: "totalOf (cs_Items ev) = cs_TotalPrice ev"
    by (auto simp: orderFrom_def Let_def split: if_splits)
  with assms obtain o1 E1 s1 E2 s2 where
    c: "cs_CustomerID ev \<noteq> 0"
       "NewCustomer (cs_CustomerID ev) (customerName ev) (ca_EmailAddress (cs_ShippingAddress ev)) = Inr cu" and
    1: "checkout_newOrder ev (cs_CustomerID ev) (E1, s1) = (Inr o1, E2, s2)" and
    2: "checkout_lines (cs_Items ev) [] o1 (E2, s2) = (Inr (o', ps), E', s')"
    by (auto simp: orderFrom_def Let_def andthen_Inr NewCustomerID_def)
  from checkout_newOrder_Inr [OF 1] obtain oid sh bi pay where
    o1: "o1 = NewOrder oid (cs_CustomerID ev) sh bi pay" "oid \<noteq> 0"
        "addressOf (cs_ShippingAddress ev) = Inr sh" "addressOf (cs_BillingAddress ev) = Inr bi"
        "NewPayment (cp_PaymentToken (cs_Payment ev)) (cp_CardLast4 (cs_Payment ev))
                   (cp_PaymentMethod (cs_Payment ev)) = Inr pay" by blast
  from checkout_lines_Inr [OF 2] obtain ls where
    ls: "o' = o1\<lparr>items := items o1 @ ls\<rparr>" "list_all2 line_matches (cs_Items ev) ls"
        "list_all (item_ok (order_id o1)) ls" "ps = map line_product (cs_Items ev)" by auto
  have i1: "items o1 = []" "order_id o1 = oid" "events o1 = [OrderCreated]"
      "customerID o1 = cs_CustomerID ev" "order_status o1 = OrderStatusPending"
      "order_payment o1 = pay" "shippingAddress o1 = sh" "billingAddress o1 = bi"
    by (simp_all add: o1(1) NewOrder_def raise_event_def newOrder_def)
  have ok: "order_ok o1"
    unfolding o1(1) using o1(3-5)
    by (intro NewOrder_ok) (auto simp: addressOf_def intro: NewAddress_ok NewPayment_ok)
  have ne2: "items o' \<noteq> []" using ls(1,2) ne i1(1) by (auto simp: list_all2_Nil2)
  have tp: "TotalPrice o' = cs_TotalPrice ev"
    using line_matches_total [OF ls(2)] tot by (simp add: TotalPrice_eq totalOf_eq ls(1) i1(1))
  have ok2: "order_ok o'" using ok ls(1,3) i1 by (simp add: order_ok_def)
  have pos: "0 < TotalPrice o'"
    using total_pos [of "order_id o'" "items o'"] ok2 ne2 by (simp add: TotalPrice_eq order_ok_def)
  from c(2) have "customer_ID cu = cs_CustomerID ev" "customer_Name cu = customerName ev"
      "customer_Email cu = ca_EmailAddress (cs_ShippingAddress ev)"
    by (auto simp: NewCustomer_Inr)
  moreover have "pay = \<lparr>paymentToken = cp_PaymentToken (cs_Payment ev),
        cardLast4 = cp_CardLast4 (cs_Payment ev), paymentMethod = cp_PaymentMethod (cs_Payment ev)\<rparr>"
    using o1(5) by (simp add: NewPayment_Inr)
  ultimately show ?thesis
    using ok2 ne2 tp pos ls i1 o1 c(1) by (simp add: describes_def)
qed

lemma stateless_checkout_lines [stateless_intro]: "stateless (checkout_lines ls ps o')"
  by (induction ls arbitrary: ps o') (auto intro!: stateless_intro)

lemma stateless_orderFrom [stateless_intro]: "stateless (orderFrom ev)"
  unfolding orderFrom_def checkout_newOrder_def Let_def
  by (auto intro!: stateless_intro split: prod.split)

section \<open>Rejection and retry\<close>

lemma throws_call_ok:
  "(\<And>t s e s'. stmt t s = (Inl e, s') \<Longrightarrow> \<not> IsRejected e) \<Longrightarrow> throws (\<lambda>e. \<not> IsRejected e) (call stmt)"
  by (intro throw_intro) auto

lemma throws_wrapped:
  "throws (\<lambda>e. \<not> IsRejected e) m \<Longrightarrow> throws (\<lambda>e. \<not> IsRejected e) (on_err (Wrapped w) m)"
  by (intro throw_intro) simp

lemma IsRejected_sql [simp]:
  "\<not> IsRejected truncated" "\<not> IsRejected overflow" "\<not> IsRejected negative_offset"
  by (simp_all add: truncated_def overflow_def negative_offset_def)

lemma throws_statements:
  "throws (\<lambda>e. \<not> IsRejected e) (call (upsert_stmt S o'))"
  "throws (\<lambda>e. \<not> IsRejected e) (call (insert_item_stmt S oid i))"
  "throws (\<lambda>e. \<not> IsRejected e) (call (insert_outbox_stmt S e))"
  "throws (\<lambda>e. \<not> IsRejected e) (call (save_customer_stmt S c))"
  "throws (\<lambda>e. \<not> IsRejected e) (call (add_product_stmt S p))"
  by (rule throws_call_ok;
      auto simp: upsert_stmt_def insert_item_stmt_def insert_outbox_stmt_def save_customer_stmt_def
        add_product_stmt_def split: option.splits if_splits)+

lemma throws_saveOrder: "throws (\<lambda>e. \<not> IsRejected e) (saveOrder S (Mapper T f c) o')"
proof -
  have u: "throws (\<lambda>e. \<not> IsRejected e) (upsertOrder S o')"
    unfolding upsertOrder_def
    by (rule throws_on_err) (rule throws_weaken [OF throws_statements(1)], auto)
  have i: "throws (\<lambda>e. \<not> IsRejected e) (insertOrderItem S oid i)" for oid i
    unfolding insertOrderItem_def
    by (rule throws_on_err) (rule throws_weaken [OF throws_statements(2)], auto)
  have ob: "throws (\<lambda>e. \<not> IsRejected e) (insertOutboxMessage S e)" for e
    unfolding insertOutboxMessage_def by (rule throws_wrapped) (rule throws_statements)
  have st: "throws (\<lambda>e. \<not> IsRejected e) (stageEvents S (Mapper T f c) o')"
    unfolding stageEvents_def
    by (intro throws_for_each throws_andthen throws_wrapped throws_Mapper)
      (auto split: option.split intro: throws_ret ob)
  have cl: "throws (\<lambda>e. \<not> IsRejected e) (on_err (Wrapped w) (update g))" for w g
    by (intro throws_wrapped throws_update) simp
  show ?thesis
    unfolding saveOrder_def by (intro throws_andthen throws_for_each u cl i st)
qed

lemma throws_Place: "throws (\<lambda>e. \<not> IsRejected e) (Place S (Mapper T f c) o' cu ps)"
proof -
  have "throws (\<lambda>e. \<not> IsRejected e) (add_products S seen ps)" for seen
    by (induction S seen ps rule: add_products.induct)
      (auto simp: addProductIfUnknown_def intro!: throws_ret throws_andthen throws_wrapped throws_statements)
  then show ?thesis
    unfolding Place_def inTx_def place_tx_def saveCustomer_def
    by (intro throws_andthen throws_transaction throws_wrapped throws_statements throws_saveOrder throws_ret)
      simp_all
qed

section \<open>A valid checkout becomes an order\<close>

definition checkout_valid :: "checkout_submitted \<Rightarrow> bool" where
  "checkout_valid ev \<longleftrightarrow>
     cs_Items ev \<noteq> [] \<and> totalOf (cs_Items ev) = cs_TotalPrice ev \<and> cs_CustomerID ev \<noteq> 0 \<and>
     \<not> is_blank (customerName ev) \<and>
     (\<exists>a. addressOf (cs_ShippingAddress ev) = Inr a) \<and> (\<exists>a. addressOf (cs_BillingAddress ev) = Inr a) \<and>
     (\<exists>p. NewPayment (cp_PaymentToken (cs_Payment ev)) (cp_CardLast4 (cs_Payment ev))
            (cp_PaymentMethod (cs_Payment ev)) = Inr p) \<and>
     list_all (\<lambda>l. cl_ProductID l \<noteq> 0 \<and> \<not> is_blank (cl_ProductName l) \<and> 0 < cl_UnitPrice l \<and>
       0 < cl_Quantity l) (cs_Items ev)"

fun new_items :: "(nat \<Rightarrow> uuid) \<Rightarrow> nat \<Rightarrow> uuid \<Rightarrow> checkout_line list \<Rightarrow> order_item list" where
  "new_items r n oid [] = []"
| "new_items r n oid (l # ls) =
     \<lparr>item_ID = r n, item_OrderID = oid, item_ProductID = cl_ProductID l, item_Quantity = cl_Quantity l,
      item_Price = cl_UnitPrice l\<rparr> # new_items r (Suc n) oid ls"

lemma new_items_ids: "map item_ID (new_items r n oid ls) = map r [n..<n + length ls]"
proof (induction ls arbitrary: n)
  case Nil
  then show ?case by simp
next
  case (Cons l ls)
  have "[n..<n + length (l # ls)] = n # [Suc n..<Suc n + length ls]"
    by (simp add: upt_conv_Cons del: upt_Suc)
  with Cons show ?case by simp
qed

lemma new_items_products:
  "item_ProductID ` set (new_items r n oid ls) = cl_ProductID ` set ls"
  by (induction ls arbitrary: n) auto

lemma checkout_lines_ok:
  assumes "list_all (\<lambda>l. cl_ProductID l \<noteq> 0 \<and> \<not> is_blank (cl_ProductName l) \<and> 0 < cl_UnitPrice l \<and>
       0 < cl_Quantity l) ls"
  shows "checkout_lines ls ps o' (E, s) =
    (Inr (o'\<lparr>items := items o' @ new_items (rnd E) (drawn E) (order_id o') ls\<rparr>, ps @ map line_product ls),
     E\<lparr>drawn := drawn E + length ls\<rparr>, s)"
  using assms
proof (induction ls arbitrary: ps o' E)
  case Nil
  then show ?case by (simp add: ret_def)
next
  case (Cons l ls)
  then show ?case
    by (simp add: andthen_def of_res_def new_id_def NewProductID_def NewProduct_def add_line_def Add_def
        new_uuid_def line_product_def)
qed

definition checkout_order :: "env \<Rightarrow> checkout_submitted \<Rightarrow> order" where
  "checkout_order E ev =
     (NewOrder (rnd E (drawn E)) (cs_CustomerID ev) (projr (addressOf (cs_ShippingAddress ev)))
        (projr (addressOf (cs_BillingAddress ev)))
        (projr (NewPayment (cp_PaymentToken (cs_Payment ev)) (cp_CardLast4 (cs_Payment ev))
            (cp_PaymentMethod (cs_Payment ev)))))
     \<lparr>items := new_items (rnd E) (Suc (drawn E)) (rnd E (drawn E)) (cs_Items ev)\<rparr>"

definition checkout_customer :: "checkout_submitted \<Rightarrow> customer" where
  "checkout_customer ev =
     \<lparr>customer_ID = cs_CustomerID ev, customer_Name = customerName ev,
      customer_Email = ca_EmailAddress (cs_ShippingAddress ev)\<rparr>"

lemma orderFrom_ok:
  assumes "checkout_valid ev" "rnd E (drawn E) \<noteq> 0"
  shows "orderFrom ev (E, s) = (Inr (checkout_order E ev, checkout_customer ev,
      map line_product (cs_Items ev)), E\<lparr>drawn := Suc (drawn E) + length (cs_Items ev)\<rparr>, s)"
proof -
  from assms(1) obtain sh bi p where
    a: "addressOf (cs_ShippingAddress ev) = Inr sh" "addressOf (cs_BillingAddress ev) = Inr bi"
      "NewPayment (cp_PaymentToken (cs_Payment ev)) (cp_CardLast4 (cs_Payment ev))
            (cp_PaymentMethod (cs_Payment ev)) = Inr p" by (auto simp: checkout_valid_def)
  have e: "\<not> is_blank (ca_EmailAddress (cs_ShippingAddress ev))"
    using a(1) by (auto simp: addressOf_def NewAddress_Inr address_ok_def)
  let ?E1 = "E\<lparr>drawn := Suc (drawn E)\<rparr>"
  have n: "checkout_newOrder ev (cs_CustomerID ev) (E, s)
      = (Inr (NewOrder (rnd E (drawn E)) (cs_CustomerID ev) sh bi p), ?E1, s)"
    by (simp add: checkout_newOrder_def andthen_def new_uuid_def of_res_def NewOrderID_def new_id_def
        assms(2) a ret_def)
  have l: "checkout_lines (cs_Items ev) [] o' (?E1, s) =
    (Inr (o'\<lparr>items := items o' @ new_items (rnd E) (Suc (drawn E)) (order_id o') (cs_Items ev)\<rparr>,
      map line_product (cs_Items ev)), E\<lparr>drawn := Suc (drawn E) + length (cs_Items ev)\<rparr>, s)" for o'
    using checkout_lines_ok [of "cs_Items ev" "[]" o' ?E1 s] assms(1)
    by (simp add: checkout_valid_def)
  show ?thesis
    using assms(1) e
    by (simp add: orderFrom_def checkout_valid_def Let_def andthen_def of_res_def NewCustomerID_def
        new_id_def NewCustomer_def n l ret_def a checkout_order_def checkout_customer_def)
      (simp add: NewOrder_def raise_event_def newOrder_def)
qed

text \<open>The message of an announced order can be stored.\<close>

definition announce_fits :: "texts \<Rightarrow> string \<Rightarrow> order \<Rightarrow> bool" where
  "announce_fits T c o' \<longleftrightarrow>
     uuid_text T (order_id o') \<noteq> '''' \<and> utf16_units (uuid_text T (order_id o')) \<le> 100 \<and>
     utf16_units c \<le> 100"

lemma stage_created_ok:
  assumes "sqlserver_ok S" "outcomes E = []" "events o' = [OrderCreated]"
    and "\<not> f \<or> announce_fits T c o' \<and> rnd E (drawn E) \<noteq> 0 \<and> rnd E (drawn E) \<notin> ob_Id ` set (OutboxMessages db)"
  shows "\<exists>E4 db4. stageEvents S (Mapper T f c) o' (E, db) = (Inr (), E4, db4) \<and> outcomes E4 = []
    \<and> rnd E4 = rnd E \<and> drawn E4 = Suc (drawn E) \<and> now E4 = now E"
proof (cases f)
  case False
  then show ?thesis
    using assms(2,3)
    by (simp add: stageEvents_def andthen_def on_err_def Mapper_def new_uuid_def time_now_def ret_def Let_def)
next
  case True
  let ?E1 = "E\<lparr>drawn := Suc (drawn E)\<rparr>"
  let ?h = "NewHeader (rnd E (drawn E)) (now E) c"
  from True assms(4) obtain e where
    e: "NewEnvelope T (created_event ?h o') (uuid_text T (order_id o')) = Inr e"
    by (auto simp: announce_fits_def NewEnvelope_Inr created_event_def NewHeader_def)
  have ep: "env_ID e = rnd E (drawn E)" "env_AggregateID e = uuid_text T (order_id o')"
      "env_CorrelationID e = c" "env_Contract e = order_created_contract"
    using e by (auto simp: NewEnvelope_Inr created_event_def NewHeader_def)
  have m: "Mapper T f c o' OrderCreated (E, db) = (Inr (Some e), ?E1, db)"
    using True e
    by (simp add: Mapper_def andthen_def new_uuid_def time_now_def of_res_def order_envelope_def
        created_event_def Let_def)
  have "nullable_text S 100 (nullable c) = Some (nullable c)"
    using True assms(1,4) by (auto simp: nullable_text_def nullable_def announce_fits_def sqlserver_okD)
  then obtain row where "outbox_columns S e = Some row" "ob_Id row = rnd E (drawn E)"
    using True assms(1,4)
    by (auto simp: outbox_columns_def ep contract_defs sqlserver_okD byte_in_def column_int_def
        announce_fits_def)
  then have i: "insertOutboxMessage S e (?E1, db) = (Inr (), ?E1, db\<lparr>OutboxMessages := OutboxMessages db @ [row]\<rparr>)"
    using True assms(2,4)
    by (simp add: insertOutboxMessage_def on_err_def call_ok insert_outbox_stmt_def)
  show ?thesis
    using assms(2,3) by (simp add: stageEvents_def andthen_def on_err_def m i ret_def)
qed

text \<open>The next \<open>k\<close> random ids are new.\<close>

definition ids_fresh :: "env \<Rightarrow> nat \<Rightarrow> ordering_db \<Rightarrow> bool" where
  "ids_fresh E k db \<longleftrightarrow>
     (let ids = map (rnd E) [drawn E..<drawn E + k] in
      distinct ids \<and>
      list_all (\<lambda>i. i \<noteq> 0 \<and> i \<notin> ir_Id ` set (OrderItems db) \<and> i \<notin> or_Id ` set (Orders db)) ids)"

lemma ids_freshD:
  assumes "ids_fresh E m db"
  shows "drawn E \<le> k \<Longrightarrow> k < drawn E + m \<Longrightarrow> rnd E k \<noteq> 0"
    and "drawn E \<le> k \<Longrightarrow> k < drawn E + m \<Longrightarrow> rnd E k \<notin> ir_Id ` set (OrderItems db)"
    and "drawn E \<le> k \<Longrightarrow> k < drawn E + m \<Longrightarrow> rnd E k \<notin> or_Id ` set (Orders db)"
    and "drawn E \<le> i \<Longrightarrow> j \<le> drawn E + m \<Longrightarrow> distinct (map (rnd E) [i..<j])"
  using assms
  by (auto simp: ids_fresh_def Let_def list_all_iff distinct_map intro: inj_on_subset)

lemma ids_fresh_items:
  assumes "ids_fresh E m db" "R \<subseteq> set (OrderItems db)" "drawn E \<le> i" "j \<le> drawn E + m"
  shows "set (map (rnd E) [i..<j]) \<inter> ir_Id ` R = {}"
proof -
  have 1: "rnd E k \<notin> ir_Id ` R" if "i \<le> k" "k < j" for k
  proof -
    have "rnd E k \<notin> ir_Id ` set (OrderItems db)"
      using that assms(3,4) by (intro ids_freshD(2) [OF assms(1)]) simp_all
    with assms(2) show ?thesis by blast
  qed
  have "x \<notin> ir_Id ` R" if "x \<in> set (map (rnd E) [i..<j])" for x
  proof -
    from that have "x \<in> rnd E ` {i..<j}" by (simp only: set_map set_upt)
    then obtain k where k: "x = rnd E k" "k \<in> {i..<j}" by (rule imageE)
    then have "i \<le> k" "k < j" by simp_all
    then have "rnd E k \<notin> ir_Id ` R" by (rule 1)
    with k(1) show ?thesis by simp
  qed
  then show ?thesis by blast
qed

text \<open>The values of a checkout that fit the columns.\<close>

definition checkout_fits :: "checkout_submitted \<Rightarrow> bool" where
  "checkout_fits ev \<longleftrightarrow>
     (\<forall>a. addressOf (cs_ShippingAddress ev) = Inr a \<longrightarrow> address_fits a) \<and>
     (\<forall>a. addressOf (cs_BillingAddress ev) = Inr a \<longrightarrow> address_fits a) \<and>
     utf16_units (cp_PaymentToken (cs_Payment ev)) \<le> 64 \<and> int32 (cp_PaymentMethod (cs_Payment ev)) \<and>
     utf16_units (cp_CardLast4 (cs_Payment ev)) \<le> 4 \<and> utf16_units (customerName ev) \<le> 100 \<and>
     list_all (\<lambda>l. int32 (cl_Quantity l) \<and> is_cents (cl_UnitPrice l) \<and> \<bar>cl_UnitPrice l\<bar> < 10 ^ 16 \<and>
       utf16_units (cl_ProductName l) \<le> 100) (cs_Items ev)"

lemma new_items_fit:
  assumes "list_all (\<lambda>l. int32 (cl_Quantity l) \<and> is_cents (cl_UnitPrice l) \<and> \<bar>cl_UnitPrice l\<bar> < 10 ^ 16 \<and>
       utf16_units (cl_ProductName l) \<le> 100) ls"
    and "list_all (\<lambda>l. cl_ProductID l \<noteq> 0 \<and> \<not> is_blank (cl_ProductName l) \<and> 0 < cl_UnitPrice l \<and>
       0 < cl_Quantity l) ls"
    and "\<forall>k. n \<le> k \<and> k < n + length ls \<longrightarrow> r k \<noteq> 0"
  shows "list_all item_fits (new_items r n oid ls) \<and> list_all (item_ok oid) (new_items r n oid ls)"
  using assms
proof (induction ls arbitrary: n)
  case Nil
  then show ?case by simp
next
  case (Cons l ls)
  have "\<forall>k. Suc n \<le> k \<and> k < Suc n + length ls \<longrightarrow> r k \<noteq> 0" "r n \<noteq> 0"
    using Cons.prems(3) by auto
  with Cons show ?case by (simp add: item_fits_def item_ok_def)
qed

lemma checkout_Handle_ok:
  assumes "sqlserver_ok S" "outcomes E = []"
    and "UnmarshalAs checkout_contract (decode_checkout T) (env_Payload e) checkout_zero = Inr ev"
    and "checkout_valid ev" "checkout_fits ev" "ids_fresh E (2 + length (cs_Items ev)) db"
    and "\<not> f \<or> announce_fits T c (checkout_order E ev) \<and>
      rnd E (Suc (drawn E + length (cs_Items ev))) \<notin> ob_Id ` set (OutboxMessages db)"
  shows "\<exists>E' db'. checkout_Handle T (mssql_repo S (Mapper T f c)) e (E, db) = (Inr (), E', db') \<and>
    placed S (checkout_order E ev) (checkout_customer ev) (map line_product (cs_Items ev)) db db' \<and>
    outcomes E' = []"
proof -
  let ?o = "checkout_order E ev" and ?n = "length (cs_Items ev)"
  let ?E1 = "E\<lparr>drawn := Suc (drawn E + ?n)\<rparr>"
  have fresh: "rnd E k \<noteq> 0" "rnd E k \<notin> ir_Id ` set (OrderItems db)"
      if "drawn E \<le> k" "k < drawn E + (2 + ?n)" for k
    using ids_freshD(1,2) [OF assms(6) that] by blast+
  have z: "rnd E (drawn E) \<noteq> 0" by (rule fresh) auto
  have of: "orderFrom ev (E, db) = (Inr (?o, checkout_customer ev, map line_product (cs_Items ev)), ?E1, db)"
    using orderFrom_ok [OF assms(4) z] by simp
  have d: "describes ev ?o (checkout_customer ev) (map line_product (cs_Items ev))"
    by (rule orderFrom_Inr [OF of])
  have i: "items ?o = new_items (rnd E) (Suc (drawn E)) (rnd E (drawn E)) (cs_Items ev)"
      "order_id ?o = rnd E (drawn E)" "events ?o = [OrderCreated]"
    by (simp_all add: checkout_order_def NewOrder_def raise_event_def newOrder_def)
  have fits: "order_fits ?o"
  proof -
    have "list_all item_fits (items ?o)"
      unfolding i(1) using assms(4,5) fresh(1)
      by (intro new_items_fit [THEN conjunct1]) (auto simp: checkout_valid_def checkout_fits_def)
    with d assms(5) z show ?thesis
      by (auto simp: order_fits_def describes_def checkout_fits_def i(2))
  qed
  have ids: "map item_ID (items ?o) = map (rnd E) [Suc (drawn E)..<Suc (drawn E) + ?n]"
    unfolding i(1) by (rule new_items_ids)
  have "distinct (map item_ID (items ?o))"
    unfolding ids by (rule ids_freshD(4) [OF assms(6)]) simp_all
  moreover have "set (map item_ID (items ?o)) \<inter> ir_Id ` {r \<in> set (OrderItems db). ir_OrderId r \<noteq> order_id ?o} = {}"
    unfolding ids by (rule ids_fresh_items [OF assms(6)]) auto
  moreover have "item_ProductID ` set (items ?o) \<subseteq> product_ID ` set (map line_product (cs_Items ev))"
    unfolding i(1) new_items_products by (simp add: line_product_def image_image)
  moreover have "customer_fits (checkout_customer ev)"
  proof -
    from assms(4) obtain a where a: "addressOf (cs_ShippingAddress ev) = Inr a"
      by (auto simp: checkout_valid_def)
    with assms(5) have "address_fits a" by (simp add: checkout_fits_def)
    with a have "utf16_units (ca_EmailAddress (cs_ShippingAddress ev)) \<le> 50"
      by (auto simp: addressOf_def NewAddress_Inr address_fits_def)
    with assms(5) show ?thesis by (simp add: customer_fits_def checkout_customer_def checkout_fits_def)
  qed
  moreover have "list_all product_fits (map line_product (cs_Items ev))"
    using assms(5) by (auto simp: checkout_fits_def list_all_iff product_fits_def line_product_def)
  moreover have "\<exists>E4 db4. stageEvents S (Mapper T f c) ?o (?E1, db3) = (Inr (), E4, db4) \<and> outcomes E4 = []"
    if "OutboxMessages db3 = OutboxMessages db" for db3
    using stage_created_ok [OF assms(1) _ i(3), of ?E1 f T c db3] assms(2,7) that
      fresh(1) [of "Suc (drawn E + ?n)"] by auto
  ultimately obtain E' db' where p:
    "Place S (Mapper T f c) ?o (checkout_customer ev) (map line_product (cs_Items ev)) (?E1, db)
      = (Inr (?o\<lparr>events := []\<rparr>), E', db')" "outcomes E' = []"
    using Place_ok [OF assms(1) _ fits, of ?E1 "checkout_customer ev" "map line_product (cs_Items ev)" db "Mapper T f c"]
      d assms(2) by (auto simp: describes_def checkout_customer_def)
  have "checkout_Handle T (mssql_repo S (Mapper T f c)) e (E, db) = (Inr (), E', db')"
    by (simp add: checkout_Handle_def assms(3) andthen_def on_err_def of p(1) mssql_repo_def ret_def)
  moreover have "placed S ?o (checkout_customer ev) (map line_product (cs_Items ev)) db db'"
    using Place_cases(2) [OF quiet_Mapper p(1) refl] by simp
  ultimately show ?thesis using p(2) by blast
qed

section \<open>The laws of a repository\<close>

text \<open>
  \<open>ok\<close> is what the store keeps of itself, \<open>ids\<close> the orders it has. The handlers rest on these laws
  only.
\<close>

locale order_repository =
  fixes repo :: "'s order_repo" and ok :: "'s \<Rightarrow> bool" and ids :: "'s \<Rightarrow> uuid set"
  assumes save_ok: "keeps ok (repo_Save repo o')"
    and place_ok: "keeps ok (repo_Place repo o' cu ps)"
    and delete_ok: "keeps ok (repo_Delete repo oid)"
    and reads: "quiet (repo_ByID repo oid)" "quiet (repo_List repo page)" "quiet (repo_ByCustomer repo cid)"
    and save_ids: "repo_Save repo o' (E, s) = (r, E', s') \<Longrightarrow>
        ids s' = ids s \<or> ids s' = insert (order_id o') (ids s)"
    and save_Inr: "repo_Save repo o' (E, s) = (Inr o2, E', s') \<Longrightarrow>
        ids s' = insert (order_id o') (ids s) \<and> order_id o2 = order_id o'"
    and place_ids: "repo_Place repo o' cu ps (E, s) = (r, E', s') \<Longrightarrow>
        ids s' = ids s \<or> ids s' = insert (order_id o') (ids s)"
    and delete_ids: "repo_Delete repo oid (E, s) = (q, E', s') \<Longrightarrow> ids s' = ids s \<or> ids s' = ids s - {oid}"
    and delete_Inr: "repo_Delete repo oid (E, s) = (Inr u, E', s') \<Longrightarrow> oid \<in> ids s \<and> ids s' = ids s - {oid}"
    and byid_Inr: "repo_ByID repo oid (E, s) = (Inr o2, E', s') \<Longrightarrow> oid \<in> ids s \<and> order_id o2 = oid"
    and byid_unknown: "outcomes E = [] \<Longrightarrow> oid \<notin> ids s \<Longrightarrow>
        repo_ByID repo oid (E, s) = (Inl (NotFound ''Order'' (ArgUuid oid)), E, s)"
begin

lemma applyUpdate_id: "applyUpdate c o' = Inr o2 \<Longrightarrow> order_id o2 = order_id o'"
  by (auto simp: applyUpdate_def try_res_Inr Update_def raise_event_def split: if_splits)

lemma update_keeps_ids:
  assumes "UpdateOrder repo c (E, s) = (r, E', s')"
  shows "ids s' = ids s"
proof (cases "uo_ID c = 0")
  case True
  with assms show ?thesis
    by (auto simp: UpdateOrder_def andthen_def on_err_def of_res_def NewOrderID_def new_id_def)
next
  case False
  obtain r1 E1 s1 where 1: "repo_ByID repo (uo_ID c) (E, s) = (r1, E1, s1)"
    by (cases "repo_ByID repo (uo_ID c) (E, s)") auto
  have s1: "s1 = s" using quietD [OF reads(1) 1] .
  show ?thesis
  proof (cases r1)
    case (Inl e)
    with False 1 s1 assms show ?thesis
      by (auto simp: UpdateOrder_def andthen_def on_err_def of_res_def NewOrderID_def new_id_def)
  next
    case (Inr o1)
    have known: "uo_ID c \<in> ids s" "order_id o1 = uo_ID c" using byid_Inr 1 Inr by auto
    show ?thesis
    proof (cases "applyUpdate c o1")
      case (Inl e)
      with False 1 s1 \<open>r1 = Inr o1\<close> assms show ?thesis
        by (auto simp: UpdateOrder_def andthen_def on_err_def of_res_def NewOrderID_def new_id_def)
    next
      case (Inr o2)
      obtain r3 E3 s3 where 3: "repo_Save repo o2 (E1, s) = (r3, E3, s3)"
        by (cases "repo_Save repo o2 (E1, s)") auto
      have "s' = s3"
        using False 1 s1 \<open>r1 = Inr o1\<close> Inr 3 assms
        by (auto simp: UpdateOrder_def andthen_def on_err_def of_res_def NewOrderID_def new_id_def
            ret_def split: sum.splits)
      with save_ids [OF 3] applyUpdate_id [OF Inr] known show ?thesis by auto
    qed
  qed
qed

lemma update_missing:
  assumes "outcomes E = []" "uo_ID c \<noteq> 0" "uo_ID c \<notin> ids s"
  shows "UpdateOrder repo c (E, s) = (Inl (NotFound ''Order'' (ArgUuid (uo_ID c))), E, s)"
  using assms byid_unknown [OF assms(1,3)]
  by (simp add: UpdateOrder_def andthen_def on_err_def of_res_def NewOrderID_def new_id_def)

lemma create_adds_id:
  assumes "CreateOrder repo c (E, s) = (Inr oid, E', s')"
  shows "ids s' = insert oid (ids s)"
proof -
  have q: "stateless (add_lines ls o')" for ls and o' :: order
    by (induction ls arbitrary: o') (auto intro!: stateless_intro)
  have "stateless (buildOrder c)"
    unfolding buildOrder_def by (intro stateless_intro q)
  from assms obtain o1 E1 s1 o2 where
    1: "buildOrder c (E, s) = (Inr o1, E1, s1)" "repo_Save repo o1 (E1, s1) = (Inr o2, E', s')" "oid = order_id o2"
    by (auto simp: CreateOrder_def andthen_Inr on_err_Inr)
  have "s1 = s" using quietD [OF stateless_quiet [OF \<open>stateless (buildOrder c)\<close>] 1(1)] .
  with save_Inr [OF 1(2)] 1(3) show ?thesis by simp
qed

lemma delete_removes_id:
  assumes "DeleteOrder repo oid (E, s) = (Inr b, E', s')"
  shows "b \<and> oid \<in> ids s \<and> ids s' = ids s - {oid}"
  using assms by (auto simp: DeleteOrder_def andthen_Inr on_err_Inr NewOrderID_def dest: delete_Inr)

lemma queries_quiet:
  "quiet (GetOrderByID repo oid)" "quiet (GetOrders repo page)" "quiet (GetOrdersByCustomer repo cid)"
  unfolding GetOrderByID_def GetOrders_def GetOrdersByCustomer_def
  by (auto intro!: quiet_andthen reads split: prod.split)

lemma handlers_keep_ok:
  "keeps ok (CreateOrder repo c)" "keeps ok (UpdateOrder repo u)" "keeps ok (DeleteOrder repo oid)"
  "keeps ok (checkout_Handle T repo e)"
proof -
  have q: "stateless (add_lines ls o')" for ls and o' :: order
    by (induction ls arbitrary: o') (auto intro!: stateless_intro)
  have b: "keeps ok (buildOrder c)"
    unfolding buildOrder_def by (intro quiet_keeps stateless_quiet stateless_intro q)
  have f: "keeps ok (orderFrom ev)" for ev
    by (intro quiet_keeps stateless_quiet stateless_intro)
  show "keeps ok (CreateOrder repo c)"
    unfolding CreateOrder_def by (intro wf_intro b save_ok)
  show "keeps ok (UpdateOrder repo u)"
    unfolding UpdateOrder_def by (intro wf_intro save_ok quiet_keeps [OF reads(1)])
  show "keeps ok (DeleteOrder repo oid)"
    unfolding DeleteOrder_def by (intro wf_intro delete_ok)
  show "keeps ok (checkout_Handle T repo e)"
    unfolding checkout_Handle_def
    by (auto intro!: wf_intro f place_ok split: sum.split prod.split)
qed

end

definition order_ids :: "ordering_db \<Rightarrow> uuid set" where
  "order_ids db = or_Id ` set (Orders db)"

lemma saved_ids: "saved S o' db db' \<Longrightarrow> order_ids db' = insert (order_id o') (order_ids db)"
proof -
  assume "saved S o' db db'"
  then obtain r t where r: "order_columns S o' t = Some r" "Orders db' = merge_order r (Orders db)"
    by (auto simp: saved_def)
  with order_columns_ids [OF r(1)] show ?thesis by (simp add: order_ids_def merge_order_id_set)
qed

lemma placed_ids: "placed S o' cu ps db db' \<Longrightarrow> order_ids db' = insert (order_id o') (order_ids db)"
proof -
  assume "placed S o' cu ps db db'"
  then obtain cs qs where "saved S o' (db\<lparr>Customers := cs, Products := qs\<rparr>) db'"
    by (auto simp: placed_def)
  from saved_ids [OF this] show ?thesis by (simp add: order_ids_def)
qed

lemma Delete_cases:
  assumes "Delete oid (E, db) = (r, E', db')"
  shows "db' = db \<or> oid \<in> order_ids db \<and>
      db' = (clear_items oid db)\<lparr>Orders := filter (\<lambda>r. or_Id r \<noteq> oid) (Orders db)\<rparr>"
    and "r = Inr u \<Longrightarrow> oid \<in> order_ids db \<and>
      db' = (clear_items oid db)\<lparr>Orders := filter (\<lambda>r. or_Id r \<noteq> oid) (Orders db)\<rparr>"
proof -
  let ?m = "on_err (Wrapped (Fmt ''deleting order %s'' [ArgUuid oid])) (call (delete_stmt oid))"
  obtain r1 E1 db1 where 1: "?m (E, db) = (r1, E1, db1)" by (cases "?m (E, db)") auto
  then obtain r2 where 2: "call (delete_stmt oid) (E, db) = (r2, E1, db1)"
    using on_err_state by metis
  have db': "db' = db1"
    using assms 1 by (auto simp: Delete_def andthen_def ret_def fail_def split: sum.splits if_splits)
  have none: "filter (\<lambda>r. or_Id r = oid) (Orders db) = [] \<longleftrightarrow> oid \<notin> order_ids db"
    by (auto simp: order_ids_def filter_empty_conv)
  show "db' = db \<or> oid \<in> order_ids db \<and>
      db' = (clear_items oid db)\<lparr>Orders := filter (\<lambda>r. or_Id r \<noteq> oid) (Orders db)\<rparr>"
    using call_cases [OF 2] none unfolding db' by (auto simp: delete_stmt_def Let_def split: if_splits)
  show "oid \<in> order_ids db \<and>
      db' = (clear_items oid db)\<lparr>Orders := filter (\<lambda>r. or_Id r \<noteq> oid) (Orders db)\<rparr>" if "r = Inr u"
  proof -
    from assms that obtain n where "r1 = Inr n" "n \<noteq> 0"
      using 1 by (auto simp: Delete_def andthen_def ret_def fail_def split: sum.splits if_splits)
    with 1 have "call (delete_stmt oid) (E, db) = (Inr n, E1, db1)" by (simp add: on_err_Inr)
    from call_Inr [OF this] \<open>n \<noteq> 0\<close> none show ?thesis
      unfolding db' by (auto simp: delete_stmt_def Let_def)
  qed
qed

lemma ByID_Inr: "ByID S oid (E, db) = (Inr o2, E', db') \<Longrightarrow> oid \<in> order_ids db \<and> order_id o2 = oid"
proof -
  assume b: "ByID S oid (E, db) = (Inr o2, E', db')"
  then obtain r where r: "find_order oid (Orders db) = Some r" "order_id o2 = or_Id r"
    by (auto simp: ByID_def andthen_Inr on_err_Inr scanOrder_def try_res_Inr NewOrderID_def
        withItems_def Restore_def newOrder_def dest!: query_Inr split: option.splits) metis
  from find_order_Some [OF r(1)] r(2) show ?thesis unfolding order_ids_def by (metis imageI)
qed

interpretation mssql_orders: order_repository "mssql_repo S (Mapper T f c)" db_ok order_ids for S T f c
proof (unfold_locales, goal_cases)
  case 1 show ?case by (simp add: mssql_repo_def keeps_Save)
next
  case 2 show ?case by (simp add: mssql_repo_def keeps_Place)
next
  case 3 show ?case by (simp add: mssql_repo_def keeps_Delete)
next
  case 4 show ?case by (simp add: mssql_repo_def quiet_reads)
next
  case 5 show ?case by (simp add: mssql_repo_def quiet_reads)
next
  case 6 show ?case by (simp add: mssql_repo_def quiet_reads)
next
  case (7 o' E s r E' s')
  then have "Save S (Mapper T f c) o' (E, s) = (r, E', s')" by (simp add: mssql_repo_def)
  from Save_cases(1) [OF quiet_Mapper this] show ?case by (auto dest: saved_ids)
next
  case (8 o' E s o2 E' s')
  then have "Save S (Mapper T f c) o' (E, s) = (Inr o2, E', s')" by (simp add: mssql_repo_def)
  from Save_cases(2) [OF quiet_Mapper this refl] show ?case by (auto dest: saved_ids)
next
  case (9 o' cu ps E s r E' s')
  then have "Place S (Mapper T f c) o' cu ps (E, s) = (r, E', s')" by (simp add: mssql_repo_def)
  from Place_cases(1) [OF quiet_Mapper this] show ?case by (auto dest: placed_ids)
next
  case (10 oid E s q E' s')
  then have "Delete oid (E, s) = (q, E', s')" by (simp add: mssql_repo_def)
  from Delete_cases(1) [OF this] show ?case by (auto simp: order_ids_def clear_items_def)
next
  case (11 oid E s u E' s')
  then have "oid \<in> order_ids s \<and>
      s' = (clear_items oid s)\<lparr>Orders := filter (\<lambda>r. or_Id r \<noteq> oid) (Orders s)\<rparr>"
    using Delete_cases(2) [OF _ refl] by (simp add: mssql_repo_def)
  then show ?case by (auto simp: order_ids_def clear_items_def)
next
  case (12 oid E s o2 E' s')
  then show ?case using ByID_Inr by (simp add: mssql_repo_def)
next
  case (13 E oid s)
  then show ?case
    by (simp add: mssql_repo_def ByID_def andthen_def on_err_def query_ok order_ids_def
        find_order_None [symmetric] fail_def)
qed

section \<open>A checkout to run\<close>

definition sample_checkout :: checkout_submitted where
  "sample_checkout =
     checkout_zero\<lparr>cs_Header := NewHeader 7 5 '''', cs_UserName := ''swn01'', cs_CustomerID := 2,
       cs_TotalPrice := 6,
       cs_Items := [\<lparr>cl_ProductID = 8, cl_ProductName = ''Pen'', cl_Quantity = 2, cl_UnitPrice = 3\<rparr>],
       cs_ShippingAddress := checkout_address_zero\<lparr>ca_FirstName := ''A'', ca_EmailAddress := ''a@b.c'',
         ca_AddressLine := ''x''\<rparr>,
       cs_BillingAddress := checkout_address_zero\<lparr>ca_EmailAddress := ''a@b.c'', ca_AddressLine := ''x''\<rparr>,
       cs_Payment := \<lparr>cp_PaymentToken = ''pt_1'', cp_CardLast4 = ''4444'', cp_PaymentMethod = 1\<rparr>\<rparr>"

definition checkout_message :: "checkout_submitted \<Rightarrow> envelope" where
  "checkout_message ev =
     \<lparr>env_ID = hdr_ID (cs_Header ev), env_Contract = checkout_contract, env_AggregateID = cs_UserName ev,
      env_CorrelationID = '''', env_OccurredOnUTC = 5, env_Payload = Marshal sample_texts (CheckoutSubmitted ev)\<rparr>"

lemma decode_message:
  "checkout_ok ev \<Longrightarrow> UnmarshalAs checkout_contract (decode_checkout sample_texts)
     (env_Payload (checkout_message ev)) checkout_zero = Inr ev"
  by (simp add: UnmarshalAs_def checkout_message_def decode_checkout_json sample_texts_ok)

lemma sample_checkout_ok: "checkout_ok sample_checkout"
  using is_decimal_int [of 6] is_decimal_int [of 3]
  by (simp add: sample_checkout_def checkout_ok_def checkout_zero_def header_ok_def NewHeader_def
      checkout_line_ok_def checkout_address_ok_def checkout_address_zero_def
      checkout_payment_ok_def int64_def utf8_ok_ascii ascii_def byte_in_def)

lemma TrimSpace_A: "TrimSpace ''A '' = ''A''"
proof -
  have "strip_any space_encodings ''A '' = ''A ''"
    by (rule strip_any_stop) (simp add: space_encodings_def)
  moreover have "strip_any (map rev space_encodings) '' A'' = ''A''"
  proof -
    have "strip_any (map rev space_encodings) '' A'' = strip_any (map rev space_encodings) ''A''"
      by (subst strip_any.simps) (simp add: space_encodings_def)
    also have "\<dots> = ''A''" by (rule strip_any_stop) (simp add: space_encodings_def)
    finally show ?thesis .
  qed
  ultimately show ?thesis by (simp add: TrimSpace_def)
qed

lemma sample_checkout_name: "customerName sample_checkout = ''A''"
  by (simp add: customerName_def sample_checkout_def checkout_zero_def checkout_address_zero_def
      TrimSpace_A)

lemma sample_checkout_valid: "checkout_valid sample_checkout" "checkout_fits sample_checkout"
proof -
  have c: "is_cents 3" by (simp add: is_cents_def)
  show "checkout_valid sample_checkout"
    unfolding checkout_valid_def sample_checkout_name
    by (simp add: sample_checkout_def checkout_zero_def checkout_address_zero_def totalOf_def
        addressOf_def NewAddress_def NewPayment_def isDigits_def cardLast4Length_def digit_def
        not_blank_visible byte_in_def)
  show "checkout_fits sample_checkout"
    unfolding checkout_fits_def sample_checkout_name
    by (auto simp: sample_checkout_def checkout_zero_def checkout_address_zero_def addressOf_def
        NewAddress_Inr address_fits_def int32_def byte_in_def c)
qed

section \<open>Properties\<close>

text \<open>
  C1. A checkout that is handled becomes the order it describes: the message's customer, addresses,
  payment reference and exactly its lines at the prices it carries, pending, well formed, and worth
  the total the message states.
\<close>

theorem checkout_becomes_its_order:
  assumes "checkout_Handle T (mssql_repo S (Mapper T f c)) e (E, db) = (Inr u, E', db')"
  shows "\<exists>ev o' cu ps. UnmarshalAs checkout_contract (decode_checkout T) (env_Payload e) checkout_zero = Inr ev \<and>
    describes ev o' cu ps \<and> placed S o' cu ps db db' \<and> order_ids db' = insert (order_id o') (order_ids db)"
proof -
  from assms obtain ev where
    ev: "UnmarshalAs checkout_contract (decode_checkout T) (env_Payload e) checkout_zero = Inr ev"
    by (auto simp: checkout_Handle_def split: sum.splits)
  with assms obtain o' cu ps E1 s1 o2 where
    1: "orderFrom ev (E, db) = (Inr (o', cu, ps), E1, s1)" and
    2: "Place S (Mapper T f c) o' cu ps (E1, s1) = (Inr o2, E', db')"
    by (auto simp: checkout_Handle_def andthen_Inr on_err_Inr mssql_repo_def)
  have "s1 = db" using quietD [OF stateless_quiet [OF stateless_orderFrom] 1] .
  with Place_cases(2) [OF quiet_Mapper 2 refl] have p: "placed S o' cu ps db db'" by simp
  from ev orderFrom_Inr [OF 1] p placed_ids [OF p] show ?thesis by blast
qed

theorem checkout_becomes_its_order_witness:
  "\<exists>E' db'. checkout_Handle sample_texts (mssql_repo sample_sql (Mapper sample_texts False ''''))
      (checkout_message sample_checkout) (sample_env, ordering_db_empty) = (Inr (), E', db') \<and>
    (\<exists>oid. order_ids db' = {oid})"
proof -
  have "ids_fresh sample_env (2 + length (cs_Items sample_checkout)) ordering_db_empty"
    by (simp add: ids_fresh_def Let_def sample_env_def sample_checkout_def ordering_db_empty_def upt_rec)
  from checkout_Handle_ok [OF sample_sql_ok sample_env_ok decode_message [OF sample_checkout_ok]
      sample_checkout_valid this, of False "''''"]
  obtain E' db' where
    h: "checkout_Handle sample_texts (mssql_repo sample_sql (Mapper sample_texts False ''''))
      (checkout_message sample_checkout) (sample_env, ordering_db_empty) = (Inr (), E', db')"
    by auto
  from checkout_becomes_its_order [OF h] h show ?thesis
    by (auto simp: order_ids_def ordering_db_empty_def)
qed

text \<open>
  C3. A checkout whose content is in order is never lost and never refused: with the database
  answering and fresh ids, a valid message that fits the columns is placed.
\<close>

theorem valid_checkout_is_placed:
  assumes "sqlserver_ok S" "outcomes E = []"
    and "UnmarshalAs checkout_contract (decode_checkout T) (env_Payload e) checkout_zero = Inr ev"
    and "checkout_valid ev" "checkout_fits ev" "ids_fresh E (2 + length (cs_Items ev)) db"
    and "\<not> f \<or> announce_fits T c (checkout_order E ev) \<and>
      rnd E (Suc (drawn E + length (cs_Items ev))) \<notin> ob_Id ` set (OutboxMessages db)"
  shows "\<exists>E' db'. checkout_Handle T (mssql_repo S (Mapper T f c)) e (E, db) = (Inr (), E', db') \<and>
    rnd E (drawn E) \<in> order_ids db'"
proof -
  from checkout_Handle_ok [OF assms] obtain E' db' where
    h: "checkout_Handle T (mssql_repo S (Mapper T f c)) e (E, db) = (Inr (), E', db')"
       "placed S (checkout_order E ev) (checkout_customer ev) (map line_product (cs_Items ev)) db db'"
    by blast
  have "order_id (checkout_order E ev) = rnd E (drawn E)"
    by (simp add: checkout_order_def NewOrder_def raise_event_def newOrder_def)
  with placed_ids [OF h(2)] h(1) show ?thesis by auto
qed

theorem valid_checkout_is_placed_witness:
  "\<exists>E' db'. checkout_Handle sample_texts (mssql_repo sample_sql (Mapper sample_texts False ''''))
      (checkout_message sample_checkout) (sample_env, ordering_db_empty) = (Inr (), E', db') \<and>
    rnd sample_env (drawn sample_env) \<in> order_ids db'"
  by (rule valid_checkout_is_placed [OF sample_sql_ok sample_env_ok decode_message [OF sample_checkout_ok]
      sample_checkout_valid])
    (simp_all add: ids_fresh_def Let_def sample_env_def sample_checkout_def ordering_db_empty_def upt_rec)

lemma checkout_lines_valid:
  "checkout_lines ls ps o' (E, s) = (Inr x, E', s') \<Longrightarrow>
     list_all (\<lambda>l. cl_ProductID l \<noteq> 0 \<and> \<not> is_blank (cl_ProductName l) \<and> 0 < cl_UnitPrice l \<and> 0 < cl_Quantity l) ls"
proof (induction ls arbitrary: ps o' E s)
  case Nil
  then show ?case by simp
next
  case (Cons l ls)
  from Cons.prems obtain o1 E1 s1 E2 s2 p where
    p: "cl_ProductID l \<noteq> 0" "NewProduct (cl_ProductID l) (cl_ProductName l) (cl_UnitPrice l) = Inr p" and
    1: "add_line (cl_ProductID l) (cl_Quantity l) (cl_UnitPrice l) o' (E1, s1) = (Inr o1, E2, s2)" and
    2: "checkout_lines ls (ps @ [p]) o1 (E2, s2) = (Inr x, E', s')"
    by (auto simp: andthen_Inr NewProductID_def)
  from add_line_Inr [OF 1] have "0 < cl_Quantity l" "0 < cl_UnitPrice l" by (auto simp: Add_Inr)
  with p Cons.IH [OF 2] show ?case by (auto simp: NewProduct_Inr)
qed

text \<open>What \<open>orderFrom\<close> accepts is what is valid: the two are written independently of each other.\<close>

lemma orderFrom_valid:
  assumes "orderFrom ev (E, s) = (Inr x, E', s')"
  shows "checkout_valid ev"
proof -
  from assms have ne: "cs_Items ev \<noteq> []" "totalOf (cs_Items ev) = cs_TotalPrice ev"
    by (auto simp: orderFrom_def Let_def split: if_splits)
  with assms obtain cu o1 E1 s1 E2 s2 y where
    c: "cs_CustomerID ev \<noteq> 0"
       "NewCustomer (cs_CustomerID ev) (customerName ev) (ca_EmailAddress (cs_ShippingAddress ev)) = Inr cu" and
    1: "checkout_newOrder ev (cs_CustomerID ev) (E1, s1) = (Inr o1, E2, s2)" and
    2: "checkout_lines (cs_Items ev) [] o1 (E2, s2) = (Inr y, E', s')"
    by (auto simp: orderFrom_def Let_def andthen_Inr NewCustomerID_def)
  from checkout_newOrder_Inr [OF 1] checkout_lines_valid [OF 2] c ne show ?thesis
    by (auto simp: checkout_valid_def NewCustomer_Inr)
qed

lemma checkout_invalid_rejected:
  assumes "\<not> (\<exists>ev. UnmarshalAs checkout_contract (decode_checkout T) (env_Payload e) checkout_zero = Inr ev \<and> checkout_valid ev)"
  shows "\<exists>er E'. checkout_Handle T repo e (E, db) = (Inl er, E', db) \<and> IsRejected er"
proof (cases "UnmarshalAs checkout_contract (decode_checkout T) (env_Payload e) checkout_zero")
  case (Inl de)
  then show ?thesis by (simp add: checkout_Handle_def fail_def)
next
  case (Inr ev)
  obtain r1 E1 s1 where 1: "orderFrom ev (E, db) = (r1, E1, s1)" by (cases "orderFrom ev (E, db)") auto
  with stateless_same [OF stateless_orderFrom 1, of db] have "s1 = db" by simp
  moreover have "\<nexists>x. r1 = Inr x" using 1 Inr assms orderFrom_valid [of ev E db] by blast
  then obtain oe where "r1 = Inl oe" by (cases r1) auto
  ultimately show ?thesis using 1 Inr by (simp add: checkout_Handle_def andthen_def on_err_def)
qed

lemma checkout_valid_not_rejected:
  assumes "UnmarshalAs checkout_contract (decode_checkout T) (env_Payload e) checkout_zero = Inr ev"
    and "checkout_valid ev" "rnd E (drawn E) \<noteq> 0"
    and "checkout_Handle T (mssql_repo S (Mapper T f c)) e (E, db) = (Inl er, E', db')"
  shows "\<not> IsRejected er"
proof -
  from assms obtain o' cu ps E1 where "Place S (Mapper T f c) o' cu ps (E1, db) = (Inl er, E', db')"
    by (auto simp: checkout_Handle_def orderFrom_ok andthen_def on_err_def mssql_repo_def ret_def split: prod.splits sum.splits)
  from throwsD [OF throws_Place this] show ?thesis by simp
qed



text \<open>
  An update can only change an order that exists: whatever it answers and whatever fails, the
  set of orders stays the same, so it never brings a deleted order back; and a missing order is
  answered with not found, changing nothing.
\<close>

theorem update_never_creates:
  assumes "UpdateOrder (mssql_repo S (Mapper T f c)) u (E, db) = (res, E', db')"
  shows "order_ids db' = order_ids db \<and>
    (outcomes E = [] \<and> uo_ID u \<noteq> 0 \<and> uo_ID u \<notin> order_ids db \<longrightarrow>
       res = Inl (NotFound ''Order'' (ArgUuid (uo_ID u))) \<and> db' = db)"
  using mssql_orders.update_keeps_ids [OF assms] mssql_orders.update_missing [of E u db S T f c] assms
  by auto

definition sample_update :: update_order_command where
  "sample_update =
     \<lparr>uo_ID = 5, uo_ShippingAddress = \<lparr>ai_FirstName = '''', ai_LastName = '''', ai_EmailAddress = '''',
        ai_AddressLine = '''', ai_Country = '''', ai_State = '''', ai_ZipCode = ''''\<rparr>,
      uo_BillingAddress = \<lparr>ai_FirstName = '''', ai_LastName = '''', ai_EmailAddress = '''',
        ai_AddressLine = '''', ai_Country = '''', ai_State = '''', ai_ZipCode = ''''\<rparr>,
      uo_Payment = \<lparr>pi_PaymentToken = '''', pi_CardLast4 = '''', pi_PaymentMethod = 0\<rparr>, uo_Status = ''''\<rparr>"

theorem update_never_creates_witness:
  "\<exists>E'. UpdateOrder (mssql_repo sample_sql (Mapper sample_texts False '''')) sample_update
      (sample_env, ordering_db_empty) = (Inl (NotFound ''Order'' (ArgUuid 5)), E', ordering_db_empty)"
proof -
  obtain res E' db' where u: "UpdateOrder (mssql_repo sample_sql (Mapper sample_texts False '''')) sample_update
      (sample_env, ordering_db_empty) = (res, E', db')"
    by (cases "UpdateOrder (mssql_repo sample_sql (Mapper sample_texts False '''')) sample_update
      (sample_env, ordering_db_empty)") auto
  from update_never_creates [OF u]
  have "res = Inl (NotFound ''Order'' (ArgUuid 5)) \<and> db' = ordering_db_empty"
    by (simp add: sample_update_def order_ids_def ordering_db_empty_def)
  with u show ?thesis by simp
qed

text \<open>
  The read model says nothing about the payment token: two orders that differ only in it look
  the same to every reader.
\<close>

theorem views_hide_token:
  "paymentToken (order_payment o') \<noteq> '''' \<and> t \<noteq> '''' \<longrightarrow>
     viewOf (o'\<lparr>order_payment := (order_payment o')\<lparr>paymentToken := t\<rparr>\<rparr>) = viewOf o'"
  by (simp add: viewOf_def paymentView_def IsZero_def TotalPrice_def)

theorem views_hide_token_witness:
  "viewOf (sample_order\<lparr>order_payment := (order_payment sample_order)\<lparr>paymentToken := ''other''\<rparr>\<rparr>)
     = viewOf sample_order"
  by (rule views_hide_token [rule_format])
    (simp add: sample_order_def NewOrder_def raise_event_def newOrder_def sample_payment_def)

text \<open>
  C14. A value that does not fit its column is neither an error the checkout is rejected for nor one
  that passes: a checkout whose ZIP code has more than five characters is valid, so its message is
  never set aside, and no attempt, under any failures and against any tables, ever places it.
\<close>

theorem oversized_checkout_never_settles:
  assumes "sqlserver_ok S"
    and "UnmarshalAs checkout_contract (decode_checkout T) (env_Payload e) checkout_zero = Inr ev"
    and "checkout_valid ev" "rnd E (drawn E) \<noteq> 0"
    and "5 < utf16_units (ca_ZipCode (cs_ShippingAddress ev))" "last (ca_ZipCode (cs_ShippingAddress ev)) \<noteq> CHR '' ''"
  shows "\<exists>er E'. checkout_Handle T (mssql_repo S (Mapper T f c)) e (E, db) = (Inl er, E', db) \<and> \<not> IsRejected er"
proof -
  let ?o = "checkout_order E ev" and ?c = "checkout_customer ev" and ?ps = "map line_product (cs_Items ev)"
  let ?E1 = "E\<lparr>drawn := Suc (drawn E + length (cs_Items ev))\<rparr>"
  have of: "orderFrom ev (E, db) = (Inr (?o, ?c, ?ps), ?E1, db)"
    using orderFrom_ok [OF assms(3,4)] by simp
  obtain r E' db' where p: "Place S (Mapper T f c) ?o ?c ?ps (?E1, db) = (r, E', db')"
    by (cases "Place S (Mapper T f c) ?o ?c ?ps (?E1, db)") auto
  have "addressOf (cs_ShippingAddress ev) = Inr (shippingAddress ?o)"
    using orderFrom_Inr [OF of] by (simp add: describes_def)
  then have "ZipCode (shippingAddress ?o) = ca_ZipCode (cs_ShippingAddress ev)"
    by (auto simp: addressOf_def NewAddress_Inr)
  then have "column_text S 5 (ZipCode (shippingAddress ?o)) = None"
    using sqlserver_okD(2) [OF assms(1)] assms(5,6) by simp
  then have "order_columns S ?o t = None" for t
    by (auto simp: order_columns_def address_columns_def bind_eq_None_conv)
  then have np: "\<not> placed S ?o ?c ?ps db db'" by (simp add: placed_def saved_def)
  have "db' = db" using Place_cases(1) [OF quiet_Mapper p] np by blast
  moreover obtain er where "r = Inl er" using Place_cases(2) [OF quiet_Mapper p] np by (cases r) auto
  moreover have "\<not> IsRejected er" using throwsD [OF throws_Place] p \<open>r = Inl er\<close> by blast
  ultimately have "checkout_Handle T (mssql_repo S (Mapper T f c)) e (E, db) = (Inl er, E', db) \<and> \<not> IsRejected er"
    using p by (simp add: checkout_Handle_def assms(2) andthen_def on_err_def of mssql_repo_def)
  then show ?thesis by blast
qed

definition oversized_checkout :: checkout_submitted where
  "oversized_checkout = sample_checkout\<lparr>cs_ShippingAddress :=
     (cs_ShippingAddress sample_checkout)\<lparr>ca_ZipCode := ''34000-1234''\<rparr>\<rparr>"

lemma oversized_checkout_valid: "checkout_ok oversized_checkout" "checkout_valid oversized_checkout"
proof -
  show "checkout_ok oversized_checkout"
    using sample_checkout_ok
    by (simp add: oversized_checkout_def checkout_ok_def checkout_address_ok_def utf8_ok_ascii ascii_def
        byte_in_def)
  have n: "customerName oversized_checkout = ''A''"
    using sample_checkout_name
    by (auto simp: customerName_def oversized_checkout_def Let_def split: if_splits)
  show "checkout_valid oversized_checkout"
    using sample_checkout_valid(1)
    by (auto simp: checkout_valid_def n sample_checkout_name)
      (auto simp: oversized_checkout_def addressOf_def NewAddress_Inr address_ok_def)
qed

theorem oversized_checkout_never_settles_witness:
  "\<exists>er E'. checkout_Handle sample_texts (mssql_repo sample_sql (Mapper sample_texts False ''''))
      (checkout_message oversized_checkout) (sample_env, ordering_db_empty) = (Inl er, E', ordering_db_empty) \<and>
    \<not> IsRejected er"
  by (rule oversized_checkout_never_settles [OF sample_sql_ok
        decode_message [OF oversized_checkout_valid(1)] oversized_checkout_valid(2)])
    (simp_all add: sample_env_def oversized_checkout_def byte_in_def)

text \<open>The tables after the first delivery has claimed the message, and after it has placed the order.\<close>

definition claimed_db :: ordering_db where
  "claimed_db = ordering_db_empty\<lparr>InboxMessages := [(7, consumerName) \<mapsto> None]\<rparr>"

lemma sample_first_order:
  "\<exists>E2 db2. checkout_Handle sample_texts (mssql_repo sample_sql (Mapper sample_texts False ''''))
      (checkout_message sample_checkout) (sample_env, claimed_db) = (Inr (), E2, db2) \<and>
    order_ids db2 = {100} \<and> ir_Id ` set (OrderItems db2) = {101} \<and>
    InboxMessages db2 = [(7, consumerName) \<mapsto> None]"
proof -
  have f1: "ids_fresh sample_env (2 + length (cs_Items sample_checkout)) claimed_db"
    by (simp add: ids_fresh_def Let_def sample_env_def sample_checkout_def claimed_db_def ordering_db_empty_def upt_rec)
  obtain E2 db2 where
    h1: "checkout_Handle sample_texts (mssql_repo sample_sql (Mapper sample_texts False ''''))
          (checkout_message sample_checkout) (sample_env, claimed_db) = (Inr (), E2, db2)"
        "placed sample_sql (checkout_order sample_env sample_checkout) (checkout_customer sample_checkout)
           (map line_product (cs_Items sample_checkout)) claimed_db db2"
    using checkout_Handle_ok [OF sample_sql_ok sample_env_ok decode_message [OF sample_checkout_ok]
        sample_checkout_valid f1, of False "''''"]
    by auto
  have o1: "order_id (checkout_order sample_env sample_checkout) = 100"
    "map item_ID (items (checkout_order sample_env sample_checkout)) = [101]"
    by (simp_all add: checkout_order_def NewOrder_def raise_event_def newOrder_def sample_env_def
        sample_checkout_def)
  from h1(2) obtain rs where
    rs: "map (item_columns sample_sql 100) (items (checkout_order sample_env sample_checkout)) = map Some rs"
      "OrderItems db2 = rs" "InboxMessages db2 = [(7, consumerName) \<mapsto> None]"
    unfolding placed_def saved_def o1(1) by (auto simp: claimed_db_def ordering_db_empty_def)
  have "map ir_Id rs = [101]"
  proof -
    from rs(1) o1(2) obtain i r where "items (checkout_order sample_env sample_checkout) = [i]" "rs = [r]"
      "item_ID i = 101" "item_columns sample_sql 100 i = Some r" by auto
    with item_columns_ids show ?thesis by auto
  qed
  then have it: "ir_Id ` set (OrderItems db2) = {101}"
    unfolding rs(2) by (metis list.set_map list.set(1,2))
  have id2: "order_ids db2 = {100}"
    using placed_ids [OF h1(2)] o1(1) by (simp add: order_ids_def claimed_db_def ordering_db_empty_def)
  with h1(1) it rs(3) show ?thesis by blast
qed


end
