(* ===== verification/Http.thy ===== *)
theory Http
  imports Go_Runtime Go_Text
begin

text \<open>
  The HTTP seam of every service: \<open>internal/platform/httpx\<close> (\<open>decode.go\<close>, \<open>respond.go\<close>),
  \<open>internal/platform/cqrs\<close>, \<open>internal/platform/validation\<close> and \<open>internal/platform/health\<close>. Which
  rules a value breaks is decided by the validator package, so it is a parameter; what the code
  makes of its verdict is modelled. Log lines are not modelled.
\<close>

section \<open>Responses\<close>

record problem =
  pb_Title :: string
  pb_Detail :: msg
  pb_Status :: int
  pb_TraceID :: string
  pb_Errors :: "string \<rightharpoonup> msg"

datatype body = JsonBody json | ProblemBody problem

record response =
  rs_Status :: int
  rs_ContentType :: string
  rs_Headers :: "(string \<times> string) list"
  rs_Body :: body

definition respond_JSON :: "int \<Rightarrow> json \<Rightarrow> response" where
  "respond_JSON status v =
     \<lparr>rs_Status = status, rs_ContentType = ''application/json'', rs_Headers = [], rs_Body = JsonBody v\<rparr>"

fun statusFor :: "kind \<Rightarrow> int" where
  "statusFor KindBadRequest = 400"
| "statusFor KindValidation = 400"
| "statusFor KindNotFound = 404"
| "statusFor KindConflict = 409"
| "statusFor KindInternal = 500"

definition problem_Error :: "string \<Rightarrow> go_error \<Rightarrow> response" where
  "problem_Error traceID e =
     (let k = KindOf e;
          p = \<lparr>pb_Title = kind_String k, pb_Detail = Fmt '''' [], pb_Status = statusFor k,
               pb_TraceID = traceID, pb_Errors = Map.empty\<rparr>;
          p = (case As_AppError e of
                 Some (AppError _ m fs _) \<Rightarrow>
                   if k \<noteq> KindInternal then p\<lparr>pb_Detail := m, pb_Errors := fs\<rparr>
                   else p\<lparr>pb_Detail := Fmt ''an unexpected error occurred'' []\<rparr>
               | _ \<Rightarrow> p\<lparr>pb_Detail := Fmt ''an unexpected error occurred'' []\<rparr>)
      in \<lparr>rs_Status = statusFor k, rs_ContentType = ''application/problem+json'', rs_Headers = [],
          rs_Body = ProblemBody p\<rparr>)"

section \<open>Reading a request\<close>

text \<open>
  How reading the first JSON value of a body ends: the body holds nothing, the limit of
  \<open>MaxBodyBytes\<close> was hit first, the text is not JSON, or a value was read.
\<close>

datatype request_body = EmptyBody | BodyTooLarge | MalformedBody | JsonValue json

definition MaxBodyBytes :: int where
  "MaxBodyBytes = 2 ^ 20"

definition DecodeJSON :: "'a decoder \<Rightarrow> 'a \<Rightarrow> request_body \<Rightarrow> go_error + 'a" where
  "DecodeJSON dec zero b =
     (case b of
        BodyTooLarge \<Rightarrow>
          Inl (BadRequest (Fmt ''request body must not exceed %d bytes'' [ArgInt MaxBodyBytes]))
      | EmptyBody \<Rightarrow> Inl (BadRequest (Fmt ''request body is required'' []))
      | MalformedBody \<Rightarrow> Inl (BadRequest (Fmt ''request body is not valid JSON'' []))
      | JsonValue j \<Rightarrow>
          (case dec j zero of
             Inl e \<Rightarrow> Inl (BadRequest (Fmt ''request body is not valid JSON'' []))
           | Inr x \<Rightarrow> Inr x))"

text \<open>An integer of the query; \<open>raw\<close> is its text, empty when it is absent. An \<open>int\<close> has 64 bits.\<close>

definition intQuery :: "string \<Rightarrow> 64 word \<Rightarrow> 64 word" where
  "intQuery raw def =
     (if raw = '''' then def else case Atoi raw of None \<Rightarrow> def | Some i \<Rightarrow> word_of_int i)"

section \<open>Validation\<close>

text \<open>A failed rule as the validator reports it.\<close>

record field_error =
  fe_Field :: string
  fe_Tag :: string
  fe_Param :: string
  fe_Collection :: bool

text \<open>The validator's answer: the value is valid, it could not be checked, or rules failed.\<close>

datatype verdict = Valid | Misused go_error | Invalid "field_error list"

definition to_lower :: "string \<Rightarrow> string" where
  "to_lower = map (\<lambda>c. if byte_in 65 90 c then char_of (of_char c + (32 :: nat)) else c)"

definition validation_message :: "field_error \<Rightarrow> msg" where
  "validation_message e =
     (let name = ArgStr (fe_Field e); param = ArgStr (fe_Param e); tag = fe_Tag e in
      if tag = ''required'' then Fmt ''%s is required'' [name]
      else if tag = ''min'' then
        (if fe_Collection e then Fmt ''%s must have at least %s item(s)'' [name, param]
         else Fmt ''%s must be at least %s characters'' [name, param])
      else if tag = ''max'' then
        (if fe_Collection e then Fmt ''%s must have at most %s item(s)'' [name, param]
         else Fmt ''%s must be at most %s characters'' [name, param])
      else if tag = ''len'' then
        (if fe_Collection e then Fmt ''%s must have exactly %s item(s)'' [name, param]
         else Fmt ''%s must be exactly %s characters'' [name, param])
      else if tag = ''numeric'' then Fmt ''%s must contain only digits'' [name]
      else if tag = ''gt'' then Fmt ''%s must be greater than %s'' [name, param]
      else if tag = ''gte'' then Fmt ''%s must be %s or greater'' [name, param]
      else if tag = ''uuid'' \<or> tag = ''uuid4'' then Fmt ''%s must be a UUID'' [name]
      else Fmt ''%s failed the %s rule'' [name, ArgStr (to_lower tag)])"

text \<open>A later failure of the same field replaces an earlier one.\<close>

definition validation_fields :: "field_error list \<Rightarrow> string \<rightharpoonup> msg" where
  "validation_fields es = foldl (\<lambda>m e. m(fe_Field e \<mapsto> validation_message e)) Map.empty es"

definition validation_Struct :: "verdict \<Rightarrow> go_error + unit" where
  "validation_Struct v =
     (case v of
        Valid \<Rightarrow> Inr ()
      | Misused e \<Rightarrow> Inl (Internal e (Fmt ''validating request'' []))
      | Invalid es \<Rightarrow> Inl (Validation (validation_fields es)))"

section \<open>The pipeline\<close>

type_synonym ('s, 'i, 'o) handler = "'i \<Rightarrow> ('s, 'o) act"
type_synonym ('s, 'i, 'o) middleware = "('s, 'i, 'o) handler \<Rightarrow> ('s, 'i, 'o) handler"

text \<open>The loop runs from the last middleware to the first, so the first one is the outermost.\<close>

fun Chain_loop :: "('s, 'i, 'o) handler \<Rightarrow> ('s, 'i, 'o) middleware list \<Rightarrow> ('s, 'i, 'o) handler" where
  "Chain_loop next [] = next"
| "Chain_loop next (m # ms) = Chain_loop (m next) ms"

definition Chain :: "('s, 'i, 'o) handler \<Rightarrow> ('s, 'i, 'o) middleware list \<Rightarrow> ('s, 'i, 'o) handler" where
  "Chain h ms = Chain_loop h (rev ms)"

definition Validating :: "('i \<Rightarrow> verdict) \<Rightarrow> ('s, 'i, 'o) middleware" where
  "Validating validate next i = andthen (of_res (validation_Struct (validate i))) (\<lambda>_. next i)"

text \<open>
  A route turns the outcome of its handler into a response, so it does not fail itself.
\<close>

definition respond :: "string \<Rightarrow> ('o \<Rightarrow> response) \<Rightarrow> ('s, 'o) act \<Rightarrow> ('s, response) act" where
  "respond traceID ok m w =
     (case m w of
        (Inl e, w') \<Rightarrow> (Inr (problem_Error traceID e), w')
      | (Inr x, w') \<Rightarrow> (Inr (ok x), w'))"

section \<open>Health\<close>

record check_status =
  st_Name :: string
  st_Ok :: bool
  st_Error :: "go_error option"

record health_response =
  hr_Ok :: bool
  hr_Checks :: "check_status list"

record 's health_registry =
  hg_names :: "string list"
  hg_checks :: "string \<rightharpoonup> ('s, unit) act"

definition health_NewRegistry :: "'s health_registry" where
  "health_NewRegistry = \<lparr>hg_names = [], hg_checks = Map.empty\<rparr>"

definition health_Register :: "string \<Rightarrow> ('s, unit) act \<Rightarrow> 's health_registry \<Rightarrow> 's health_registry" where
  "health_Register name chk r =
     (let r = (if hg_checks r name = None then r\<lparr>hg_names := hg_names r @ [name]\<rparr> else r)
      in r\<lparr>hg_checks := (hg_checks r)(name \<mapsto> chk)\<rparr>)"

text \<open>The checks run in the order of their names' first registration; a failure is recorded.\<close>

fun health_loop ::
  "(string \<rightharpoonup> ('s, unit) act) \<Rightarrow> string list \<Rightarrow> health_response \<Rightarrow> ('s, health_response) act" where
  "health_loop checks [] resp w = (Inr resp, w)"
| "health_loop checks (n # ns) resp w =
     (case checks n of
        None \<Rightarrow> health_loop checks ns resp w
      | Some chk \<Rightarrow>
          (case chk w of
             (Inl e, w') \<Rightarrow>
               health_loop checks ns
                 (resp\<lparr>hr_Ok := False,
                       hr_Checks := hr_Checks resp @ [\<lparr>st_Name = n, st_Ok = False, st_Error = Some e\<rparr>]\<rparr>) w'
           | (Inr u, w') \<Rightarrow>
               health_loop checks ns
                 (resp\<lparr>hr_Checks := hr_Checks resp @ [\<lparr>st_Name = n, st_Ok = True, st_Error = None\<rparr>]\<rparr>) w'))"

definition health_Run :: "'s health_registry \<Rightarrow> ('s, health_response) act" where
  "health_Run r = health_loop (hg_checks r) (hg_names r) \<lparr>hr_Ok = True, hr_Checks = []\<rparr>"

definition health_status :: "health_response \<Rightarrow> int" where
  "health_status r = (if hr_Ok r then 200 else 503)"

section \<open>Rules\<close>

lemma respond_cases:
  "respond tr ok m w = (r, w') \<longleftrightarrow>
     (\<exists>e. m w = (Inl e, w') \<and> r = Inr (problem_Error tr e)) \<or>
     (\<exists>x. m w = (Inr x, w') \<and> r = Inr (ok x))"
  by (auto simp: respond_def split: prod.splits sum.splits)

lemma keeps_respond [wf_intro]: "keeps P m \<Longrightarrow> keeps P (respond tr ok m)"
  unfolding keeps_def by (auto simp: respond_cases)

lemma Validating_run:
  "Validating V next i w =
     (case validation_Struct (V i) of Inl e \<Rightarrow> (Inl e, w) | Inr _ \<Rightarrow> next i w)"
  by (simp add: Validating_def andthen_def of_res_def split: sum.split)

lemma keeps_Validating [wf_intro]: "keeps P (next i) \<Longrightarrow> keeps P (Validating V next i)"
  unfolding Validating_def by (intro wf_intro)

text \<open>The written order is the order of execution.\<close>

lemma Chain_loop_append: "Chain_loop h (xs @ ys) = Chain_loop (Chain_loop h xs) ys"
  by (induction xs arbitrary: h) auto

lemma Chain_simps [simp]: "Chain h [] = h" "Chain h (m # ms) = m (Chain h ms)"
  by (simp_all add: Chain_def Chain_loop_append)

text \<open>What an unclassified error says stays inside: the response depends on the trace only.\<close>

lemma internal_errors_hide_cause:
  "KindOf e = KindInternal \<Longrightarrow> problem_Error tr e =
     \<lparr>rs_Status = 500, rs_ContentType = ''application/problem+json'', rs_Headers = [],
      rs_Body = ProblemBody \<lparr>pb_Title = kind_String KindInternal, pb_Detail = Fmt ''an unexpected error occurred'' [],
        pb_Status = 500, pb_TraceID = tr, pb_Errors = Map.empty\<rparr>\<rparr>"
  by (simp add: problem_Error_def Let_def split: option.split go_error.split)

lemma Validating_Inr:
  "Validating V next i w = (Inr x, w') \<longleftrightarrow> validation_Struct (V i) = Inr () \<and> next i w = (Inr x, w')"
  by (cases "validation_Struct (V i)") (simp_all add: Validating_run)

end
