(* ===== verification/Basket_Carts.thy ===== *)
theory Basket_Carts
  imports Http Messaging
begin

text \<open>
  The Basket service's model, handlers and routes, \<open>internal/basket/carts\<close>. The repository and the
  discount lookup are interfaces, records of operations; \<open>Basket_Store\<close> holds the ones the service is
  wired with.
\<close>

section \<open>Baskets\<close>

record cart_item =
  ci_Quantity :: int
  ci_Color :: string
  ci_Price :: decimal
  ci_ProductID :: uuid
  ci_ProductName :: string

record cart =
  sc_UserName :: string
  sc_Items :: "cart_item list"
  sc_Version :: uuid

definition cart_item_zero :: cart_item where
  "cart_item_zero =
     \<lparr>ci_Quantity = 0, ci_Color = '''', ci_Price = 0, ci_ProductID = uuid_nil, ci_ProductName = ''''\<rparr>"

definition cart_zero :: cart where
  "cart_zero = \<lparr>sc_UserName = '''', sc_Items = [], sc_Version = uuid_nil\<rparr>"

fun cart_total_loop :: "decimal \<Rightarrow> cart_item list \<Rightarrow> decimal" where
  "cart_total_loop acc [] = acc"
| "cart_total_loop acc (i # its) = cart_total_loop (acc + ci_Price i * of_int (ci_Quantity i)) its"

definition cart_TotalPrice :: "cart \<Rightarrow> decimal" where
  "cart_TotalPrice c = cart_total_loop 0 (sc_Items c)"

text \<open>The JSON of a line; prices are numbers (\<open>decimal.MarshalJSONWithoutQuotes\<close>).\<close>

definition cart_item_members :: "texts \<Rightarrow> cart_item \<Rightarrow> (string \<times> json) list" where
  "cart_item_members T i =
     [(''quantity'', json_int (ci_Quantity i)),
      (''color'', json_string (ci_Color i)),
      (''price'', JNum (dec_text T (ci_Price i))),
      (''productId'', json_string (uuid_text T (ci_ProductID i))),
      (''productName'', json_string (ci_ProductName i))]"

definition cart_items_json :: "texts \<Rightarrow> cart_item list \<Rightarrow> json" where
  "cart_items_json T its = JArr (map (\<lambda>i. JObj (cart_item_members T i)) its)"

definition cart_item_fields :: "texts \<Rightarrow> cart_item fields" where
  "cart_item_fields T =
     [(''quantity'', field decode_int ci_Quantity ci_Quantity_update),
      (''color'', field decode_string ci_Color ci_Color_update),
      (''price'', field (decode_decimal T) ci_Price ci_Price_update),
      (''productId'', field (decode_uuid T) ci_ProductID ci_ProductID_update),
      (''productName'', field decode_string ci_ProductName ci_ProductName_update)]"

definition decode_cart_items :: "texts \<Rightarrow> cart_item list decoder" where
  "decode_cart_items T = decode_slice cart_item_zero (decode_struct (cart_item_fields T))"

text \<open>
  On the wire a basket has its derived total and no version; what a client sends as either is
  ignored.
\<close>

definition cart_json :: "texts \<Rightarrow> cart \<Rightarrow> json" where
  "cart_json T c = JObj
     [(''userName'', json_string (sc_UserName c)),
      (''items'', cart_items_json T (sc_Items c)),
      (''totalPrice'', JNum (dec_text T (cart_TotalPrice c)))]"

definition decode_cart :: "texts \<Rightarrow> cart decoder" where
  "decode_cart T = decode_struct
     [(''userName'', field decode_string sc_UserName sc_UserName_update),
      (''items'', field (decode_cart_items T) sc_Items sc_Items_update)]"

section \<open>Interfaces\<close>

record 's cart_repo =
  repo_GetByUserName :: "string \<Rightarrow> ('s, cart) act"
  repo_Store :: "cart \<Rightarrow> ('s, unit) act"
  repo_DeleteCart :: "string \<Rightarrow> ('s, unit) act"
  repo_Checkout :: "string \<Rightarrow> envelope \<Rightarrow> ('s, unit) act"

text \<open>\<open>AmountFor\<close> of \<open>DiscountLookup\<close>.\<close>

type_synonym 's discount_lookup = "string \<Rightarrow> ('s, 32 word) act"

section \<open>Reading, storing and deleting\<close>

definition GetBasket :: "'s cart_repo \<Rightarrow> string \<Rightarrow> ('s, cart) act" where
  "GetBasket repo userName = repo_GetByUserName repo userName"

definition discounted_price :: "decimal \<Rightarrow> 32 word \<Rightarrow> decimal" where
  "discounted_price p amount =
     (let price = p - of_int (sint amount) in if price < 0 then 0 else price)"

fun discount_lines :: "'s discount_lookup \<Rightarrow> cart_item list \<Rightarrow> ('s, cart_item list) act" where
  "discount_lines amountFor [] = ret []"
| "discount_lines amountFor (i # its) =
     andthen (amountFor (ci_ProductName i)) (\<lambda>amount.
     andthen (discount_lines amountFor its) (\<lambda>rest.
     ret (i\<lparr>ci_Price := discounted_price (ci_Price i) amount\<rparr> # rest)))"

definition applyDiscounts :: "'s discount_lookup \<Rightarrow> cart \<Rightarrow> ('s, cart) act" where
  "applyDiscounts amountFor c =
     andthen (discount_lines amountFor (sc_Items c)) (\<lambda>its. ret (c\<lparr>sc_Items := its\<rparr>))"

definition StoreBasket :: "'s cart_repo \<Rightarrow> 's discount_lookup \<Rightarrow> cart \<Rightarrow> ('s, string) act" where
  "StoreBasket repo amountFor c =
     andthen (applyDiscounts amountFor c) (\<lambda>c.
     andthen (repo_Store repo c) (\<lambda>_. ret (sc_UserName c)))"

definition DeleteBasket :: "'s cart_repo \<Rightarrow> string \<Rightarrow> ('s, string \<times> bool) act" where
  "DeleteBasket repo userName =
     andthen (repo_DeleteCart repo userName) (\<lambda>_. ret (userName, True))"

section \<open>Checking out\<close>

record checkout_command =
  cc_UserName :: string
  cc_CustomerID :: uuid
  cc_FirstName :: string
  cc_LastName :: string
  cc_EmailAddress :: string
  cc_AddressLine :: string
  cc_Country :: string
  cc_State :: string
  cc_ZipCode :: string
  cc_PaymentToken :: string
  cc_CardLast4 :: string
  cc_PaymentMethod :: int

text \<open>
  \<open>uuid.NewSHA1\<close> of a name in the package's namespace is a parameter. The name is the user, a colon
  and the version's text without its dashes.
\<close>

definition checkout_name :: "texts \<Rightarrow> string \<Rightarrow> uuid \<Rightarrow> string" where
  "checkout_name T userName version =
     userName @ '':'' @ filter (\<lambda>c. c \<noteq> CHR ''-'') (uuid_text T version)"

definition CheckoutID :: "(string \<Rightarrow> uuid) \<Rightarrow> texts \<Rightarrow> string \<Rightarrow> uuid \<Rightarrow> uuid" where
  "CheckoutID sha1 T userName version = sha1 (checkout_name T userName version)"

definition checkout_event_lines :: "cart_item list \<Rightarrow> checkout_line list" where
  "checkout_event_lines its =
     map (\<lambda>i. \<lparr>cl_ProductID = ci_ProductID i, cl_ProductName = ci_ProductName i,
               cl_Quantity = ci_Quantity i, cl_UnitPrice = ci_Price i\<rparr>) its"

definition checkoutEvent :: "header \<Rightarrow> checkout_command \<Rightarrow> cart \<Rightarrow> checkout_submitted" where
  "checkoutEvent h c basket =
     (let address =
        \<lparr>ca_FirstName = cc_FirstName c, ca_LastName = cc_LastName c,
         ca_EmailAddress = cc_EmailAddress c, ca_AddressLine = cc_AddressLine c,
         ca_Country = cc_Country c, ca_State = cc_State c, ca_ZipCode = cc_ZipCode c\<rparr>
      in \<lparr>cs_Header = h, cs_UserName = cc_UserName c, cs_CustomerID = cc_CustomerID c,
          cs_TotalPrice = cart_TotalPrice basket, cs_Items = checkout_event_lines (sc_Items basket),
          cs_ShippingAddress = address, cs_BillingAddress = address,
          cs_Payment = \<lparr>cp_PaymentToken = cc_PaymentToken c, cp_CardLast4 = cc_CardLast4 c,
                        cp_PaymentMethod = cc_PaymentMethod c\<rparr>\<rparr>)"

definition CheckoutBasket ::
  "(string \<Rightarrow> uuid) \<Rightarrow> texts \<Rightarrow> 's cart_repo \<Rightarrow> string \<Rightarrow> checkout_command \<Rightarrow> ('s, bool) act" where
  "CheckoutBasket sha1 T repo correlationID c =
     andthen (repo_GetByUserName repo (cc_UserName c)) (\<lambda>basket.
     if sc_Items basket = []
     then fail (BadRequest (Fmt ''the basket of %s is empty'' [ArgStr (cc_UserName c)]))
     else if sc_Version basket = uuid_nil
     then fail (NotFound ''Basket'' (ArgStr (cc_UserName c)))
     else
       andthen new_uuid (\<lambda>u.
       andthen time_now (\<lambda>t.
       let h = (NewHeader u t correlationID)
                 \<lparr>hdr_ID := CheckoutID sha1 T (cc_UserName c) (sc_Version basket)\<rparr>
       in andthen (of_res (NewEnvelope T (CheckoutSubmitted (checkoutEvent h c basket)) (cc_UserName c)))
            (\<lambda>announcement.
          andthen (repo_Checkout repo (cc_UserName c) announcement) (\<lambda>_. ret True)))))"

section \<open>Requests and responses\<close>

definition checkout_command_zero :: checkout_command where
  "checkout_command_zero =
     \<lparr>cc_UserName = '''', cc_CustomerID = uuid_nil, cc_FirstName = '''', cc_LastName = '''',
      cc_EmailAddress = '''', cc_AddressLine = '''', cc_Country = '''', cc_State = '''', cc_ZipCode = '''',
      cc_PaymentToken = '''', cc_CardLast4 = '''', cc_PaymentMethod = 0\<rparr>"

definition decode_checkout_command :: "texts \<Rightarrow> checkout_command decoder" where
  "decode_checkout_command T = decode_struct
     [(''userName'', field decode_string cc_UserName cc_UserName_update),
      (''customerId'', field (decode_uuid T) cc_CustomerID cc_CustomerID_update),
      (''firstName'', field decode_string cc_FirstName cc_FirstName_update),
      (''lastName'', field decode_string cc_LastName cc_LastName_update),
      (''emailAddress'', field decode_string cc_EmailAddress cc_EmailAddress_update),
      (''addressLine'', field decode_string cc_AddressLine cc_AddressLine_update),
      (''country'', field decode_string cc_Country cc_Country_update),
      (''state'', field decode_string cc_State cc_State_update),
      (''zipCode'', field decode_string cc_ZipCode cc_ZipCode_update),
      (''paymentToken'', field decode_string cc_PaymentToken cc_PaymentToken_update),
      (''cardLast4'', field decode_string cc_CardLast4 cc_CardLast4_update),
      (''paymentMethod'', field decode_int cc_PaymentMethod cc_PaymentMethod_update)]"

text \<open>A body with one member: the wrapper structs of the requests.\<close>

definition decode_wrapped :: "string \<Rightarrow> 'a decoder \<Rightarrow> 'a decoder" where
  "decode_wrapped key dec = decode_struct [(key, dec)]"

definition GetBasketRoute :: "texts \<Rightarrow> 's cart_repo \<Rightarrow> string \<Rightarrow> string \<Rightarrow> ('s, response) act" where
  "GetBasketRoute T repo traceID userName =
     respond traceID (\<lambda>c. respond_JSON 200 (JObj [(''cart'', cart_json T c)]))
       (Chain (GetBasket repo) [] userName)"

definition StoreBasketRoute ::
  "texts \<Rightarrow> (cart \<Rightarrow> verdict) \<Rightarrow> 's cart_repo \<Rightarrow> 's discount_lookup \<Rightarrow> string \<Rightarrow> request_body
     \<Rightarrow> ('s, response) act" where
  "StoreBasketRoute T V repo amountFor traceID b =
     respond traceID (\<lambda>u. respond_JSON 200 (JObj [(''userName'', json_string u)]))
       (andthen (of_res (DecodeJSON (decode_wrapped ''cart'' (decode_cart T)) cart_zero b))
          (Chain (StoreBasket repo amountFor) [Validating V]))"

definition DeleteBasketRoute ::
  "(string \<Rightarrow> verdict) \<Rightarrow> 's cart_repo \<Rightarrow> string \<Rightarrow> string \<Rightarrow> ('s, response) act" where
  "DeleteBasketRoute V repo traceID userName =
     respond traceID (\<lambda>(u, ok). respond_JSON 200 (JObj [(''isSuccess'', JBool ok)]))
       (Chain (DeleteBasket repo) [Validating V] userName)"

text \<open>The correlation id of the announcement is the trace id of the request.\<close>

definition CheckoutBasketRoute ::
  "(string \<Rightarrow> uuid) \<Rightarrow> texts \<Rightarrow> (checkout_command \<Rightarrow> verdict) \<Rightarrow> 's cart_repo \<Rightarrow> string \<Rightarrow> request_body
     \<Rightarrow> ('s, response) act" where
  "CheckoutBasketRoute sha1 T V repo traceID b =
     respond traceID (\<lambda>ok. respond_JSON 200 (JObj [(''isSuccess'', JBool ok)]))
       (andthen (of_res (DecodeJSON (decode_wrapped ''checkout'' (decode_checkout_command T))
                           checkout_command_zero b))
          (Chain (CheckoutBasket sha1 T repo traceID) [Validating V]))"

end
