(* ===== verification/Postgres.thy ===== *)
theory Postgres
  imports Go_Runtime Go_Text "HOL-Library.Multiset"
begin

text \<open>
  What the services on PostgreSQL use of the server: the values its column types keep and what a
  statement does with a text it does not accept. The tables are in the theory of each service.
\<close>

section \<open>The server\<close>

text \<open>
  \<open>pg_text\<close> are the values a \<open>TEXT\<close> parameter may have; \<open>pg_jsonb\<close> is the document a \<open>JSONB\<close> column
  keeps of the one written to it, \<open>None\<close> when it is refused; \<open>pg_time\<close> is the precision of
  \<open>TIMESTAMPTZ\<close>.
\<close>

record postgres =
  pg_text :: "string \<Rightarrow> bool"
  pg_jsonb :: "json \<Rightarrow> json option"
  pg_time :: "time \<Rightarrow> time"

text \<open>An object, or a list of objects, each with its members in some other order.\<close>

definition reordered :: "json \<Rightarrow> json \<Rightarrow> bool" where
  "reordered j j' \<longleftrightarrow>
     (case (j, j') of
        (JArr xs, JArr ys) \<Rightarrow>
          list_all2 (\<lambda>x y. case (x, y) of
                             (JObj ms, JObj ns) \<Rightarrow> distinct (map fst ms) \<longrightarrow> mset ms = mset ns
                           | _ \<Rightarrow> x = y) xs ys
      | (JObj ms, JObj ns) \<Rightarrow> distinct (map fst ms) \<longrightarrow> mset ms = mset ns
      | _ \<Rightarrow> j = j')"

text \<open>
  What PostgreSQL documents: a text is valid UTF-8 without the NUL character, a \<open>JSONB\<close> value keeps
  the members of its objects but not their order.
\<close>

definition postgres_ok :: "postgres \<Rightarrow> bool" where
  "postgres_ok P \<longleftrightarrow>
     (\<forall>s. pg_text P s \<longleftrightarrow> utf8_ok s \<and> CHR 0x00 \<notin> set s) \<and>
     (\<forall>j j'. pg_jsonb P j = Some j' \<longrightarrow> reordered j j')"

definition invalid_text :: go_error where
  "invalid_text = Plain (Fmt ''invalid byte sequence for encoding \"UTF8\"'' [])"

definition invalid_json :: go_error where
  "invalid_json = Plain (Fmt ''unsupported Unicode escape sequence'' [])"

text \<open>A statement with text parameters: the server refuses it when one of them is not a text.\<close>

definition pg_stmt ::
  "postgres \<Rightarrow> string list \<Rightarrow> (time \<Rightarrow> 's \<Rightarrow> (go_error + 'a) \<times> 's) \<Rightarrow> ('s, 'a) act" where
  "pg_stmt P texts stmt =
     call (\<lambda>t s. if list_all (pg_text P) texts then stmt t s else (Inl invalid_text, s))"

section \<open>Rules\<close>

lemma pg_stmt_run:
  assumes "pg_stmt P ts stmt (E, s) = (r, E', s')"
  shows "s' = s \<and> (\<forall>x. r \<noteq> Inr x) \<or> s' = snd (stmt (now E) s) \<and> (\<forall>x. r = Inr x \<longrightarrow> fst (stmt (now E) s) = Inr x)"
  using assms
  by (auto simp: pg_stmt_def call_def split: prod.splits outcome.splits if_splits)

lemma steady_pg_stmt [steady_intro]: "steady (pg_stmt P ts stmt)"
  unfolding pg_stmt_def by (rule steady_call)

text \<open>Decoding does not depend on the order of an object's members when their setters commute.\<close>

lemma decode_reordered:
  assumes "mset ms = mset ns" "\<And>x y. g x \<circ> g y = g y \<circ> g x"
    and "\<And>k j v. (k, j) \<in> set ms \<Longrightarrow> \<exists>d. find_field fs k = Some d \<and> d j v = Inr (g (k, j) v)"
  shows "decode_struct fs (JObj ns) v = Inr (fold g ms v)"
proof -
  from assms(1) have s: "set ns = set ms" by (metis set_mset_mset)
  have "decode_members fs ns v = Inr (fold g ns v)"
    by (rule decode_members_fold) (use s assms(3) in blast)
  also have "fold g ns = fold g ms"
    by (rule fold_multiset_equiv [OF _ assms(1) [symmetric]]) (rule assms(2))
  finally show ?thesis by (simp add: decode_struct_def)
qed

definition sample_pg :: postgres where
  "sample_pg =
     \<lparr>pg_text = (\<lambda>s. utf8_ok s \<and> CHR 0x00 \<notin> set s), pg_jsonb = Some, pg_time = (\<lambda>t. t)\<rparr>"

lemma reordered_same: "reordered j j"
  by (cases j) (auto simp: reordered_def list_all2_conv_all_nth split: json.splits)

lemma sample_pg_ok: "postgres_ok sample_pg"
  by (simp add: postgres_ok_def sample_pg_def reordered_same)

end
