(* ===== verification/Basket_Store.thy ===== *)
theory Basket_Store
  imports Basket_Carts Postgres "HOL-Library.Product_Lexorder"
begin

text \<open>
  Where Basket keeps its data: the tables on PostgreSQL, \<open>internal/basket/postgres\<close>
  (\<open>repository.go\<close>, \<open>outbox.go\<close> and the columns of \<open>migrations/*.sql\<close>), and the Redis cache in front of
  them, \<open>internal/basket/rediscache/repository.go\<close>. One statement or cache command is one call; a
  transaction puts back what it did unless it commits.
\<close>

section \<open>Rows and tables\<close>

record basket_row =
  bk_Items :: json
  bk_Version :: uuid
  bk_UpdatedAt :: time

record checkout_row =
  bo_Id :: uuid
  bo_EventType :: string
  bo_SchemaVersion :: int
  bo_AggregateId :: string
  bo_CorrelationId :: "string option"
  bo_OccurredOnUtc :: time
  bo_Payload :: payload
  bo_Attempts :: nat
  bo_NextAttemptOnUtc :: time
  bo_LastError :: "string option"
  bo_PoisonedOnUtc :: "time option"

record basket_db =
  Baskets :: "string \<rightharpoonup> basket_row"
  BasketOutbox :: "checkout_row list"

definition basket_db_empty :: basket_db where
  "basket_db_empty = \<lparr>Baskets = Map.empty, BasketOutbox = []\<rparr>"

section \<open>The repository\<close>

definition pg_GetByUserName :: "postgres \<Rightarrow> texts \<Rightarrow> string \<Rightarrow> (basket_db, cart) act" where
  "pg_GetByUserName P T u =
     andthen (on_err (Wrapped (Fmt ''loading basket %q'' [ArgStr u]))
                (pg_stmt P [u] (\<lambda>t db. (Inr (Baskets db u), db))))
       (\<lambda>row. case row of
          None \<Rightarrow> fail (NotFound ''Basket'' (ArgStr u))
        | Some b \<Rightarrow>
            andthen (of_res (map_left (Wrapped (Fmt ''decoding basket %q'' [ArgStr u]))
                               (decode_cart_items T (bk_Items b) [])))
              (\<lambda>its. ret \<lparr>sc_UserName = u, sc_Items = its, sc_Version = bk_Version b\<rparr>))"

definition store_stmt :: "postgres \<Rightarrow> string \<Rightarrow> json \<Rightarrow> uuid \<Rightarrow> time \<Rightarrow> basket_db \<Rightarrow> (go_error + unit) \<times> basket_db" where
  "store_stmt P u items version t db =
     (case pg_jsonb P items of
        None \<Rightarrow> (Inl invalid_json, db)
      | Some j \<Rightarrow>
          (Inr (), db\<lparr>Baskets := (Baskets db)(u \<mapsto>
                        \<lparr>bk_Items = j, bk_Version = version, bk_UpdatedAt = t\<rparr>)\<rparr>))"

definition pg_Store :: "postgres \<Rightarrow> texts \<Rightarrow> cart \<Rightarrow> (basket_db, unit) act" where
  "pg_Store P T c =
     andthen (if sc_Version c = uuid_nil then new_uuid else ret (sc_Version c)) (\<lambda>version.
     on_err (Wrapped (Fmt ''storing basket %q'' [ArgStr (sc_UserName c)]))
       (pg_stmt P [sc_UserName c]
          (store_stmt P (sc_UserName c) (cart_items_json T (sc_Items c)) version)))"

definition pg_DeleteCart :: "postgres \<Rightarrow> string \<Rightarrow> (basket_db, unit) act" where
  "pg_DeleteCart P u =
     on_err (Wrapped (Fmt ''deleting basket %q'' [ArgStr u]))
       (pg_stmt P [u] (\<lambda>t db. (Inr (), db\<lparr>Baskets := (Baskets db)(u := None)\<rparr>)))"

definition bo_nullable :: "string \<Rightarrow> string option" where
  "bo_nullable s = (if s = '''' then None else Some s)"

text \<open>The row a recorded checkout is stored as; the last four columns have their defaults.\<close>

definition checkout_row_of :: "postgres \<Rightarrow> time \<Rightarrow> envelope \<Rightarrow> checkout_row" where
  "checkout_row_of P t e =
     \<lparr>bo_Id = env_ID e, bo_EventType = EventType (env_Contract e),
      bo_SchemaVersion = Version (env_Contract e), bo_AggregateId = env_AggregateID e,
      bo_CorrelationId = bo_nullable (env_CorrelationID e),
      bo_OccurredOnUtc = pg_time P (env_OccurredOnUTC e), bo_Payload = env_Payload e,
      bo_Attempts = 0, bo_NextAttemptOnUtc = pg_time P t, bo_LastError = None, bo_PoisonedOnUtc = None\<rparr>"

text \<open>\<open>ON CONFLICT (id) DO NOTHING\<close>\<close>

definition record_stmt :: "postgres \<Rightarrow> envelope \<Rightarrow> time \<Rightarrow> basket_db \<Rightarrow> (go_error + unit) \<times> basket_db" where
  "record_stmt P e t db =
     (Inr (), if list_ex (\<lambda>r. bo_Id r = env_ID e) (BasketOutbox db) then db
              else db\<lparr>BasketOutbox := BasketOutbox db @ [checkout_row_of P t e]\<rparr>)"

definition recordCheckout :: "postgres \<Rightarrow> envelope \<Rightarrow> (basket_db, unit) act" where
  "recordCheckout P e =
     on_err (Wrapped (Fmt ''recording checkout %s'' [ArgUuid (env_ID e)]))
       (pg_stmt P [EventType (env_Contract e), env_AggregateID e, env_CorrelationID e] (record_stmt P e))"

text \<open>The answer of the statement is the number of rows it removed.\<close>

definition clear_stmt :: "string \<Rightarrow> time \<Rightarrow> basket_db \<Rightarrow> (go_error + nat) \<times> basket_db" where
  "clear_stmt u t db =
     (Inr (if Baskets db u = None then 0 else 1), db\<lparr>Baskets := (Baskets db)(u := None)\<rparr>)"

definition checkout_tx :: "postgres \<Rightarrow> string \<Rightarrow> envelope \<Rightarrow> (basket_db, unit) act" where
  "checkout_tx P u e =
     andthen (on_err (Wrapped (Fmt ''clearing basket %q'' [ArgStr u])) (pg_stmt P [u] (clear_stmt u)))
       (\<lambda>n. if n = 0 then fail (NotFound ''Basket'' (ArgStr u)) else recordCheckout P e)"

definition pg_Checkout :: "postgres \<Rightarrow> string \<Rightarrow> envelope \<Rightarrow> (basket_db, unit) act" where
  "pg_Checkout P u e =
     transaction (Fmt ''beginning checkout of %q'' [ArgStr u])
       (Fmt ''committing checkout of %q'' [ArgStr u]) (checkout_tx P u e)"

definition pg_carts :: "postgres \<Rightarrow> texts \<Rightarrow> basket_db cart_repo" where
  "pg_carts P T =
     \<lparr>repo_GetByUserName = pg_GetByUserName P T, repo_Store = pg_Store P T,
      repo_DeleteCart = pg_DeleteCart P, repo_Checkout = pg_Checkout P\<rparr>"

section \<open>The recorded checkouts\<close>

record outbox_message =
  om_Envelope :: envelope
  om_Attempts :: nat

definition message_of :: "checkout_row \<Rightarrow> outbox_message" where
  "message_of r =
     \<lparr>om_Envelope =
        \<lparr>env_ID = bo_Id r, env_Contract = \<lparr>EventType = bo_EventType r, Version = bo_SchemaVersion r\<rparr>,
         env_AggregateID = bo_AggregateId r,
         env_CorrelationID = (case bo_CorrelationId r of None \<Rightarrow> '''' | Some s \<Rightarrow> s),
         env_OccurredOnUTC = bo_OccurredOnUtc r, env_Payload = bo_Payload r\<rparr>,
      om_Attempts = bo_Attempts r\<rparr>"

definition is_due :: "time \<Rightarrow> checkout_row \<Rightarrow> bool" where
  "is_due t r \<longleftrightarrow> bo_PoisonedOnUtc r = None \<and> bo_NextAttemptOnUtc r \<le> t"

definition due_rows :: "nat \<Rightarrow> time \<Rightarrow> basket_db \<Rightarrow> checkout_row list" where
  "due_rows limit t db =
     take limit (sort_key (\<lambda>r. (bo_OccurredOnUtc r, bo_Id r)) (filter (is_due t) (BasketOutbox db)))"

definition pg_Due :: "postgres \<Rightarrow> nat \<Rightarrow> time \<Rightarrow> (basket_db, outbox_message list) act" where
  "pg_Due P limit t =
     on_err (Wrapped (Fmt ''reading due checkouts'' []))
       (query (\<lambda>db. map message_of (due_rows limit (pg_time P t) db)))"

definition pg_DeleteMessage :: "uuid \<Rightarrow> (basket_db, unit) act" where
  "pg_DeleteMessage i =
     on_err (Wrapped (Fmt ''removing published checkout %s'' [ArgUuid i]))
       (update (\<lambda>t db. db\<lparr>BasketOutbox := filter (\<lambda>r. bo_Id r \<noteq> i) (BasketOutbox db)\<rparr>))"

definition update_rows :: "(checkout_row \<Rightarrow> bool) \<Rightarrow> (checkout_row \<Rightarrow> checkout_row) \<Rightarrow> basket_db \<Rightarrow> basket_db" where
  "update_rows p f db =
     db\<lparr>BasketOutbox := map (\<lambda>r. if p r then f r else r) (BasketOutbox db)\<rparr>"

text \<open>The reason is cut after \<open>maxReason\<close> bytes.\<close>

definition maxReason :: nat where
  "maxReason = 2000"

definition truncate_reason :: "string \<Rightarrow> string" where
  "truncate_reason reason = (if maxReason < length reason then take maxReason reason else reason)"

definition pg_Fail :: "postgres \<Rightarrow> uuid \<Rightarrow> string \<Rightarrow> time \<Rightarrow> (basket_db, unit) act" where
  "pg_Fail P i reason nextAttempt =
     on_err (Wrapped (Fmt ''recording a failed checkout publish %s'' [ArgUuid i]))
       (pg_stmt P [truncate_reason reason] (\<lambda>t db.
          (Inr (), update_rows (\<lambda>r. bo_Id r = i)
             (\<lambda>r. r\<lparr>bo_Attempts := bo_Attempts r + 1, bo_LastError := Some (truncate_reason reason),
                     bo_NextAttemptOnUtc := pg_time P nextAttempt\<rparr>) db)))"

definition pg_Poison :: "postgres \<Rightarrow> uuid \<Rightarrow> string \<Rightarrow> (basket_db, unit) act" where
  "pg_Poison P i reason =
     on_err (Wrapped (Fmt ''marking checkout %s poisoned'' [ArgUuid i]))
       (pg_stmt P [truncate_reason reason] (\<lambda>t db.
          (Inr (), update_rows (\<lambda>r. bo_Id r = i \<and> bo_PoisonedOnUtc r = None)
             (\<lambda>r. r\<lparr>bo_Attempts := bo_Attempts r + 1, bo_LastError := Some (truncate_reason reason),
                     bo_PoisonedOnUtc := Some (pg_time P t)\<rparr>) db)))"

section \<open>The cache\<close>

text \<open>An entry is a text of bytes with the time it expires.\<close>

record 's cached =
  cd_Inner :: 's
  cd_Cache :: "string \<rightharpoonup> payload \<times> time"

definition on_inner :: "('s, 'a) act \<Rightarrow> ('s cached, 'a) act" where
  "on_inner = zoom cd_Inner (\<lambda>t s. s\<lparr>cd_Inner := t\<rparr>)"

definition DefaultTTL :: duration where
  "DefaultTTL = 30 * 60 * 10 ^ 9"

definition cache_ttl :: "duration \<Rightarrow> duration" where
  "cache_ttl ttl = (if ttl \<le> 0 then DefaultTTL else ttl)"

definition cache_key :: "string \<Rightarrow> string" where
  "cache_key u = ''basket:'' @ u"

definition stored_cart_json :: "texts \<Rightarrow> cart \<Rightarrow> json" where
  "stored_cart_json T c = JObj
     [(''userName'', json_string (sc_UserName c)),
      (''version'', json_string (uuid_text T (sc_Version c))),
      (''items'', cart_items_json T (sc_Items c))]"

definition decode_stored_cart :: "texts \<Rightarrow> cart decoder" where
  "decode_stored_cart T = decode_struct
     [(''userName'', field decode_string sc_UserName sc_UserName_update),
      (''version'', field (decode_uuid T) sc_Version sc_Version_update),
      (''items'', field (decode_cart_items T) sc_Items sc_Items_update)]"

definition read_entry :: "texts \<Rightarrow> payload \<Rightarrow> cart option" where
  "read_entry T p =
     (case p of
        OtherBytes bs \<Rightarrow> None
      | JsonText j \<Rightarrow>
          (case decode_stored_cart T j cart_zero of
             Inl e \<Rightarrow> None
           | Inr c \<Rightarrow> if sc_Version c \<noteq> uuid_nil then Some c else None))"

definition live_entry :: "time \<Rightarrow> 's cached \<Rightarrow> string \<Rightarrow> payload option" where
  "live_entry t s k =
     (case cd_Cache s k of None \<Rightarrow> None | Some (p, e) \<Rightarrow> if t < e then Some p else None)"

definition cache_get :: "string \<Rightarrow> ('s cached, payload option) act" where
  "cache_get u = call (\<lambda>t s. (Inr (live_entry t s (cache_key u)), s))"

definition cache_set :: "duration \<Rightarrow> texts \<Rightarrow> cart \<Rightarrow> ('s cached, unit) act" where
  "cache_set ttl T c =
     update (\<lambda>t s. s\<lparr>cd_Cache := (cd_Cache s)(cache_key (sc_UserName c) \<mapsto>
                       (JsonText (stored_cart_json T c), t + cache_ttl ttl))\<rparr>)"

definition cache_del :: "string \<Rightarrow> ('s cached, unit) act" where
  "cache_del u = update (\<lambda>t s. s\<lparr>cd_Cache := (cd_Cache s)(cache_key u := None)\<rparr>)"

text \<open>
  A read that misses is a read of the tables and then a write of the cache. Other requests can run between the
  two; \<open>others\<close> is what they do there.
\<close>

definition read_through_amid ::
  "('s cached, unit) act \<Rightarrow> duration \<Rightarrow> texts \<Rightarrow> 's cart_repo \<Rightarrow> string \<Rightarrow> ('s cached, cart) act" where
  "read_through_amid others ttl T inner u =
     andthen (on_inner (repo_GetByUserName inner u)) (\<lambda>c.
     andthen (attempt others) (\<lambda>_.
     andthen (attempt (cache_set ttl T c)) (\<lambda>_. ret c)))"

definition cached_GetByUserName_amid ::
  "('s cached, unit) act \<Rightarrow> duration \<Rightarrow> texts \<Rightarrow> 's cart_repo \<Rightarrow> string \<Rightarrow> ('s cached, cart) act" where
  "cached_GetByUserName_amid others ttl T inner u =
     andthen (attempt (cache_get u)) (\<lambda>r.
       case r of
         Inr (Some p) \<Rightarrow>
           (case read_entry T p of Some c \<Rightarrow> ret c | None \<Rightarrow> read_through_amid others ttl T inner u)
       | _ \<Rightarrow> read_through_amid others ttl T inner u)"

text \<open>With nothing in between.\<close>

definition read_through :: "duration \<Rightarrow> texts \<Rightarrow> 's cart_repo \<Rightarrow> string \<Rightarrow> ('s cached, cart) act" where
  "read_through = read_through_amid (ret ())"

definition cached_GetByUserName :: "duration \<Rightarrow> texts \<Rightarrow> 's cart_repo \<Rightarrow> string \<Rightarrow> ('s cached, cart) act" where
  "cached_GetByUserName = cached_GetByUserName_amid (ret ())"

lemma attempt_ret [simp]: "attempt (ret x) = ret (Inr x)"
  by (rule ext) (simp add: attempt_def ret_def)

lemma read_through_eq:
  "read_through ttl T inner u =
     andthen (on_inner (repo_GetByUserName inner u)) (\<lambda>c.
     andthen (attempt (cache_set ttl T c)) (\<lambda>_. ret c))"
  by (simp add: read_through_def read_through_amid_def)

lemma cached_GetByUserName_eq:
  "cached_GetByUserName ttl T inner u =
     andthen (attempt (cache_get u)) (\<lambda>r.
       case r of
         Inr (Some p) \<Rightarrow>
           (case read_entry T p of Some c \<Rightarrow> ret c | None \<Rightarrow> read_through ttl T inner u)
       | _ \<Rightarrow> read_through ttl T inner u)"
  unfolding cached_GetByUserName_def cached_GetByUserName_amid_def read_through_def ..

definition cached_Store :: "duration \<Rightarrow> texts \<Rightarrow> 's cart_repo \<Rightarrow> cart \<Rightarrow> ('s cached, unit) act" where
  "cached_Store ttl T inner c =
     andthen new_uuid (\<lambda>version.
     let c = c\<lparr>sc_Version := version\<rparr> in
     andthen (on_inner (repo_Store inner c)) (\<lambda>_.
     on_err (\<lambda>e. Internal e (Fmt ''basket was stored but its cache entry could not be refreshed'' []))
       (cache_set ttl T c)))"

definition cached_DeleteCart :: "'s cart_repo \<Rightarrow> string \<Rightarrow> ('s cached, unit) act" where
  "cached_DeleteCart inner u =
     andthen (on_inner (repo_DeleteCart inner u)) (\<lambda>_.
     on_err (\<lambda>e. Internal e (Fmt ''basket was deleted but its cache entry could not be removed'' []))
       (cache_del u))"

definition cached_Checkout :: "'s cart_repo \<Rightarrow> string \<Rightarrow> envelope \<Rightarrow> ('s cached, unit) act" where
  "cached_Checkout inner u e =
     andthen (on_inner (repo_Checkout inner u e)) (\<lambda>_.
     on_err (\<lambda>e. Internal e (Fmt ''the basket was checked out but its cache entry could not be removed'' []))
       (cache_del u))"

definition cached_carts :: "duration \<Rightarrow> texts \<Rightarrow> 's cart_repo \<Rightarrow> 's cached cart_repo" where
  "cached_carts ttl T inner =
     \<lparr>repo_GetByUserName = cached_GetByUserName ttl T inner,
      repo_Store = cached_Store ttl T inner, repo_DeleteCart = cached_DeleteCart inner,
      repo_Checkout = cached_Checkout inner\<rparr>"

text \<open>What the service is wired with; the time to live is configured.\<close>

definition basket_repo :: "duration \<Rightarrow> postgres \<Rightarrow> texts \<Rightarrow> basket_db cached cart_repo" where
  "basket_repo ttl P T = cached_carts ttl T (pg_carts P T)"

end
