(* ===== verification/Basket_Facts.thy ===== *)
theory Basket_Facts
  imports Basket_Store
begin

text \<open>
  What the Basket service promises. The contract of a repository is the locale \<open>cart_laws\<close>; the
  lemmas on the cache in front of one are proved inside it, and it is interpreted on the tables of
  PostgreSQL.
\<close>

section \<open>Encoding and decoding baskets\<close>

text \<open>The baskets whose JSON is read back as they were: a Go \<open>int\<close>, a decimal, valid UTF-8.\<close>

definition encodable_item :: "cart_item \<Rightarrow> bool" where
  "encodable_item i \<longleftrightarrow>
     int64 (ci_Quantity i) \<and> utf8_ok (ci_Color i) \<and> is_decimal (ci_Price i) \<and> utf8_ok (ci_ProductName i)"

definition encodable :: "cart \<Rightarrow> bool" where
  "encodable c \<longleftrightarrow> utf8_ok (sc_UserName c) \<and> list_all encodable_item (sc_Items c)"

definition item_index :: "string \<Rightarrow> nat" where
  "item_index k =
     (if k = ''quantity'' then 0 else if k = ''color'' then 1 else if k = ''price'' then 2
      else if k = ''productId'' then 3 else 4)"

definition item_set :: "nat \<Rightarrow> cart_item \<Rightarrow> cart_item \<Rightarrow> cart_item" where
  "item_set n i v =
     (if n = 0 then v\<lparr>ci_Quantity := ci_Quantity i\<rparr>
      else if n = 1 then v\<lparr>ci_Color := ci_Color i\<rparr>
      else if n = 2 then v\<lparr>ci_Price := ci_Price i\<rparr>
      else if n = 3 then v\<lparr>ci_ProductID := ci_ProductID i\<rparr>
      else v\<lparr>ci_ProductName := ci_ProductName i\<rparr>)"

definition item_setter :: "cart_item \<Rightarrow> string \<times> json \<Rightarrow> cart_item \<Rightarrow> cart_item" where
  "item_setter i m = item_set (item_index (fst m)) i"

lemma item_setter_commutes: "item_setter i x \<circ> item_setter i y = item_setter i y \<circ> item_setter i x"
  by (rule ext) (simp add: item_setter_def item_set_def)

lemma item_member_decodes:
  assumes "texts_ok T" "encodable_item i" "(k, j) \<in> set (cart_item_members T i)"
  shows "\<exists>d. find_field (cart_item_fields T) k = Some d \<and> d j v = Inr (item_setter i (k, j) v)"
proof -
  from assms(3) consider
      "k = ''quantity''" "j = json_int (ci_Quantity i)"
    | "k = ''color''" "j = json_string (ci_Color i)"
    | "k = ''price''" "j = JNum (dec_text T (ci_Price i))"
    | "k = ''productId''" "j = json_string (uuid_text T (ci_ProductID i))"
    | "k = ''productName''" "j = json_string (ci_ProductName i)"
    by (auto simp: cart_item_members_def)
  then show ?thesis
    using assms(1,2)
    by cases (simp_all add: cart_item_fields_def find_field_def field_def encodable_item_def
        item_setter_def item_index_def item_set_def)
qed

lemma decode_item:
  assumes "texts_ok T" "encodable_item i" "mset ms = mset (cart_item_members T i)"
  shows "decode_struct (cart_item_fields T) (JObj ms) cart_item_zero = Inr i"
proof -
  have "decode_struct (cart_item_fields T) (JObj ms) cart_item_zero
      = Inr (fold (item_setter i) (cart_item_members T i) cart_item_zero)"
    by (rule decode_reordered [OF assms(3) [symmetric] item_setter_commutes])
      (rule item_member_decodes [OF assms(1,2)])
  also have "fold (item_setter i) (cart_item_members T i) cart_item_zero = i"
    by (cases i) (simp add: cart_item_members_def cart_item_zero_def item_setter_def item_index_def item_set_def)
  finally show ?thesis .
qed

lemma item_members_distinct: "distinct (map fst (cart_item_members T i))"
  by (simp add: cart_item_members_def)

lemma decode_items_reordered:
  assumes "texts_ok T" "list_all encodable_item its" "reordered (cart_items_json T its) j"
  shows "decode_cart_items T j old = Inr its"
proof -
  from assms(3) obtain ys where j: "j = JArr ys"
    and l: "list_all2 (\<lambda>x y. case (x, y) of
              (JObj ms, JObj ns) \<Rightarrow> distinct (map fst ms) \<longrightarrow> mset ms = mset ns | _ \<Rightarrow> x = y)
            (map (\<lambda>i. JObj (cart_item_members T i)) its) ys"
    by (cases j) (auto simp: reordered_def cart_items_json_def)
  from l assms(2)
  have "map_err (\<lambda>j. decode_struct (cart_item_fields T) j cart_item_zero) ys = Inr its"
  proof (induction its arbitrary: ys)
    case Nil
    then show ?case by simp
  next
    case (Cons i its)
    then obtain y ys' where ys: "ys = y # ys'" by (auto simp: list_all2_Cons1)
    with Cons.prems obtain ns where y: "y = JObj ns" "mset (cart_item_members T i) = mset ns"
      by (cases y) (auto simp: item_members_distinct)
    have "decode_struct (cart_item_fields T) y cart_item_zero = Inr i"
      using decode_item [OF assms(1), of i ns] Cons.prems(2) y by simp
    with Cons ys show ?case by simp
  qed
  then show ?thesis by (simp add: decode_cart_items_def decode_slice_def j)
qed

lemma reordered_refl: "reordered (cart_items_json T its) (cart_items_json T its)"
  by (simp add: reordered_def cart_items_json_def list_all2_map1 list_all2_map2 list_all2_refl)

lemma decode_items [simp]:
  "texts_ok T \<Longrightarrow> list_all encodable_item its \<Longrightarrow> decode_cart_items T (cart_items_json T its) old = Inr its"
  by (rule decode_items_reordered) (auto intro: reordered_refl)

lemma read_entry_stored:
  assumes "texts_ok T" "encodable c" "sc_Version c \<noteq> uuid_nil"
  shows "read_entry T (JsonText (stored_cart_json T c)) = Some c"
  using assms
  by (cases c) (simp add: read_entry_def stored_cart_json_def decode_stored_cart_def decode_struct_def
      find_field_def field_def encodable_def cart_zero_def)

lemma is_decimal_diff_int: "is_decimal d \<Longrightarrow> is_decimal (d - of_int m)"
proof -
  assume "is_decimal d"
  then obtain n :: int and k :: nat where d: "d = of_int n / 10 ^ k" by (auto simp: is_decimal_def)
  have "d - of_int m = of_int (n - m * 10 ^ k) / 10 ^ k" by (simp add: d field_simps)
  then show ?thesis unfolding is_decimal_def by blast
qed

section \<open>The contract of a repository\<close>

text \<open>
  \<open>stored s u\<close> is the basket the repository holds for \<open>u\<close>. A write that answers has happened; one that
  fails has happened or not. \<open>storable\<close> are the baskets that are kept as they are.
\<close>

locale cart_laws =
  fixes repo :: "'s cart_repo"
    and stored :: "'s \<Rightarrow> string \<Rightarrow> cart option"
    and storable :: "cart \<Rightarrow> bool"
    and T :: texts
  assumes get: "repo_GetByUserName repo u (E, s) = (r0, E', s') \<Longrightarrow>
      s' = s \<and> (\<forall>c. r0 = Inr c \<longrightarrow> stored s u = Some c)"
    and stored_name: "stored s0 u0 = Some c0 \<Longrightarrow> sc_UserName c0 = u0"
    and store: "repo_Store repo c (E, s) = (r, E', s') \<Longrightarrow> storable c \<Longrightarrow>
      (s' = s \<and> (\<forall>x. r \<noteq> Inr x)) \<or> stored s' = (stored s)(sc_UserName c \<mapsto> c)"
    and delete: "repo_DeleteCart repo u (E, s) = (r2, E', s') \<Longrightarrow>
      (s' = s \<and> (\<forall>x. r2 \<noteq> Inr x)) \<or> stored s' = (stored s)(u := None)"
    and checkout: "repo_Checkout repo u e (E, s) = (r3, E', s') \<Longrightarrow>
      (s' = s \<and> (\<forall>x. r3 \<noteq> Inr x)) \<or> stored s' = (stored s)(u := None)"
    and entry: "storable c \<Longrightarrow> read_entry T (JsonText (stored_cart_json T c)) = Some c"
    and clock: "steady (repo_GetByUserName repo u)" "steady (repo_Store repo c)"
      "steady (repo_DeleteCart repo u)" "steady (repo_Checkout repo u e)"

text \<open>
  What the cache holds for a user, if it can be read at all, is the stored basket; and what is stored
  can be kept.
\<close>

definition agrees :: "texts \<Rightarrow> ('s \<Rightarrow> string \<Rightarrow> cart option) \<Rightarrow> 's cached \<Rightarrow> string \<Rightarrow> bool" where
  "agrees T stored s u \<longleftrightarrow>
     (\<forall>p e c. cd_Cache s (cache_key u) = Some (p, e) \<longrightarrow> read_entry T p = Some c \<longrightarrow>
        stored (cd_Inner s) u = Some c)"

definition all_storable :: "(cart \<Rightarrow> bool) \<Rightarrow> ('s \<Rightarrow> string \<Rightarrow> cart option) \<Rightarrow> 's \<Rightarrow> bool" where
  "all_storable storable stored s \<longleftrightarrow> (\<forall>u c. stored s u = Some c \<longrightarrow> storable c)"

lemma cache_key_inj [simp]: "cache_key u = cache_key v \<longleftrightarrow> u = v"
  by (simp add: cache_key_def)

lemma live_entry_Some: "live_entry t s k = Some p \<Longrightarrow> \<exists>e. cd_Cache s k = Some (p, e)"
  by (auto simp: live_entry_def split: option.splits if_splits)

lemma cache_get_run:
  "cache_get u (E, s) = (r, E', s') \<Longrightarrow>
     s' = s \<and> (\<forall>p. r = Inr (Some p) \<longrightarrow> (\<exists>e. cd_Cache s (cache_key u) = Some (p, e)))"
  by (auto simp: cache_get_def call_def dest!: live_entry_Some split: prod.splits outcome.splits)

lemma cache_set_run:
  assumes "cache_set ttl T c (E, s) = (r, E', s')"
  shows "cd_Inner s' = cd_Inner s \<and>
    (s' = s \<and> (\<forall>x. r \<noteq> Inr x) \<or> (\<exists>e. cd_Cache s' = (cd_Cache s)(cache_key (sc_UserName c) \<mapsto>
        (JsonText (stored_cart_json T c), e))))"
  using assms
  by (auto simp: cache_set_def update_def call_def split: prod.splits outcome.splits)

lemma cache_del_run:
  assumes "cache_del u (E, s) = (r, E', s')"
  shows "cd_Inner s' = cd_Inner s \<and>
    (s' = s \<and> (\<forall>x. r \<noteq> Inr x) \<or> cd_Cache s' = (cd_Cache s)(cache_key u := None))"
  using assms
  by (auto simp: cache_del_def update_def call_def split: prod.splits outcome.splits)

lemma on_inner_run:
  "on_inner m (E, s) = (r, E', s') \<longleftrightarrow>
     (\<exists>t. m (E, cd_Inner s) = (r, E', t) \<and> s' = s\<lparr>cd_Inner := t\<rparr>)"
  by (simp add: on_inner_def zoom_run)


lemma agrees_inner:
  "agrees T stored s v \<Longrightarrow> cd_Cache s' = cd_Cache s \<Longrightarrow> stored (cd_Inner s') v = stored (cd_Inner s) v \<Longrightarrow>
     agrees T stored s' v"
  by (simp add: agrees_def)

lemma agrees_removed:
  "agrees T stored s v \<Longrightarrow> cd_Cache s' = (cd_Cache s)(cache_key u := None) \<Longrightarrow>
     stored (cd_Inner s') v = stored (cd_Inner s) v \<Longrightarrow> agrees T stored s' v"
  by (simp add: agrees_def)

lemma agrees_gone: "cd_Cache s' (cache_key u) = None \<Longrightarrow> agrees T stored s' u"
  by (simp add: agrees_def)

context cart_laws
begin

lemma agrees_entry:
  assumes "cd_Cache s' = (cd_Cache s)(cache_key (sc_UserName c) \<mapsto> (JsonText (stored_cart_json T c), e))"
    and "storable c" "stored (cd_Inner s') (sc_UserName c) = Some c"
    and "v \<noteq> sc_UserName c \<Longrightarrow> agrees T stored s v \<and> stored (cd_Inner s') v = stored (cd_Inner s) v"
  shows "agrees T stored s' v"
  using assms entry [of c] by (cases "v = sc_UserName c") (auto simp: agrees_def)

lemma read_through_run:
  assumes "read_through ttl T repo u (E, s) = (r, E', s')" "all_storable storable stored (cd_Inner s)"
  shows "cd_Inner s' = cd_Inner s \<and> (\<forall>c. r = Inr c \<longrightarrow> stored (cd_Inner s) u = Some c) \<and>
    (\<forall>v. agrees T stored s v \<longrightarrow> agrees T stored s' v)"
proof -
  obtain r1 E1 t where 1: "repo_GetByUserName repo u (E, cd_Inner s) = (r1, E1, t)"
    by (cases "repo_GetByUserName repo u (E, cd_Inner s)") auto
  with get [OF 1] have o: "on_inner (repo_GetByUserName repo u) (E, s) = (r1, E1, s)"
    by (simp add: on_inner_run)
  show ?thesis
  proof (cases r1)
    case (Inl e)
    with assms(1) o show ?thesis by (auto simp: read_through_eq andthen_def)
  next
    case (Inr c)
    with get [OF 1] have c: "stored (cd_Inner s) u = Some c" by simp
    obtain r2 E2 s2 where 2: "cache_set ttl T c (E1, s) = (r2, E2, s2)"
      by (cases "cache_set ttl T c (E1, s)") auto
    with assms(1) o Inr have r: "r = Inr c" "s' = s2"
      by (simp_all add: read_through_eq andthen_def attempt_def ret_def)
    have i: "cd_Inner s2 = cd_Inner s" using cache_set_run [OF 2] by simp
    have "agrees T stored s2 v" if "agrees T stored s v" for v
    proof (cases "s2 = s")
      case True
      with that show ?thesis by simp
    next
      case False
      with cache_set_run [OF 2] obtain e where "cd_Cache s2
          = (cd_Cache s)(cache_key (sc_UserName c) \<mapsto> (JsonText (stored_cart_json T c), e))" by auto
      then show ?thesis
        using c i that assms(2) stored_name [OF c]
        by (intro agrees_entry) (auto simp: all_storable_def)
    qed
    with r c i show ?thesis by simp
  qed
qed

lemma read_through_answer:
  assumes "read_through ttl T repo u (E, s) = (Inr c, E', s')"
  shows "stored (cd_Inner s) u = Some c"
proof -
  obtain r1 E1 t where 1: "repo_GetByUserName repo u (E, cd_Inner s) = (r1, E1, t)"
    by (cases "repo_GetByUserName repo u (E, cd_Inner s)") auto
  with get [OF 1] have "on_inner (repo_GetByUserName repo u) (E, s) = (r1, E1, s)"
    by (simp add: on_inner_run)
  with assms have "r1 = Inr c"
    by (cases r1) (auto simp: read_through_eq andthen_def attempt_def ret_def split: prod.splits)
  with get [OF 1] show ?thesis by simp
qed

text \<open>A read does not disturb any entry, and answers with the stored basket if the entry agreed.\<close>

lemma cached_get_run:
  assumes "cached_GetByUserName ttl T repo u (E, s) = (r, E', s')" "all_storable storable stored (cd_Inner s)"
  shows "cd_Inner s' = cd_Inner s \<and>
    (\<forall>c. agrees T stored s u \<longrightarrow> r = Inr c \<longrightarrow> stored (cd_Inner s) u = Some c) \<and>
    (\<forall>v. agrees T stored s v \<longrightarrow> agrees T stored s' v)"
proof -
  obtain r1 E1 s1 where 1: "cache_get u (E, s) = (r1, E1, s1)" by (cases "cache_get u (E, s)") auto
  from cache_get_run [OF 1] have s1: "s1 = s" by simp
  show ?thesis
  proof (cases "\<exists>p c. r1 = Inr (Some p) \<and> read_entry T p = Some c")
    case True
    then obtain p c where p: "r1 = Inr (Some p)" "read_entry T p = Some c" by auto
    with assms(1) 1 s1 have "r = Inr c" "s' = s"
      by (simp_all add: cached_GetByUserName_eq andthen_def attempt_def ret_def)
    with cache_get_run [OF 1] p show ?thesis by (auto simp: agrees_def)
  next
    case False
    with assms(1) 1 s1 have "read_through ttl T repo u (E1, s) = (r, E', s')"
      by (auto simp: cached_GetByUserName_eq andthen_def attempt_def split: sum.splits option.splits)
    from read_through_run [OF this assms(2)] show ?thesis by blast
  qed
qed

lemma cached_get_answer:
  assumes "cached_GetByUserName ttl T repo u (E, s) = (Inr c, E', s')" "agrees T stored s u"
  shows "stored (cd_Inner s) u = Some c"
proof -
  obtain r1 E1 s1 where 1: "cache_get u (E, s) = (r1, E1, s1)" by (cases "cache_get u (E, s)") auto
  from cache_get_run [OF 1] have s1: "s1 = s" by simp
  show ?thesis
  proof (cases "\<exists>p c. r1 = Inr (Some p) \<and> read_entry T p = Some c")
    case True
    then obtain p c1 where p: "r1 = Inr (Some p)" "read_entry T p = Some c1" by auto
    with assms(1) 1 s1 have "c1 = c"
      by (simp add: cached_GetByUserName_eq andthen_def attempt_def ret_def)
    with cache_get_run [OF 1] p assms(2) show ?thesis by (auto simp: agrees_def)
  next
    case False
    with assms(1) 1 s1 have "read_through ttl T repo u (E1, s) = (Inr c, E', s')"
      by (auto simp: cached_GetByUserName_eq andthen_def attempt_def split: sum.splits option.splits)
    then show ?thesis by (rule read_through_answer)
  qed
qed

lemma cached_store_run:
  assumes "cached_Store ttl T repo c (E, s) = (r, E', s')"
    and "storable (c\<lparr>sc_Version := rnd E (drawn E)\<rparr>)"
  shows "(\<forall>v. v \<noteq> sc_UserName c \<longrightarrow> agrees T stored s v \<longrightarrow> agrees T stored s' v) \<and>
    (cd_Inner s' = cd_Inner s \<and> (\<forall>x. r \<noteq> Inr x) \<or>
     stored (cd_Inner s') = (stored (cd_Inner s))(sc_UserName c \<mapsto> c\<lparr>sc_Version := rnd E (drawn E)\<rparr>)) \<and>
    (\<forall>x. r = Inr x \<longrightarrow> agrees T stored s' (sc_UserName c))"
proof -
  let ?c = "c\<lparr>sc_Version := rnd E (drawn E)\<rparr>"
  let ?E = "E\<lparr>drawn := Suc (drawn E)\<rparr>"
  obtain r1 E1 t where 1: "repo_Store repo ?c (?E, cd_Inner s) = (r1, E1, t)"
    by (cases "repo_Store repo ?c (?E, cd_Inner s)") auto
  let ?s = "s\<lparr>cd_Inner := t\<rparr>"
  have o: "on_inner (repo_Store repo ?c) (?E, s) = (r1, E1, ?s)" using 1 by (simp add: on_inner_run)
  note st = store [OF 1 assms(2)]
  show ?thesis
  proof (cases r1)
    case (Inl e)
    with assms(1) o have "s' = ?s" "r = Inl e"
      by (simp_all add: cached_Store_def andthen_def new_uuid_def Let_def)
    with st show ?thesis by (auto intro: agrees_inner)
  next
    case (Inr x)
    with st have t: "stored t = (stored (cd_Inner s))(sc_UserName c \<mapsto> ?c)" by simp
    obtain r2 E2 s2 where 2: "cache_set ttl T ?c (E1, ?s) = (r2, E2, s2)"
      by (cases "cache_set ttl T ?c (E1, ?s)") auto
    with assms(1) o Inr have r: "s' = s2" "\<And>x. r = Inr x \<Longrightarrow> r2 = Inr x"
      by (auto simp: cached_Store_def andthen_def new_uuid_def on_err_def Let_def)
    note cs = cache_set_run [OF 2]
    then have i: "cd_Inner s2 = t" by simp
    from cs consider "s2 = ?s" "\<forall>x. r2 \<noteq> Inr x"
      | e where "cd_Cache s2 = (cd_Cache ?s)(cache_key (sc_UserName ?c) \<mapsto>
          (JsonText (stored_cart_json T ?c), e))" by auto
    then show ?thesis
    proof cases
      case 1
      with r t show ?thesis using agrees_inner [of T stored s _ ?s] by auto
    next
      case e: (2 e)
      have "agrees T stored s2 v" if "v \<noteq> sc_UserName c \<Longrightarrow> agrees T stored s v" for v
        using e assms(2) i t that by (intro agrees_entry [OF e]) (auto intro: agrees_inner)
      with r i t show ?thesis by auto
    qed
  qed
qed

end


section \<open>Requests one after the other\<close>

text \<open>
  A call of the repository, each in an environment of its own: its time, its random ids and its
  failures. Whether it answered is kept, and the state it leaves.
\<close>

datatype cart_op =
    ReadCart string
  | WriteCart cart
  | RemoveCart string
  | CheckoutCart string envelope

definition answered :: "(go_error + 'a) \<times> env \<times> 's \<Rightarrow> bool \<times> 's" where
  "answered x = (case x of (r, E, s) \<Rightarrow> (case r of Inl e \<Rightarrow> False | Inr y \<Rightarrow> True, s))"

fun run_op :: "'s cart_repo \<Rightarrow> cart_op \<Rightarrow> env \<times> 's \<Rightarrow> bool \<times> 's" where
  "run_op repo (ReadCart u) w = answered (repo_GetByUserName repo u w)"
| "run_op repo (WriteCart c) w = answered (repo_Store repo c w)"
| "run_op repo (RemoveCart u) w = answered (repo_DeleteCart repo u w)"
| "run_op repo (CheckoutCart u e) w = answered (repo_Checkout repo u e w)"

fun run_ops :: "'s cart_repo \<Rightarrow> (env \<times> cart_op) list \<Rightarrow> 's \<Rightarrow> bool list \<times> 's" where
  "run_ops repo [] s = ([], s)"
| "run_ops repo ((E, p) # ps) s =
     (case run_op repo p (E, s) of
        (ok, s1) \<Rightarrow> (case run_ops repo ps s1 of (oks, s2) \<Rightarrow> (ok # oks, s2)))"

fun writes :: "cart_op \<Rightarrow> string \<Rightarrow> bool" where
  "writes (ReadCart u) v = False"
| "writes (WriteCart c) v = (v = sc_UserName c)"
| "writes (RemoveCart u) v = (v = u)"
| "writes (CheckoutCart u e) v = (v = u)"

fun op_storable :: "(cart \<Rightarrow> bool) \<Rightarrow> env \<times> cart_op \<Rightarrow> bool" where
  "op_storable storable (E, WriteCart c) = storable (c\<lparr>sc_Version := rnd E (drawn E)\<rparr>)"
| "op_storable storable (E, p) = True"

lemma answered_cases:
  "answered (m w) = (ok, s') \<longleftrightarrow> (\<exists>r E'. m w = (r, E', s') \<and> (ok \<longleftrightarrow> (\<exists>x. r = Inr x)))"
  by (cases "m w") (auto simp: answered_def split: sum.splits)

context cart_laws
begin

lemma cached_removal_run:
  assumes "andthen (on_inner m) (\<lambda>_. on_err f (cache_del u)) (E, s) = (r, E', s')"
    and m: "\<And>r E' t. m (E, cd_Inner s) = (r, E', t) \<Longrightarrow>
      (t = cd_Inner s \<and> (\<forall>x. r \<noteq> Inr x)) \<or> stored t = (stored (cd_Inner s))(u := None)"
  shows "(\<forall>v. v \<noteq> u \<longrightarrow> agrees T stored s v \<longrightarrow> agrees T stored s' v) \<and>
    (cd_Inner s' = cd_Inner s \<and> (\<forall>x. r \<noteq> Inr x) \<or>
     stored (cd_Inner s') = (stored (cd_Inner s))(u := None)) \<and>
    (\<forall>x. r = Inr x \<longrightarrow> agrees T stored s' u)"
proof -
  obtain r1 E1 t where 1: "m (E, cd_Inner s) = (r1, E1, t)" by (cases "m (E, cd_Inner s)") auto
  let ?s = "s\<lparr>cd_Inner := t\<rparr>"
  have o: "on_inner m (E, s) = (r1, E1, ?s)" using 1 by (simp add: on_inner_run)
  note st = m [OF 1]
  show ?thesis
  proof (cases r1)
    case (Inl e)
    with assms(1) o have "s' = ?s" "r = Inl e" by (auto simp: andthen_def)
    with st show ?thesis by (auto intro: agrees_inner)
  next
    case (Inr x)
    with st have t: "stored t = (stored (cd_Inner s))(u := None)" by simp
    obtain r2 E2 s2 where 2: "cache_del u (E1, ?s) = (r2, E2, s2)" by (cases "cache_del u (E1, ?s)") auto
    with assms(1) o Inr have r: "s' = s2" "\<And>x. r = Inr x \<Longrightarrow> r2 = Inr x"
      by (auto simp: andthen_def on_err_def)
    note cd = cache_del_run [OF 2]
    then have i: "cd_Inner s2 = t" by simp
    from cd consider "s2 = ?s" "\<forall>x. r2 \<noteq> Inr x" | "cd_Cache s2 = (cd_Cache ?s)(cache_key u := None)" by auto
    then show ?thesis
    proof cases
      case 1
      with r t show ?thesis using agrees_inner [of T stored s _ ?s] by auto
    next
      case 2
      then have "agrees T stored s2 u" by (intro agrees_gone) simp
      moreover have "agrees T stored s2 v" if "v \<noteq> u" "agrees T stored s v" for v
        using 2 i t that by (intro agrees_removed [of T stored s v s2 u]) auto
      ultimately show ?thesis using r i t by auto
    qed
  qed
qed

lemma cached_delete_run:
  assumes "cached_DeleteCart repo u (E, s) = (r, E', s')"
  shows "(\<forall>v. v \<noteq> u \<longrightarrow> agrees T stored s v \<longrightarrow> agrees T stored s' v) \<and>
    (cd_Inner s' = cd_Inner s \<and> (\<forall>x. r \<noteq> Inr x) \<or>
     stored (cd_Inner s') = (stored (cd_Inner s))(u := None)) \<and>
    (\<forall>x. r = Inr x \<longrightarrow> agrees T stored s' u)"
  by (rule cached_removal_run [OF assms [unfolded cached_DeleteCart_def]]) (use delete in blast)

lemma cached_checkout_run:
  assumes "cached_Checkout repo u e (E, s) = (r, E', s')"
  shows "(\<forall>v. v \<noteq> u \<longrightarrow> agrees T stored s v \<longrightarrow> agrees T stored s' v) \<and>
    (cd_Inner s' = cd_Inner s \<and> (\<forall>x. r \<noteq> Inr x) \<or>
     stored (cd_Inner s') = (stored (cd_Inner s))(u := None)) \<and>
    (\<forall>x. r = Inr x \<longrightarrow> agrees T stored s' u)"
  by (rule cached_removal_run [OF assms [unfolded cached_Checkout_def]]) (use checkout in blast)

lemma write_step:
  assumes "(\<forall>v. v \<noteq> u \<longrightarrow> agrees T stored s v \<longrightarrow> agrees T stored s' v) \<and>
      (cd_Inner s' = cd_Inner s \<and> (\<forall>x. r \<noteq> Inr x) \<or>
       stored (cd_Inner s') = (stored (cd_Inner s))(u := y)) \<and>
      (\<forall>x. r = Inr x \<longrightarrow> agrees T stored s' u)"
    and "\<And>c. y = Some c \<Longrightarrow> storable c" "all_storable storable stored (cd_Inner s)"
    and "ok \<longleftrightarrow> (\<exists>x. r = Inr x)" "writes p = (\<lambda>v. v = u)"
  shows "all_storable storable stored (cd_Inner s') \<and>
    (\<forall>v. agrees T stored s v \<longrightarrow> (writes p v \<longrightarrow> ok) \<longrightarrow> agrees T stored s' v)"
proof
  from assms(1) consider "cd_Inner s' = cd_Inner s"
    | "stored (cd_Inner s') = (stored (cd_Inner s))(u := y)" by blast
  then show "all_storable storable stored (cd_Inner s')"
    by cases (use assms(2,3) in \<open>auto simp: all_storable_def\<close>)
  show "\<forall>v. agrees T stored s v \<longrightarrow> (writes p v \<longrightarrow> ok) \<longrightarrow> agrees T stored s' v"
    using assms(1,4,5) by metis
qed

lemma cached_op:
  assumes "run_op (cached_carts ttl T repo) p (E, s) = (ok, s')"
    and "all_storable storable stored (cd_Inner s)" "op_storable storable (E, p)"
  shows "all_storable storable stored (cd_Inner s') \<and>
    (\<forall>v. agrees T stored s v \<longrightarrow> (writes p v \<longrightarrow> ok) \<longrightarrow> agrees T stored s' v)"
proof (cases p)
  case (ReadCart u)
  with assms(1) obtain r E' where 1: "cached_GetByUserName ttl T repo u (E, s) = (r, E', s')"
    by (auto simp: cached_carts_def answered_cases)
  from cached_get_run [OF 1 assms(2)] assms(2) show ?thesis by auto
next
  case (WriteCart c)
  with assms(1) obtain r E' where 1: "cached_Store ttl T repo c (E, s) = (r, E', s')"
      and ok: "ok \<longleftrightarrow> (\<exists>x. r = Inr x)"
    by (auto simp: cached_carts_def answered_cases)
  from assms(3) WriteCart have st: "storable (c\<lparr>sc_Version := rnd E (drawn E)\<rparr>)" by simp
  from cached_store_run [OF 1 st] show ?thesis
    by (rule write_step) (use st assms(2) ok WriteCart in auto)
next
  case (RemoveCart u)
  with assms(1) obtain r E' where 1: "cached_DeleteCart repo u (E, s) = (r, E', s')"
      and ok: "ok \<longleftrightarrow> (\<exists>x. r = Inr x)"
    by (auto simp: cached_carts_def answered_cases)
  from cached_delete_run [OF 1] show ?thesis
    by (rule write_step) (use assms(2) ok RemoveCart in auto)
next
  case (CheckoutCart u e)
  with assms(1) obtain r E' where 1: "cached_Checkout repo u e (E, s) = (r, E', s')"
      and ok: "ok \<longleftrightarrow> (\<exists>x. r = Inr x)"
    by (auto simp: cached_carts_def answered_cases)
  from cached_checkout_run [OF 1] show ?thesis
    by (rule write_step) (use assms(2) ok CheckoutCart in auto)
qed

text \<open>
  Any sequence of requests keeps a user's entry in agreement with the store as long as the requests
  that write for this user are answered.
\<close>

lemma cached_ops:
  assumes "run_ops (cached_carts ttl T repo) ps s = (oks, s')"
    and "all_storable storable stored (cd_Inner s)" "list_all (op_storable storable) ps"
    and "agrees T stored s v" "list_all (\<lambda>((E, p), ok). writes p v \<longrightarrow> ok) (zip ps oks)"
  shows "agrees T stored s' v \<and> all_storable storable stored (cd_Inner s')"
  using assms
proof (induction ps arbitrary: s oks)
  case Nil
  then show ?case by simp
next
  case (Cons q ps)
  obtain E p where q: "q = (E, p)" by (cases q)
  obtain ok s1 where 1: "run_op (cached_carts ttl T repo) p (E, s) = (ok, s1)"
    by (cases "run_op (cached_carts ttl T repo) p (E, s)") auto
  obtain oks2 s2 where 2: "run_ops (cached_carts ttl T repo) ps s1 = (oks2, s2)"
    by (cases "run_ops (cached_carts ttl T repo) ps s1") auto
  from Cons.prems(1) q 1 2 have eq: "oks = ok # oks2" "s2 = s'" by auto
  from cached_op [OF 1 Cons.prems(2)] Cons.prems(3-5) q eq
  have "all_storable storable stored (cd_Inner s1)" "agrees T stored s1 v" by auto
  from Cons.IH [OF 2 [unfolded eq(2)] this(1) _ this(2)] Cons.prems(3,5) q eq show ?case by simp
qed

end


section \<open>PostgreSQL keeps the contract\<close>

definition pg_stored :: "texts \<Rightarrow> basket_db \<Rightarrow> string \<Rightarrow> cart option" where
  "pg_stored T db u =
     (case Baskets db u of
        None \<Rightarrow> None
      | Some b \<Rightarrow>
          (case decode_cart_items T (bk_Items b) [] of
             Inl e \<Rightarrow> None
           | Inr its \<Rightarrow> Some \<lparr>sc_UserName = u, sc_Items = its, sc_Version = bk_Version b\<rparr>))"

definition pg_storable :: "postgres \<Rightarrow> texts \<Rightarrow> cart \<Rightarrow> bool" where
  "pg_storable P T c \<longleftrightarrow> postgres_ok P \<and> texts_ok T \<and> encodable c \<and> sc_Version c \<noteq> uuid_nil"

lemma pg_get_run:
  assumes "pg_GetByUserName P T u (E, db) = (r, E', db')"
  shows "db' = db \<and> (\<forall>c. r = Inr c \<longrightarrow> pg_stored T db u = Some c)"
proof -
  obtain r1 E1 db1 where 1: "pg_stmt P [u] (\<lambda>t db. (Inr (Baskets db u), db)) (E, db) = (r1, E1, db1)"
    by (cases "pg_stmt P [u] (\<lambda>t db. (Inr (Baskets db u), db)) (E, db)") auto
  from pg_stmt_run [OF 1] have "db1 = db" "\<And>x. r1 = Inr x \<Longrightarrow> x = Baskets db u" by auto
  with assms 1 show ?thesis
    by (cases r1; cases "Baskets db u")
      (auto simp: pg_GetByUserName_def andthen_def on_err_def pg_stored_def of_res_def
        split: sum.splits option.splits)
qed

lemma pg_store_run:
  assumes "pg_Store P T c (E, db) = (r, E', db')" "pg_storable P T c"
  shows "db' = db \<and> (\<forall>x. r \<noteq> Inr x) \<or>
    pg_stored T db' = (pg_stored T db)(sc_UserName c \<mapsto> c) \<and> BasketOutbox db' = BasketOutbox db"
proof -
  let ?stmt = "store_stmt P (sc_UserName c) (cart_items_json T (sc_Items c)) (sc_Version c)"
  from assms obtain r1 where 1: "pg_stmt P [sc_UserName c] ?stmt (E, db) = (r1, E', db')"
      and r: "\<And>x. r = Inr x \<Longrightarrow> r1 = Inr x"
    by (auto simp: pg_Store_def pg_storable_def andthen_def ret_def on_err_def split: prod.splits)
  show ?thesis
  proof (cases "pg_jsonb P (cart_items_json T (sc_Items c))")
    case None
    then have "?stmt (now E) db = (Inl invalid_json, db)" by (simp add: store_stmt_def)
    with pg_stmt_run [OF 1] r show ?thesis by auto
  next
    case (Some j)
    with assms(2) have d: "decode_cart_items T j [] = Inr (sc_Items c)"
      by (intro decode_items_reordered) (auto simp: pg_storable_def postgres_ok_def encodable_def)
    from Some have "?stmt (now E) db = (Inr (), db\<lparr>Baskets := (Baskets db)(sc_UserName c \<mapsto>
        \<lparr>bk_Items = j, bk_Version = sc_Version c, bk_UpdatedAt = now E\<rparr>)\<rparr>)"
      by (simp add: store_stmt_def)
    with pg_stmt_run [OF 1] r d show ?thesis
      by (auto simp: pg_stored_def fun_eq_iff)
  qed
qed

lemma pg_delete_run:
  assumes "pg_DeleteCart P u (E, db) = (r, E', db')"
  shows "db' = db \<and> (\<forall>x. r \<noteq> Inr x) \<or> db' = db\<lparr>Baskets := (Baskets db)(u := None)\<rparr>"
  using assms
  by (auto simp: pg_DeleteCart_def on_err_def dest!: pg_stmt_run split: prod.splits)

lemma pg_stored_removed:
  "pg_stored T (db\<lparr>Baskets := (Baskets db)(u := None)\<rparr>) = (pg_stored T db)(u := None)"
  "pg_stored T (db\<lparr>BasketOutbox := x\<rparr>) = pg_stored T db"
  by (auto simp: pg_stored_def fun_eq_iff)

text \<open>The transaction of a checkout: nothing, or the basket removed and its message in the table.\<close>

definition recorded :: "postgres \<Rightarrow> time \<Rightarrow> envelope \<Rightarrow> basket_db \<Rightarrow> basket_db" where
  "recorded P t e db = snd (record_stmt P e t db)"

lemma checkout_tx_Inr:
  assumes "checkout_tx P u e (E, db) = (Inr x, E', db')"
  shows "Baskets db u \<noteq> None \<and> db' = recorded P (now E) e (db\<lparr>Baskets := (Baskets db)(u := None)\<rparr>)"
proof -
  from assms obtain n E1 db1 where
    1: "pg_stmt P [u] (clear_stmt u) (E, db) = (Inr n, E1, db1)" and n: "n \<noteq> 0" and
    2: "recordCheckout P e (E1, db1) = (Inr x, E', db')"
    by (auto simp: checkout_tx_def andthen_Inr on_err_Inr split: if_splits)
  from steadyD [OF steady_pg_stmt 1] have t: "now E1 = now E" by simp
  from pg_stmt_run [OF 1] n have b: "Baskets db u \<noteq> None" "db1 = db\<lparr>Baskets := (Baskets db)(u := None)\<rparr>"
    by (auto simp: clear_stmt_def split: if_splits)
  from 2 have "pg_stmt P [EventType (env_Contract e), env_AggregateID e, env_CorrelationID e]
      (record_stmt P e) (E1, db1) = (Inr x, E', db')"
    by (simp add: recordCheckout_def on_err_Inr)
  from pg_stmt_run [OF this] t b show ?thesis by (simp add: recorded_def)
qed

lemma pg_checkout_run:
  assumes "pg_Checkout P u e (E, db) = (r, E', db')"
  shows "db' = db \<and> (\<forall>x. r \<noteq> Inr x) \<or>
    Baskets db u \<noteq> None \<and> db' = recorded P (now E) e (db\<lparr>Baskets := (Baskets db)(u := None)\<rparr>)"
proof -
  note a = assms [unfolded pg_Checkout_def]
  from transaction_atomic [OF a] consider "db' = db"
    | E1 x E2 where "checkout_tx P u e (E1, db) = (Inr x, E2, db')" "now E1 = now E" by blast
  then show ?thesis
  proof cases
    case 1
    show ?thesis
    proof (cases r)
      case (Inl er)
      with 1 show ?thesis by simp
    next
      case (Inr x)
      with a have "transaction (Fmt ''beginning checkout of %q'' [ArgStr u])
          (Fmt ''committing checkout of %q'' [ArgStr u]) (checkout_tx P u e) (E, db) = (Inr x, E', db')"
        by simp
      from transaction_Inr [OF this] obtain E1 E2 where
        "checkout_tx P u e (E1, db) = (Inr x, E2, db')" "now E1 = now E" by blast
      with checkout_tx_Inr [of P u e E1 db x E2 db'] show ?thesis by simp
    qed
  next
    case 2
    from checkout_tx_Inr [OF 2(1)] 2(2) show ?thesis by simp
  qed
qed

lemma recorded_stored [simp]:
  "pg_stored T (recorded P t e db) = pg_stored T db" "Baskets (recorded P t e db) = Baskets db"
  by (simp_all add: recorded_def record_stmt_def pg_stored_removed)

lemma pg_carts_steady:
  "steady (pg_GetByUserName P T u)" "steady (pg_Store P T c)" "steady (pg_DeleteCart P u)"
  "steady (pg_Checkout P u e)"
  unfolding pg_GetByUserName_def pg_Store_def pg_DeleteCart_def pg_Checkout_def checkout_tx_def
    recordCheckout_def
  by (intro steady_intro | simp split: option.split if_split | rule conjI impI allI)+

lemma pg_stored_None: "Baskets db u = None \<Longrightarrow> pg_stored T db u = None"
  by (simp add: pg_stored_def)

text \<open>The tables satisfy the contract as soon as what they hold can be decoded.\<close>

interpretation pg: cart_laws "pg_carts P T" "pg_stored T" "pg_storable P T" T for P T
proof (unfold_locales, goal_cases)
  case (1 u E s r0 E' s')
  then show ?case using pg_get_run by (auto simp: pg_carts_def)
next
  case (2 s0 u0 c0)
  then show ?case by (auto simp: pg_stored_def split: option.splits sum.splits)
next
  case (3 c E s r E' s')
  then show ?case using pg_store_run by (simp add: pg_carts_def) blast
next
  case (4 u E s r2 E' s')
  then show ?case using pg_delete_run pg_stored_removed(1) by (simp add: pg_carts_def) metis
next
  case (5 u e E s r3 E' s')
  then have "pg_Checkout P u e (E, s) = (r3, E', s')" by (simp add: pg_carts_def)
  from pg_checkout_run [OF this] show ?case by (auto simp: pg_stored_removed)
next
  case (6 c)
  then show ?case by (intro read_entry_stored) (auto simp: pg_storable_def)
qed (simp_all add: pg_carts_def pg_carts_steady)


end
