(* ===== verification/Basket_Properties.thy ===== *)
theory Basket_Properties
  imports Basket_Facts
begin

text \<open>
  The properties of the Basket service over its tables and its cache: what a read answers, what a
  stored basket costs, and that a checkout happens completely or not at all.
\<close>

section \<open>Reads\<close>

definition basket_empty :: "basket_db cached" where
  "basket_empty = \<lparr>cd_Inner = basket_db_empty, cd_Cache = Map.empty\<rparr>"

lemma basket_empty_ok [simp]:
  "agrees T stored basket_empty u" "all_storable st (pg_stored T) (cd_Inner basket_empty)"
  by (simp_all add: agrees_def all_storable_def basket_empty_def basket_db_empty_def pg_stored_def)

text \<open>Asked when it answers, the repository on the tables gives what they hold.\<close>

lemma pg_get_answers:
  assumes "pg_stored T db u = Some c" "outcomes E = []" "pg_text P u"
  shows "pg_GetByUserName P T u (E, db) = (Inr c, E, db)"
  using assms
  by (auto simp: pg_GetByUserName_def pg_stmt_def call_ok andthen_def on_err_def of_res_def ret_def
      pg_stored_def split: option.splits sum.splits)

text \<open>
  C16. Whatever requests have run, each with failures of its own, a basket read through the cache is
  the one the repository underneath would answer, as long as every earlier write for this user was
  answered; failed reads and failed writes for other users do not matter.
\<close>

theorem cached_reads_are_stored:
  assumes "run_ops (basket_repo ttl P T) ps basket_empty = (oks, s)"
    and "list_all (op_storable (pg_storable P T)) ps"
    and "list_all (\<lambda>((E, p), ok). writes p u \<longrightarrow> ok) (zip ps oks)"
    and "GetBasket (basket_repo ttl P T) u (E, s) = (Inr c, E1, s1)"
    and "pg_text P u" "outcomes E2 = []"
  shows "pg_GetByUserName P T u (E2, cd_Inner s) = (Inr c, E2, cd_Inner s) \<and> cd_Inner s1 = cd_Inner s"
proof -
  have a: "agrees T (pg_stored T) s u \<and> all_storable (pg_storable P T) (pg_stored T) (cd_Inner s)"
    by (rule pg.cached_ops [OF assms(1) [unfolded basket_repo_def] _ assms(2) _ assms(3)]) simp_all
  from assms(4) have "cached_GetByUserName ttl T (pg_carts P T) u (E, s) = (Inr c, E1, s1)"
    by (simp add: GetBasket_def basket_repo_def cached_carts_def)
  from pg.cached_get_run [OF this] a pg_get_answers [of T "cd_Inner s" u c E2 P] assms(5,6)
  show ?thesis by auto
qed

section \<open>A concrete service\<close>

definition sample_item :: cart_item where
  "sample_item =
     \<lparr>ci_Quantity = 2, ci_Color = ''Red'', ci_Price = 500, ci_ProductID = 3, ci_ProductName = ''iPhone X''\<rparr>"

definition sample_cart :: cart where
  "sample_cart = \<lparr>sc_UserName = ''swn'', sc_Items = [sample_item], sc_Version = uuid_nil\<rparr>"

lemma sample_text [simp]: "utf8_ok ''swn''" "utf8_ok ''Red''" "utf8_ok ''iPhone X''" "utf8_ok ''''"
  by (rule utf8_ok_ascii, simp add: ascii_def byte_in_def)+

lemma encodable_sample: "encodable sample_cart"
  using is_decimal_int [of 500]
  by (simp add: encodable_def sample_cart_def sample_item_def encodable_item_def int64_def)

lemma storable_sample: "v \<noteq> uuid_nil \<Longrightarrow> pg_storable sample_pg sample_texts (sample_cart\<lparr>sc_Version := v\<rparr>)"
  using encodable_sample
  by (simp add: pg_storable_def sample_pg_ok sample_texts_ok encodable_def)

lemma sample_rnd: "rnd sample_env (drawn sample_env) = 100" "now sample_env = 1000"
  by (simp_all add: sample_env_def)

definition sample_stored :: cart where
  "sample_stored = sample_cart\<lparr>sc_Version := 100\<rparr>"

definition sample_basket_db :: basket_db where
  "sample_basket_db =
     basket_db_empty\<lparr>Baskets := [''swn'' \<mapsto>
        \<lparr>bk_Items = cart_items_json sample_texts [sample_item], bk_Version = 100, bk_UpdatedAt = 1000\<rparr>]\<rparr>"

definition sample_basket_state :: "basket_db cached" where
  "sample_basket_state =
     \<lparr>cd_Inner = sample_basket_db,
      cd_Cache = [cache_key ''swn'' \<mapsto>
        (JsonText (stored_cart_json sample_texts sample_stored), 1000 + DefaultTTL)]\<rparr>"

lemma sample_items_decode [simp]:
  "decode_cart_items sample_texts (cart_items_json sample_texts [sample_item]) old = Inr [sample_item]"
  using encodable_sample by (intro decode_items) (auto simp: encodable_def sample_cart_def sample_texts_ok)

lemma sample_basket_stored: "pg_stored sample_texts sample_basket_db ''swn'' = Some sample_stored"
  by (simp add: pg_stored_def sample_basket_db_def sample_stored_def sample_cart_def)

text \<open>Writes when everything answers.\<close>

lemma sample_write:
  "cached_Store DefaultTTL sample_texts (pg_carts sample_pg sample_texts) sample_cart (sample_env, basket_empty)
    = (Inr (), sample_env\<lparr>drawn := 1\<rparr>, sample_basket_state)"
  by (simp add: cached_Store_def andthen_def new_uuid_def Let_def on_inner_def zoom_def pg_carts_def
      pg_Store_def on_err_def pg_stmt_def call_ok store_stmt_def sample_pg_def sample_cart_def
      cache_set_def update_ok basket_empty_def sample_basket_state_def sample_basket_db_def ret_def
      sample_stored_def sample_env_def cache_ttl_def DefaultTTL_def basket_db_empty_def)

lemma sample_read:
  "cached_GetByUserName DefaultTTL sample_texts (pg_carts sample_pg sample_texts) ''swn''
     (sample_env, sample_basket_state) = (Inr sample_stored, sample_env, sample_basket_state)"
proof -
  have "read_entry sample_texts (JsonText (stored_cart_json sample_texts sample_stored)) = Some sample_stored"
    using storable_sample [of 100]
    by (intro read_entry_stored) (auto simp: pg_storable_def sample_stored_def)
  then show ?thesis
    by (simp add: cached_GetByUserName_eq andthen_def attempt_def cache_get_def call_ok live_entry_def
        sample_basket_state_def ret_def DefaultTTL_def sample_env_def)
qed

theorem cached_reads_are_stored_witness:
  "pg_GetByUserName sample_pg sample_texts ''swn'' (sample_env, sample_basket_db)
     = (Inr sample_stored, sample_env, sample_basket_db)"
proof -
  have 1: "run_ops (basket_repo DefaultTTL sample_pg sample_texts) [(sample_env, WriteCart sample_cart)] basket_empty
      = ([True], sample_basket_state)"
    using sample_write by (simp add: basket_repo_def cached_carts_def answered_def)
  have 2: "GetBasket (basket_repo DefaultTTL sample_pg sample_texts) ''swn'' (sample_env, sample_basket_state)
      = (Inr sample_stored, sample_env, sample_basket_state)"
    using sample_read by (simp add: GetBasket_def basket_repo_def cached_carts_def)
  have "pg_text sample_pg ''swn''" by (simp add: sample_pg_def)
  with cached_reads_are_stored [OF 1 _ _ 2, of sample_env] storable_sample [of 100]
  show ?thesis by (simp add: sample_rnd sample_basket_state_def)
qed


section \<open>Storing a basket\<close>

text \<open>
  What is relied on of the Discount service: a lookup that answers gives the coupon of the product,
  and looking up leaves the baskets and the random ids alone.
\<close>

definition lookup_answers :: "'s discount_lookup \<Rightarrow> (string \<Rightarrow> 32 word) \<Rightarrow> bool" where
  "lookup_answers amountFor amounts \<longleftrightarrow>
     (\<forall>n E s r E' s'. amountFor n (E, s) = (r, E', s') \<longrightarrow>
        s' = s \<and> rnd E' = rnd E \<and> drawn E' = drawn E \<and> (\<forall>a. r = Inr a \<longrightarrow> a = amounts n))"

definition discounted :: "(string \<Rightarrow> 32 word) \<Rightarrow> cart_item \<Rightarrow> cart_item" where
  "discounted amounts i = i\<lparr>ci_Price := max 0 (ci_Price i - of_int (sint (amounts (ci_ProductName i))))\<rparr>"

lemma lookup_answersD:
  "lookup_answers amountFor amounts \<Longrightarrow> amountFor n (E, s) = (Inr a, E', s') \<Longrightarrow>
     s' = s \<and> rnd E' = rnd E \<and> drawn E' = drawn E \<and> a = amounts n"
  unfolding lookup_answers_def by blast

lemma discounted_price_max: "discounted_price p a = max 0 (p - of_int (sint a))"
  by (simp add: discounted_price_def max_def)

lemma discount_lines_run:
  assumes "lookup_answers amountFor amounts" "discount_lines amountFor its (E, s) = (Inr its', E', s')"
  shows "its' = map (discounted amounts) its \<and> s' = s \<and> rnd E' = rnd E \<and> drawn E' = drawn E"
  using assms(2)
proof (induction its arbitrary: E s its' E' s')
  case Nil
  then show ?case by simp
next
  case (Cons i its)
  from Cons.prems obtain a E1 s1 rest where
    1: "amountFor (ci_ProductName i) (E, s) = (Inr a, E1, s1)" and
    2: "discount_lines amountFor its (E1, s1) = (Inr rest, E', s')" and
    3: "its' = i\<lparr>ci_Price := discounted_price (ci_Price i) a\<rparr> # rest"
    by (auto simp: andthen_Inr)
  from lookup_answersD [OF assms(1) 1] Cons.IH [OF 2] 3 show ?case
    by (simp add: discounted_def discounted_price_max)
qed

lemma encodable_discounted: "encodable_item i \<Longrightarrow> encodable_item (discounted amounts i)"
  using is_decimal_diff_int [of "ci_Price i" "sint (amounts (ci_ProductName i))"] is_decimal_int [of 0]
  by (auto simp: encodable_item_def discounted_def max_def)

text \<open>A stored basket is in the tables, and the cache agrees.\<close>

lemma StoreBasket_run:
  assumes "lookup_answers amountFor amounts" "postgres_ok P" "texts_ok T" "encodable c"
    and "rnd E (drawn E) \<noteq> uuid_nil"
    and "StoreBasket (basket_repo ttl P T) amountFor c (E, s) = (Inr u, E1, s1)"
  shows "u = sc_UserName c \<and> agrees T (pg_stored T) s1 u \<and> pg_stored T (cd_Inner s1) u =
    Some \<lparr>sc_UserName = u, sc_Items = map (discounted amounts) (sc_Items c), sc_Version = rnd E (drawn E)\<rparr>"
proof -
  from assms(6) obtain its E' s' x where
    d: "discount_lines amountFor (sc_Items c) (E, s) = (Inr its, E', s')" and
    st: "cached_Store ttl T (pg_carts P T) (c\<lparr>sc_Items := its\<rparr>) (E', s') = (Inr x, E1, s1)" and
    u: "u = sc_UserName c"
    by (auto simp: StoreBasket_def applyDiscounts_def andthen_Inr basket_repo_def cached_carts_def)
  let ?c = "c\<lparr>sc_Items := its\<rparr>"
  from discount_lines_run [OF assms(1) d] have i: "its = map (discounted amounts) (sc_Items c)"
    and e: "s' = s" "rnd E' = rnd E" "drawn E' = drawn E" by auto
  have "pg_storable P T (?c\<lparr>sc_Version := rnd E' (drawn E')\<rparr>)"
    using assms(2-5) e encodable_discounted
    by (auto simp: pg_storable_def encodable_def i list_all_iff)
  from pg.cached_store_run [OF st this] e u i show ?thesis by auto
qed

lemma GetBasket_answer:
  assumes "GetBasket (basket_repo ttl P T) u (E, s) = (Inr b, E', s')" "agrees T (pg_stored T) s u"
  shows "pg_stored T (cd_Inner s) u = Some b"
  using assms pg.cached_get_answer [of ttl T P u E s b E' s']
  by (simp add: GetBasket_def basket_repo_def cached_carts_def)

lemma store_then_read:
  assumes "lookup_answers amountFor amounts" "postgres_ok P" "texts_ok T" "encodable c"
    and "rnd E (drawn E) \<noteq> uuid_nil"
    and "StoreBasket (basket_repo ttl P T) amountFor c (E, s) = (Inr u, E1, s1)"
    and "GetBasket (basket_repo ttl P T) u (E2, s1) = (Inr b, E3, s2)"
  shows "u = sc_UserName c \<and>
    b = \<lparr>sc_UserName = u, sc_Items = map (discounted amounts) (sc_Items c), sc_Version = rnd E (drawn E)\<rparr>"
proof -
  note st = StoreBasket_run [OF assms(1-6)]
  from st have "agrees T (pg_stored T) s1 u" by blast
  from GetBasket_answer [OF assms(7) this] st show ?thesis by auto
qed

text \<open>
  C17. A basket that was stored is the basket that is read back, by the same user, whatever failed
  before: each line with its price lowered by the product's coupon, down to zero at most, everything
  else as it was sent, and under the fresh version drawn for this write.
\<close>

theorem stored_basket_is_read_back:
  assumes "lookup_answers amountFor amounts" "postgres_ok P" "texts_ok T" "encodable c"
    and "rnd E (drawn E) \<noteq> uuid_nil"
    and "StoreBasket (basket_repo ttl P T) amountFor c (E, s) = (Inr u, E1, s1)"
    and "GetBasket (basket_repo ttl P T) u (E2, s1) = (Inr b, E3, s2)"
  shows "u = sc_UserName c \<and>
    b = \<lparr>sc_UserName = u, sc_Items = map (discounted amounts) (sc_Items c), sc_Version = rnd E (drawn E)\<rparr>"
  using store_then_read [OF assms] .

text \<open>
  The storefront adds a product by reading the basket and storing it again with one more line.
  Every line that was there then has its coupon subtracted a second time: a basket read and stored
  again unchanged gets cheaper as long as a coupon is positive and the price is.
\<close>

theorem storing_again_discounts_again:
  assumes "lookup_answers amountFor amounts" "postgres_ok P" "texts_ok T" "encodable c"
    and "rnd E (drawn E) \<noteq> uuid_nil" "rnd E4 (drawn E4) \<noteq> uuid_nil"
    and "StoreBasket (basket_repo ttl P T) amountFor c (E, s) = (Inr u, E1, s1)"
    and "GetBasket (basket_repo ttl P T) u (E2, s1) = (Inr b, E3, s2)"
    and "StoreBasket (basket_repo ttl P T) amountFor b (E4, s2) = (Inr u, E5, s3)"
    and "GetBasket (basket_repo ttl P T) u (E6, s3) = (Inr b2, E7, s4)"
    and "i \<in> set (sc_Items c)" "0 < sint (amounts (ci_ProductName i))"
      "of_int (sint (amounts (ci_ProductName i))) < ci_Price i"
  shows "\<exists>k. ci_Price (sc_Items b2 ! k) < ci_Price (sc_Items b ! k) \<and> k < length (sc_Items b)"
proof -
  have b: "sc_Items b = map (discounted amounts) (sc_Items c)" "sc_UserName b = sc_UserName c"
    using store_then_read [OF assms(1-5,7,8)] by simp_all
  have "encodable b"
    using b assms(4) encodable_discounted by (auto simp: encodable_def list_all_iff)
  from store_then_read [OF assms(1-3) this assms(6,9,10)]
  have b2: "sc_Items b2 = map (discounted amounts) (sc_Items b)" by simp
  from assms(11) obtain k where k: "k < length (sc_Items c)" "sc_Items c ! k = i"
    by (auto simp: in_set_conv_nth)
  have "(0 :: rat) < of_int (sint (amounts (ci_ProductName i)))"
    using assms(12) by (simp only: of_int_0_less_iff)
  then have "ci_Price (discounted amounts (discounted amounts i)) < ci_Price (discounted amounts i)"
    using assms(13) by (simp add: discounted_def)
  with k b b2 show ?thesis by (intro exI [of _ k]) simp
qed

definition no_coupons :: "basket_db cached discount_lookup" where
  "no_coupons n = query (\<lambda>s. 150)"

lemma no_coupons_answer: "lookup_answers no_coupons (\<lambda>n. 150)"
  by (auto simp: lookup_answers_def no_coupons_def query_def call_def next_outcome_def
      split: prod.splits outcome.splits list.splits)

text \<open>Storing and reading one line of some price, from any state, when everything answers.\<close>

definition priced :: "decimal \<Rightarrow> uuid \<Rightarrow> cart" where
  "priced p v = sample_cart\<lparr>sc_Items := [sample_item\<lparr>ci_Price := p\<rparr>], sc_Version := v\<rparr>"

definition after_store :: "decimal \<Rightarrow> env \<Rightarrow> basket_db cached \<Rightarrow> basket_db cached" where
  "after_store p E s =
     \<lparr>cd_Inner = (cd_Inner s)\<lparr>Baskets := (Baskets (cd_Inner s))(''swn'' \<mapsto>
         \<lparr>bk_Items = cart_items_json sample_texts (sc_Items (priced p 0)), bk_Version = rnd E (drawn E),
          bk_UpdatedAt = now E\<rparr>)\<rparr>,
      cd_Cache = (cd_Cache s)(cache_key ''swn'' \<mapsto>
         (JsonText (stored_cart_json sample_texts (priced p (rnd E (drawn E)))), now E + DefaultTTL))\<rparr>"

lemma sample_StoreBasket:
  assumes "outcomes E = []" "rnd E (drawn E) \<noteq> uuid_nil"
  shows "StoreBasket (basket_repo DefaultTTL sample_pg sample_texts) no_coupons (priced p v) (E, s)
    = (Inr ''swn'', E\<lparr>drawn := Suc (drawn E)\<rparr>, after_store (discounted_price p 150) E s)"
  using assms
  by (simp add: StoreBasket_def applyDiscounts_def andthen_def no_coupons_def query_ok ret_def
      basket_repo_def cached_carts_def cached_Store_def new_uuid_def Let_def on_inner_def zoom_def pg_carts_def
      pg_Store_def on_err_def pg_stmt_def call_ok store_stmt_def sample_pg_def priced_def sample_cart_def
      sample_item_def cache_set_def update_ok cache_ttl_def DefaultTTL_def after_store_def)

lemma encodable_priced: "is_decimal p \<Longrightarrow> encodable (priced p v)"
  by (simp add: encodable_def priced_def sample_cart_def encodable_item_def sample_item_def int64_def)

lemma sample_GetBasket:
  assumes "is_decimal p"
  shows "GetBasket (basket_repo DefaultTTL sample_pg sample_texts) ''swn'' (sample_env, after_store p sample_env s)
    = (Inr (priced p 100), sample_env, after_store p sample_env s)"
proof -
  have "read_entry sample_texts (JsonText (stored_cart_json sample_texts (priced p 100))) = Some (priced p 100)"
    using encodable_priced [OF assms] by (intro read_entry_stored) (auto simp: sample_texts_ok priced_def)
  then show ?thesis
    by (simp add: GetBasket_def basket_repo_def cached_carts_def cached_GetByUserName_eq andthen_def
        attempt_def cache_get_def call_ok live_entry_def ret_def DefaultTTL_def sample_env_def after_store_def)
qed

theorem stored_basket_is_read_back_witness:
  "map ci_Price (sc_Items (priced 350 100)) = [350] \<and>
   priced 350 100 = \<lparr>sc_UserName = ''swn'', sc_Items = map (discounted (\<lambda>n. 150)) (sc_Items (priced 500 0)),
      sc_Version = 100\<rparr>"
proof -
  have r: "rnd sample_env (drawn sample_env) \<noteq> 0" by (simp add: sample_rnd)
  note s = sample_StoreBasket [of sample_env 500 0 basket_empty, OF sample_env_ok r]
  have d: "discounted_price 500 150 = 350" by (simp add: discounted_price_def)
  have g: "GetBasket (basket_repo DefaultTTL sample_pg sample_texts) ''swn'' (sample_env, after_store 350 sample_env basket_empty)
      = (Inr (priced 350 100), sample_env, after_store 350 sample_env basket_empty)"
    using sample_GetBasket is_decimal_int [of 350] by simp
  have "encodable (priced 500 0)" using encodable_priced is_decimal_int [of 500] by simp
  from stored_basket_is_read_back [OF no_coupons_answer sample_pg_ok sample_texts_ok this _ s [unfolded d] g]
  have w: "priced 350 100 = \<lparr>sc_UserName = ''swn'', sc_Items = map (discounted (\<lambda>n. 150)) (sc_Items (priced 500 0)),
      sc_Version = 100\<rparr>" by (simp add: sample_rnd)
  show ?thesis by (rule conjI [OF _ w]) (simp add: priced_def)
qed

theorem storing_again_discounts_again_witness:
  "\<exists>k. ci_Price (sc_Items (priced 200 100) ! k) < ci_Price (sc_Items (priced 350 100) ! k)
    \<and> k < length (sc_Items (priced 350 100))"
proof -
  have d: "discounted_price 500 150 = 350" "discounted_price 350 150 = 200" by (simp_all add: discounted_price_def)
  have r: "rnd sample_env (drawn sample_env) \<noteq> 0" by (simp add: sample_rnd)
  note s1 = sample_StoreBasket [of sample_env 500 0 basket_empty, OF sample_env_ok r, unfolded d]
  note s2 = sample_StoreBasket [of sample_env 350 100 "after_store 350 sample_env basket_empty", OF sample_env_ok r, unfolded d]
  have n: "is_decimal 500" "is_decimal 350" "is_decimal 200"
    using is_decimal_int [of 500] is_decimal_int [of 350] is_decimal_int [of 200] by simp_all
  note g1 = sample_GetBasket [OF n(2), of basket_empty]
  note g2 = sample_GetBasket [OF n(3), of "after_store 350 sample_env basket_empty"]
  have i: "sample_item \<in> set (sc_Items (priced 500 0))" by (simp add: priced_def sample_item_def)
  show ?thesis
    by (rule storing_again_discounts_again [OF no_coupons_answer sample_pg_ok sample_texts_ok
          encodable_priced [OF n(1)] r r s1 g1 s2 g2 i]) (simp_all add: sample_item_def)
qed

section \<open>Checking out\<close>

text \<open>The message a checkout of the basket \<open>b\<close> at the time \<open>t\<close> announces.\<close>

definition announcement ::
  "(string \<Rightarrow> uuid) \<Rightarrow> texts \<Rightarrow> string \<Rightarrow> time \<Rightarrow> checkout_command \<Rightarrow> cart \<Rightarrow> envelope" where
  "announcement sha1 T corr t c b =
     (let i = CheckoutID sha1 T (cc_UserName c) (sc_Version b) in
      \<lparr>env_ID = i, env_Contract = checkout_contract, env_AggregateID = cc_UserName c,
       env_CorrelationID = corr, env_OccurredOnUTC = t,
       env_Payload = Marshal T (CheckoutSubmitted (checkoutEvent
          \<lparr>hdr_ID = i, hdr_OccurredOnUTC = t, hdr_CorrelationID = corr\<rparr> c b))\<rparr>)"

lemma NewEnvelope_announcement:
  "NewEnvelope T (CheckoutSubmitted (checkoutEvent
      ((NewHeader v t corr)\<lparr>hdr_ID := CheckoutID sha1 T (cc_UserName c) (sc_Version b)\<rparr>) c b)) (cc_UserName c)
    = (if cc_UserName c = ''''
       then Inl (Plain (contract_msg ''integration event '' checkout_contract '' has no aggregate id''))
       else if CheckoutID sha1 T (cc_UserName c) (sc_Version b) = uuid_nil
       then Inl (Plain (contract_msg ''integration event '' checkout_contract '' has no id''))
       else Inr (announcement sha1 T corr t c b))"
  by (simp add: NewEnvelope_def announcement_def NewHeader_def checkoutEvent_def Let_def)

lemma steady_cached_get:
  "steady (cached_GetByUserName ttl T (pg_carts P T) u)"
  unfolding cached_GetByUserName_eq read_through_eq cache_get_def cache_set_def on_inner_def
  by (intro steady_intro | simp add: pg_carts_def pg_carts_steady split: sum.split option.split
      | rule conjI impI allI)+

text \<open>A read leaves the tables alone, whatever the cache holds.\<close>

lemma cached_get_inner:
  assumes "cached_GetByUserName ttl T (pg_carts P T) u (E, s) = (r, E', s')"
  shows "cd_Inner s' = cd_Inner s"
proof -
  let ?same = "\<lambda>x. cd_Inner x = cd_Inner s"
  have g: "keeps ?same (on_inner (repo_GetByUserName (pg_carts P T) u))"
    by (rule keepsI) (auto simp: on_inner_run pg_carts_def dest: pg_get_run)
  have c: "keeps ?same (cache_get u)" "keeps ?same (cache_set ttl T b)" for b
    by (auto simp: keeps_def dest: cache_get_run cache_set_run)
  have "keeps ?same (read_through ttl T (pg_carts P T) u)"
    unfolding read_through_eq by (intro wf_intro g c)
  then have "keeps ?same (cached_GetByUserName ttl T (pg_carts P T) u)"
    unfolding cached_GetByUserName_eq by (auto intro!: wf_intro c split: sum.split option.split)
  from keepsD [OF this assms] show ?thesis by simp
qed

lemma CheckoutBasket_run:
  assumes "CheckoutBasket sha1 T (basket_repo ttl P T) corr c (E, s) = (r, E', s')"
  shows "cd_Inner s' = cd_Inner s \<and> (\<forall>x. r \<noteq> Inr x) \<or>
    (\<exists>b E1 s1. cached_GetByUserName ttl T (pg_carts P T) (cc_UserName c) (E, s) = (Inr b, E1, s1) \<and>
       sc_Items b \<noteq> [] \<and> sc_Version b \<noteq> uuid_nil \<and> cc_UserName c \<noteq> [] \<and>
       CheckoutID sha1 T (cc_UserName c) (sc_Version b) \<noteq> uuid_nil \<and> Baskets (cd_Inner s) (cc_UserName c) \<noteq> None \<and>
       cd_Inner s' = recorded P (now E) (announcement sha1 T corr (now E) c b)
         ((cd_Inner s)\<lparr>Baskets := (Baskets (cd_Inner s))(cc_UserName c := None)\<rparr>))"
proof -
  let ?u = "cc_UserName c"
  obtain r1 E1 s1 where 1: "cached_GetByUserName ttl T (pg_carts P T) ?u (E, s) = (r1, E1, s1)"
    by (cases "cached_GetByUserName ttl T (pg_carts P T) ?u (E, s)") auto
  have s1: "cd_Inner s1 = cd_Inner s" by (rule cached_get_inner [OF 1])
  from steadyD [OF steady_cached_get 1] have t: "now E1 = now E" by simp
  note d = CheckoutBasket_def basket_repo_def cached_carts_def andthen_def new_uuid_def time_now_def
    NewEnvelope_announcement of_res_def ret_def Let_def
  let ?E = "E1\<lparr>drawn := Suc (drawn E1)\<rparr>"
  consider (early) "s' = s1" "\<forall>x. r \<noteq> Inr x"
    | (late) b r2 where "r1 = Inr b" "sc_Items b \<noteq> [] \<and> sc_Version b \<noteq> uuid_nil \<and> ?u \<noteq> [] \<and>
        CheckoutID sha1 T ?u (sc_Version b) \<noteq> uuid_nil"
      "cached_Checkout (pg_carts P T) ?u (announcement sha1 T corr (now E) c b) (?E, s1) = (r2, E', s')"
      "\<forall>x. r = Inr x \<longrightarrow> r2 = Inr ()"
  proof (cases r1)
    case (Inl e)
    with assms(1) 1 show ?thesis by (intro early) (auto simp: d)
  next
    case (Inr b)
    let ?bad = "sc_Items b = [] \<or> sc_Version b = uuid_nil \<or> ?u = '''' \<or>
      CheckoutID sha1 T ?u (sc_Version b) = uuid_nil"
    show ?thesis
    proof (cases ?bad)
      case True
      with assms(1) 1 Inr show ?thesis by (intro early) (auto simp: d fail_def split: if_splits)
    next
      case False
      obtain r2 E2 s2 where
        2: "cached_Checkout (pg_carts P T) ?u (announcement sha1 T corr (now E) c b) (?E, s1) = (r2, E2, s2)"
        by (cases "cached_Checkout (pg_carts P T) ?u (announcement sha1 T corr (now E) c b) (?E, s1)") auto
      with assms(1) 1 Inr False t have "E2 = E'" "s2 = s'" "\<forall>x. r = Inr x \<longrightarrow> r2 = Inr ()"
        by (cases r2; auto simp: d)+
      with 2 Inr False show ?thesis by (intro late) auto
    qed
  qed
  then show ?thesis
  proof cases
    case early
    with s1 show ?thesis by auto
  next
    case late
    let ?e = "announcement sha1 T corr (now E) c b"
    obtain r3 E3 t3 where 3: "pg_Checkout P ?u ?e (?E, cd_Inner s1) = (r3, E3, t3)"
      by (cases "pg_Checkout P ?u ?e (?E, cd_Inner s1)") auto
    have "on_inner (repo_Checkout (pg_carts P T) ?u ?e) (?E, s1) = (r3, E3, s1\<lparr>cd_Inner := t3\<rparr>)"
      using 3 by (simp add: on_inner_run pg_carts_def)
    with late(3) have "cd_Inner s' = t3" "r2 = Inr () \<Longrightarrow> r3 = Inr ()"
      by (auto simp: cached_Checkout_def andthen_def on_err_def dest!: cache_del_run
          split: sum.splits prod.splits)
    with pg_checkout_run [OF 3] late s1 t 1 show ?thesis by auto
  qed
qed

text \<open>
  C15. A checkout happens completely or not at all, from any tables, with anything in the cache, and whatever fails in
  it: nothing in the tables changes and the caller is not told it succeeded, or the basket that was there is
  removed and, unless one with its id is there already, one row is added to the outbox, whose id is derived
  from the user and the version of the basket that the checkout read and whose payload is the event of exactly
  that basket. Where every write for the user was answered since the tables were empty, the basket it read is
  the one in the tables. Nothing else runs between the read and the transaction here.
\<close>

theorem checkout_all_or_nothing:
  assumes "CheckoutBasket sha1 T (basket_repo ttl P T) corr c (E, s) = (r, E', s')"
  shows "cd_Inner s' = cd_Inner s \<and> (\<forall>x. r \<noteq> Inr x) \<or>
    (\<exists>b row E1 s1. GetBasket (basket_repo ttl P T) (cc_UserName c) (E, s) = (Inr b, E1, s1) \<and> sc_Items b \<noteq> [] \<and>
       Baskets (cd_Inner s) (cc_UserName c) \<noteq> None \<and>
       Baskets (cd_Inner s') = (Baskets (cd_Inner s))(cc_UserName c := None) \<and>
       BasketOutbox (cd_Inner s') = BasketOutbox (cd_Inner s)
         @ (if list_ex (\<lambda>r. bo_Id r = bo_Id row) (BasketOutbox (cd_Inner s)) then [] else [row]) \<and>
       bo_Id row = CheckoutID sha1 T (cc_UserName c) (sc_Version b) \<and>
       bo_EventType row = ''basket.checkout-submitted'' \<and> bo_AggregateId row = cc_UserName c \<and>
       bo_Payload row = Marshal T (CheckoutSubmitted (checkoutEvent
          \<lparr>hdr_ID = bo_Id row, hdr_OccurredOnUTC = now E, hdr_CorrelationID = corr\<rparr> c b)) \<and>
       (\<forall>ps oks. run_ops (basket_repo ttl P T) ps basket_empty = (oks, s) \<and>
          list_all (op_storable (pg_storable P T)) ps \<and>
          list_all (\<lambda>((E, p), ok). writes p (cc_UserName c) \<longrightarrow> ok) (zip ps oks) \<longrightarrow>
          pg_stored T (cd_Inner s) (cc_UserName c) = Some b))"
  using CheckoutBasket_run [OF assms]
proof (elim disjE exE conjE)
  fix b E1 s1
  let ?e = "announcement sha1 T corr (now E) c b"
  assume g: "cached_GetByUserName ttl T (pg_carts P T) (cc_UserName c) (E, s) = (Inr b, E1, s1)"
    and b: "sc_Items b \<noteq> []" "Baskets (cd_Inner s) (cc_UserName c) \<noteq> None"
    and s': "cd_Inner s' = recorded P (now E) ?e
      ((cd_Inner s)\<lparr>Baskets := (Baskets (cd_Inner s))(cc_UserName c := None)\<rparr>)"
  have "pg_stored T (cd_Inner s) (cc_UserName c) = Some b"
    if "run_ops (basket_repo ttl P T) ps basket_empty = (oks, s)" "list_all (op_storable (pg_storable P T)) ps"
      "list_all (\<lambda>((E, p), ok). writes p (cc_UserName c) \<longrightarrow> ok) (zip ps oks)" for ps oks
  proof -
    have "agrees T (pg_stored T) s (cc_UserName c) \<and> all_storable (pg_storable P T) (pg_stored T) (cd_Inner s)"
      by (rule pg.cached_ops [OF that(1) [unfolded basket_repo_def] _ that(2) _ that(3)]) simp_all
    with pg.cached_get_run [OF g] show ?thesis by blast
  qed
  moreover have "GetBasket (basket_repo ttl P T) (cc_UserName c) (E, s) = (Inr b, E1, s1)"
    using g by (simp add: GetBasket_def basket_repo_def cached_carts_def)
  ultimately show ?thesis using b s'
    by (intro disjI2 exI [of _ b] exI [of _ "checkout_row_of P (now E) ?e"] exI [of _ E1] exI [of _ s1])
      (simp add: recorded_def record_stmt_def checkout_row_of_def announcement_def Let_def checkout_contract_def, blast)
qed blast

text \<open>A checkout in which everything answers.\<close>

lemma pg_Checkout_ok:
  assumes "outcomes E = []" "Baskets db u \<noteq> None"
    and "list_all (pg_text P) [u, EventType (env_Contract e), env_AggregateID e, env_CorrelationID e]"
  shows "pg_Checkout P u e (E, db)
    = (Inr (), E, recorded P (now E) e (db\<lparr>Baskets := (Baskets db)(u := None)\<rparr>))"
proof -
  have "checkout_tx P u e (E, db) = (Inr (), E, recorded P (now E) e (db\<lparr>Baskets := (Baskets db)(u := None)\<rparr>))"
    using assms
    by (simp add: checkout_tx_def andthen_def on_err_def pg_stmt_def call_ok clear_stmt_def
        recordCheckout_def recorded_def record_stmt_def)
  then show ?thesis unfolding pg_Checkout_def by (rule transaction_ok [OF assms(1) _ assms(1)])
qed

lemma pg_Checkout_gone:
  assumes "outcomes E = []" "Baskets db u = None" "pg_text P u"
  shows "pg_Checkout P u e (E, db) = (Inl (NotFound ''Basket'' (ArgStr u)), E, db)"
proof -
  have "checkout_tx P u e (E, db) = (Inl (NotFound ''Basket'' (ArgStr u)), E, db\<lparr>Baskets := (Baskets db)(u := None)\<rparr>)"
    using assms by (simp add: checkout_tx_def andthen_def on_err_def pg_stmt_def call_ok clear_stmt_def fail_def)
  then show ?thesis unfolding pg_Checkout_def by (rule transaction_error_ok [OF assms(1)])
qed

lemma CheckoutBasket_ok:
  assumes "outcomes E = []"
    and "cached_GetByUserName ttl T (pg_carts P T) (cc_UserName c) (E, s0) = (Inr b, E, s)"
    and "sc_Items b \<noteq> []" "sc_Version b \<noteq> uuid_nil" "cc_UserName c \<noteq> ''''"
    and "CheckoutID sha1 T (cc_UserName c) (sc_Version b) \<noteq> uuid_nil"
    and "list_all (pg_text P) [''basket.checkout-submitted'', cc_UserName c, corr]"
    and "Baskets (cd_Inner s) (cc_UserName c) \<noteq> None"
  shows "CheckoutBasket sha1 T (basket_repo ttl P T) corr c (E, s0)
    = (Inr True, E\<lparr>drawn := Suc (drawn E)\<rparr>,
       \<lparr>cd_Inner = recorded P (now E) (announcement sha1 T corr (now E) c b)
          ((cd_Inner s)\<lparr>Baskets := (Baskets (cd_Inner s))(cc_UserName c := None)\<rparr>),
        cd_Cache = (cd_Cache s)(cache_key (cc_UserName c) := None)\<rparr>)"
proof -
  let ?E = "E\<lparr>drawn := Suc (drawn E)\<rparr>" and ?e = "announcement sha1 T corr (now E) c b"
  let ?db = "(cd_Inner s)\<lparr>Baskets := (Baskets (cd_Inner s))(cc_UserName c := None)\<rparr>"
  have o: "outcomes ?E = []" using assms(1) by simp
  have t: "EventType (env_Contract ?e) = ''basket.checkout-submitted''" "env_AggregateID ?e = cc_UserName c"
    "env_CorrelationID ?e = corr"
    by (simp_all add: announcement_def Let_def checkout_contract_def)
  have "pg_Checkout P (cc_UserName c) ?e (?E, cd_Inner s) = (Inr (), ?E, recorded P (now E) ?e ?db)"
    using pg_Checkout_ok [OF o assms(8), of P ?e] assms(7) t by simp
  then have "cached_Checkout (pg_carts P T) (cc_UserName c) ?e (?E, s) = (Inr (), ?E,
      \<lparr>cd_Inner = recorded P (now E) ?e ?db, cd_Cache = (cd_Cache s)(cache_key (cc_UserName c) := None)\<rparr>)"
    using o
    by (cases s) (simp add: cached_Checkout_def andthen_def on_inner_def zoom_def pg_carts_def on_err_def
        cache_del_def update_ok)
  with assms(2-6) show ?thesis
    by (simp add: CheckoutBasket_def basket_repo_def cached_carts_def andthen_def new_uuid_def
        time_now_def Let_def NewEnvelope_announcement of_res_def ret_def)
qed

definition sample_command :: checkout_command where
  "sample_command = checkout_command_zero\<lparr>cc_UserName := ''swn'', cc_CustomerID := 9\<rparr>"

lemma sample_command_name [simp]: "cc_UserName sample_command = ''swn''"
  by (simp add: sample_command_def)

lemma sample_contract_text: "list_all (pg_text sample_pg) [''basket.checkout-submitted'', ''swn'', '''']"
  by (simp add: sample_pg_def) (rule utf8_ok_ascii, simp add: ascii_def byte_in_def)

lemma sample_checkout:
  assumes "CheckoutID sha1 sample_texts ''swn'' 100 \<noteq> uuid_nil"
  shows "CheckoutBasket sha1 sample_texts (basket_repo DefaultTTL sample_pg sample_texts) '''' sample_command
     (sample_env, sample_basket_state)
    = (Inr True, sample_env\<lparr>drawn := 1\<rparr>,
       \<lparr>cd_Inner = recorded sample_pg 1000 (announcement sha1 sample_texts '''' 1000 sample_command sample_stored)
          basket_db_empty, cd_Cache = Map.empty\<rparr>)"
proof -
  have b: "sample_basket_db\<lparr>Baskets := (Baskets sample_basket_db)(''swn'' := None)\<rparr> = basket_db_empty"
    by (simp add: sample_basket_db_def basket_db_empty_def)
  show ?thesis
    using CheckoutBasket_ok [of sample_env DefaultTTL sample_texts sample_pg sample_command
        sample_basket_state sample_stored sample_basket_state sha1 "''''"] sample_read sample_contract_text assms b
    by (simp add: sample_stored_def sample_cart_def sample_basket_state_def sample_basket_db_def
        sample_env_def)
qed

theorem checkout_all_or_nothing_witness:
  "\<exists>E' s' row. CheckoutBasket (\<lambda>n. 7) sample_texts (basket_repo DefaultTTL sample_pg sample_texts) '''' sample_command
      (sample_env, sample_basket_state) = (Inr True, E', s') \<and>
     Baskets (cd_Inner s') ''swn'' = None \<and> BasketOutbox (cd_Inner s') = [row] \<and>
     bo_Id row = CheckoutID (\<lambda>n. 7) sample_texts ''swn'' 100 \<and>
     bo_Payload row = Marshal sample_texts (CheckoutSubmitted (checkoutEvent
        \<lparr>hdr_ID = bo_Id row, hdr_OccurredOnUTC = 1000, hdr_CorrelationID = ''''\<rparr> sample_command sample_stored))"
proof -
  have 1: "run_ops (basket_repo DefaultTTL sample_pg sample_texts) [(sample_env, WriteCart sample_cart)] basket_empty
      = ([True], sample_basket_state)"
    using sample_write by (simp add: basket_repo_def cached_carts_def answered_def)
  have i: "CheckoutID (\<lambda>n. 7) sample_texts ''swn'' 100 \<noteq> uuid_nil" by (simp add: CheckoutID_def)
  note run = sample_checkout [OF i]
  from checkout_all_or_nothing [OF run] obtain b row where
    w: "Baskets (cd_Inner (snd (snd (CheckoutBasket (\<lambda>n. 7) sample_texts (basket_repo DefaultTTL sample_pg sample_texts)
          '''' sample_command (sample_env, sample_basket_state))))) ''swn'' = None"
      "BasketOutbox (cd_Inner (snd (snd (CheckoutBasket (\<lambda>n. 7) sample_texts (basket_repo DefaultTTL sample_pg sample_texts)
          '''' sample_command (sample_env, sample_basket_state))))) = [row]"
      "bo_Id row = CheckoutID (\<lambda>n. 7) sample_texts ''swn'' (sc_Version b)"
      "bo_Payload row = Marshal sample_texts (CheckoutSubmitted (checkoutEvent
        \<lparr>hdr_ID = bo_Id row, hdr_OccurredOnUTC = 1000, hdr_CorrelationID = ''''\<rparr> sample_command b))"
    and st: "\<And>ps oks. run_ops (basket_repo DefaultTTL sample_pg sample_texts) ps basket_empty = (oks, sample_basket_state) \<Longrightarrow>
      list_all (op_storable (pg_storable sample_pg sample_texts)) ps \<Longrightarrow>
      list_all (\<lambda>((E, p), ok). writes p ''swn'' \<longrightarrow> ok) (zip ps oks) \<Longrightarrow>
      pg_stored sample_texts (cd_Inner sample_basket_state) ''swn'' = Some b"
    unfolding run by (auto simp: sample_rnd sample_basket_state_def sample_basket_db_def basket_db_empty_def)
  have "b = sample_stored"
    using st [OF 1] storable_sample [of 100] sample_basket_stored by (simp add: sample_rnd sample_basket_state_def)
  with w run show ?thesis by (simp add: sample_stored_def)
qed

section \<open>Two checkouts of one basket\<close>

fun stores_for :: "string \<Rightarrow> env \<times> cart_op \<Rightarrow> bool" where
  "stores_for u (E, WriteCart c) = (sc_UserName c = u)"
| "stores_for u (E, p) = False"

lemma answered_state: "answered (m w) = (ok, s') \<Longrightarrow> \<exists>r E'. m w = (r, E', s')"
  by (cases "m w") (auto simp: answered_def split: sum.splits)

lemma pg_store_other:
  assumes "pg_Store P T c (E, db) = (r, E', db')" "sc_UserName c \<noteq> u"
  shows "Baskets db' u = Baskets db u"
  using assms
  by (auto simp: pg_Store_def andthen_def on_err_def new_uuid_def ret_def store_stmt_def
      dest!: pg_stmt_run split: prod.splits sum.splits if_splits option.splits)

lemma pg_op_gone:
  assumes "run_op (pg_carts P T) p (E, db) = (ok, db')" "\<not> stores_for u (E, p)" "Baskets db u = None"
  shows "Baskets db' u = None"
proof (cases p)
  case (ReadCart v)
  with assms(1) obtain r E' where "pg_GetByUserName P T v (E, db) = (r, E', db')"
    by (auto simp: pg_carts_def dest!: answered_state)
  from pg_get_run [OF this] assms(3) show ?thesis by simp
next
  case (WriteCart c)
  with assms(1) obtain r E' where "pg_Store P T c (E, db) = (r, E', db')"
    by (auto simp: pg_carts_def dest!: answered_state)
  from pg_store_other [OF this] assms(2,3) WriteCart show ?thesis by simp
next
  case (RemoveCart v)
  with assms(1) obtain r E' where "pg_DeleteCart P v (E, db) = (r, E', db')"
    by (auto simp: pg_carts_def dest!: answered_state)
  from pg_delete_run [OF this] assms(3) show ?thesis by auto
next
  case (CheckoutCart v e)
  with assms(1) obtain r E' where "pg_Checkout P v e (E, db) = (r, E', db')"
    by (auto simp: pg_carts_def dest!: answered_state)
  from pg_checkout_run [OF this] assms(3) show ?thesis by auto
qed

lemma pg_ops_gone:
  "run_ops (pg_carts P T) ps db = (oks, db') \<Longrightarrow> \<not> list_ex (stores_for u) ps \<Longrightarrow> Baskets db u = None \<Longrightarrow>
     Baskets db' u = None"
proof (induction ps arbitrary: db oks)
  case Nil
  then show ?case by simp
next
  case (Cons q ps)
  obtain E p where q: "q = (E, p)" by (cases q)
  obtain ok s1 where 1: "run_op (pg_carts P T) p (E, db) = (ok, s1)"
    by (cases "run_op (pg_carts P T) p (E, db)") auto
  from pg_op_gone [OF 1] Cons.prems(2,3) q have "Baskets s1 u = None" by simp
  with Cons.IH [of s1] Cons.prems(1,2) q 1 show ?case by (auto split: prod.splits)
qed

text \<open>
  A basket is checked out once: after a checkout has succeeded, and as long as nobody stores a
  basket for the user again, another checkout that was already under way with a message of its own
  is answered with an error, not found if the database answers at all, and changes nothing.
\<close>

theorem racing_checkouts_record_once:
  assumes "pg_Checkout P u e (E, db) = (Inr x, E1, db1)"
    and "run_ops (pg_carts P T) ps db1 = (oks, db2)" "\<not> list_ex (stores_for u) ps"
    and "pg_Checkout P u e2 (E2, db2) = (r, E3, db3)"
  shows "db3 = db2 \<and> (\<exists>er. r = Inl er) \<and>
    (outcomes E2 = [] \<and> pg_text P u \<longrightarrow> r = Inl (NotFound ''Basket'' (ArgStr u)))"
proof -
  from pg_checkout_run [OF assms(1)] have "Baskets db1 u = None" by auto
  from pg_ops_gone [OF assms(2,3) this] have n: "Baskets db2 u = None" .
  with pg_checkout_run [OF assms(4)] have f: "db3 = db2" "\<forall>x. r \<noteq> Inr x" by auto
  have "r = Inl (NotFound ''Basket'' (ArgStr u))" if "outcomes E2 = []" "pg_text P u"
    using pg_Checkout_gone [OF that(1) n that(2), of e2] assms(4) by simp
  with f show ?thesis by (cases r) auto
qed

definition sample_announcement :: "string \<Rightarrow> envelope" where
  "sample_announcement corr = announcement (\<lambda>n. 7) sample_texts corr 1000 sample_command sample_stored"

theorem racing_checkouts_record_once_witness:
  "\<exists>E1 db1 E3. pg_Checkout sample_pg ''swn'' (sample_announcement '''') (sample_env, sample_basket_db) = (Inr (), E1, db1) \<and>
     pg_Checkout sample_pg ''swn'' (sample_announcement ''swn'') (sample_env, db1)
       = (Inl (NotFound ''Basket'' (ArgStr ''swn'')), E3, db1)"
proof -
  obtain db1 where 1: "pg_Checkout sample_pg ''swn'' (sample_announcement '''') (sample_env, sample_basket_db)
      = (Inr (), sample_env, db1)"
    using pg_Checkout_ok [of sample_env sample_basket_db "''swn''" sample_pg "sample_announcement ''''"]
      sample_contract_text
    by (auto simp: sample_announcement_def announcement_def Let_def checkout_contract_def sample_basket_db_def)
  have 2: "run_ops (pg_carts sample_pg sample_texts) [] db1 = ([], db1)" by simp
  obtain r E3 db3 where 3: "pg_Checkout sample_pg ''swn'' (sample_announcement ''swn'') (sample_env, db1) = (r, E3, db3)"
    by (cases "pg_Checkout sample_pg ''swn'' (sample_announcement ''swn'') (sample_env, db1)") auto
  from racing_checkouts_record_once [OF 1 2 _ 3] sample_contract_text
  have "db3 = db1" "r = Inl (NotFound ''Basket'' (ArgStr ''swn''))" by auto
  with 1 3 show ?thesis by blast
qed

section \<open>A read that is overtaken\<close>

lemma cache_get_miss:
  "outcomes E = [] \<Longrightarrow> live_entry (now E) s (cache_key u) = None \<Longrightarrow> cache_get u (E, s) = (Inr None, E, s)"
  by (simp add: cache_get_def call_ok)

lemma missed_read:
  assumes "outcomes E = []" "live_entry (now E) s (cache_key u) = None" "pg_text P u"
    and "pg_stored T (cd_Inner s) u = Some b"
  shows "cached_GetByUserName_amid others ttl T (pg_carts P T) u (E, s)
    = andthen (attempt others) (\<lambda>_. andthen (attempt (cache_set ttl T b)) (\<lambda>_. ret b)) (E, s)"
proof -
  have "on_inner (repo_GetByUserName (pg_carts P T) u) (E, s) = (Inr b, E, s)"
    using pg_get_answers [OF assms(4,1,3)] by (simp add: on_inner_run pg_carts_def)
  then show ?thesis
    by (simp add: cached_GetByUserName_amid_def attempt_eval cache_get_miss [OF assms(1,2)] read_through_amid_def andthen_eval)
qed

lemma live_read:
  assumes "outcomes E = []" "now E < e" "cd_Cache s (cache_key (sc_UserName b)) = Some (JsonText (stored_cart_json T b), e)"
    and "pg_storable P T b"
  shows "cached_GetByUserName ttl T (pg_carts P T) (sc_UserName b) (E, s) = (Inr b, E, s)"
proof -
  have "read_entry T (JsonText (stored_cart_json T b)) = Some b"
    using assms(4) by (intro read_entry_stored) (auto simp: pg_storable_def)
  with assms(1-3) show ?thesis
    by (simp add: cached_GetByUserName_eq andthen_def attempt_def cache_get_def call_ok live_entry_def ret_def)
qed

lemma StoreBasket_outbox:
  assumes "lookup_answers amountFor amounts" "StoreBasket (basket_repo ttl P T) amountFor c (E, s) = (r, E', s')"
  shows "BasketOutbox (cd_Inner s') = BasketOutbox (cd_Inner s)"
proof -
  let ?same = "\<lambda>x. BasketOutbox (cd_Inner x) = BasketOutbox (cd_Inner s)"
  have l: "keeps ?same (discount_lines amountFor its)" for its
  proof (induction its)
    case (Cons i its)
    have "keeps ?same (amountFor (ci_ProductName i))"
      using assms(1) unfolding keeps_def lookup_answers_def by metis
    with Cons show ?case by (auto intro!: wf_intro)
  qed (simp add: wf_intro)
  have "keeps (\<lambda>db. BasketOutbox db = BasketOutbox (cd_Inner s)) (pg_Store P T b)" for b
    unfolding pg_Store_def pg_stmt_def
    by (auto intro!: wf_intro simp: store_stmt_def split: option.split)
  then have o: "keeps ?same (on_inner (repo_Store (pg_carts P T) b))" for b
    unfolding on_inner_def pg_carts_def by (intro keeps_zoom) auto
  have c: "keeps ?same (cache_set ttl T b)" for b
    by (auto simp: keeps_def dest!: cache_set_run)
  have "keeps ?same (StoreBasket (basket_repo ttl P T) amountFor c)"
    unfolding StoreBasket_def applyDiscounts_def basket_repo_def cached_carts_def
    by (auto intro!: wf_intro l o c simp: cached_Store_def Let_def)
  from keepsD [OF this assms(2)] show ?thesis by simp
qed

lemma recorded_twice:
  assumes "BasketOutbox db' = BasketOutbox (recorded P t e db)" "env_ID e' = env_ID e"
  shows "BasketOutbox (recorded P t' e' db') = BasketOutbox db'"
  using assms
  by (auto simp: recorded_def record_stmt_def checkout_row_of_def list_ex_iff)

text \<open>
  C18. A basket can be lost. A user's basket is read and not found in the cache; before that read writes the cache,
  the user checks this basket out and stores a second one. Whatever the two baskets, the tables and the time, and
  though no call fails, the read then answers the first basket and puts it into the cache again, while the tables hold
  the second. The user's next checkout, if it comes while that entry lives, succeeds: it removes the second
  basket and announces nothing, because it announces the first basket under an id that is recorded already.
\<close>

theorem stale_read_loses_a_basket:
  assumes "lookup_answers amountFor amounts" "pg_storable P T first" "encodable second" "rnd E1 (drawn E1) \<noteq> uuid_nil"
    and "cc_UserName c = u" "cc_UserName c' = u" "sc_UserName second = u"
    and "pg_text P u" "pg_text P corr" "pg_text P ''basket.checkout-submitted''"
    and "pg_stored T (cd_Inner s) u = Some first" "live_entry (now E) s (cache_key u) = None"
    and "outcomes E = []" "outcomes E2 = []" "outcomes E4 = []" "now E4 < now E2 + cache_ttl ttl"
    and "CheckoutBasket sha1 T (basket_repo ttl P T) corr0 c (E, s) = (Inr True, E1, s1)"
    and "StoreBasket (basket_repo ttl P T) amountFor second (E1, s1) = (Inr v, E2, s2)"
    and "others = andthen (CheckoutBasket sha1 T (basket_repo ttl P T) corr0 c) (\<lambda>_.
      andthen (StoreBasket (basket_repo ttl P T) amountFor second) (\<lambda>_. ret ()))"
  shows "\<exists>E3 s3 E5 s4 b. cached_GetByUserName_amid others ttl T (pg_carts P T) u (E, s) = (Inr first, E3, s3) \<and>
    pg_stored T (cd_Inner s3) u = Some b \<and> sc_Items b = map (discounted amounts) (sc_Items second) \<and>
    CheckoutBasket sha1 T (basket_repo ttl P T) corr c' (E4, s3) = (Inr True, E5, s4) \<and>
    Baskets (cd_Inner s4) u = None \<and> BasketOutbox (cd_Inner s4) = BasketOutbox (cd_Inner s3)"
proof -
  have ok: "postgres_ok P" "texts_ok T" "sc_Version first \<noteq> uuid_nil" using assms(2) by (auto simp: pg_storable_def)
  have name: "sc_UserName first = u" using assms(11) by (auto simp: pg_stored_def split: option.splits sum.splits)
  have read: "cached_GetByUserName ttl T (pg_carts P T) u (E, s) = (Inr b, E9, s9) \<Longrightarrow> b = first" for b E9 s9
    using missed_read [OF assms(13,12,8,11), of "ret ()" ttl]
    by (auto simp: cached_GetByUserName_def andthen_def attempt_def ret_def split: prod.splits)
  from CheckoutBasket_run [OF assms(17)] read assms(5)
  have first: "sc_Items first \<noteq> []" "u \<noteq> []" "CheckoutID sha1 T u (sc_Version first) \<noteq> uuid_nil"
    and s1: "cd_Inner s1 = recorded P (now E) (announcement sha1 T corr0 (now E) c first)
      ((cd_Inner s)\<lparr>Baskets := (Baskets (cd_Inner s))(u := None)\<rparr>)" by auto
  note st = StoreBasket_run [OF assms(1) ok(1,2) assms(3,4,18)]
  let ?s3 = "s2\<lparr>cd_Cache := (cd_Cache s2)(cache_key u \<mapsto> (JsonText (stored_cart_json T first), now E2 + cache_ttl ttl))\<rparr>"
  have "others (E, s) = (Inr (), E2, s2)"
    using assms(17,18) by (simp add: assms(19) andthen_def ret_def)
  then have r: "cached_GetByUserName_amid others ttl T (pg_carts P T) u (E, s) = (Inr first, E2, ?s3)"
    using assms(14) name by (simp add: missed_read [OF assms(13,12,8,11)] andthen_def attempt_def cache_set_def update_ok ret_def)
  have g: "cached_GetByUserName ttl T (pg_carts P T) (cc_UserName c') (E4, ?s3) = (Inr first, E4, ?s3)"
    using live_read [OF assms(15,16) _ assms(2), of ?s3] name assms(6) by simp
  let ?e = "announcement sha1 T corr (now E4) c' first"
  let ?s4 = "\<lparr>cd_Inner = recorded P (now E4) ?e ((cd_Inner ?s3)\<lparr>Baskets := (Baskets (cd_Inner ?s3))(u := None)\<rparr>),
     cd_Cache = (cd_Cache ?s3)(cache_key u := None)\<rparr>"
  have b: "Baskets (cd_Inner ?s3) u \<noteq> None"
    using st assms(7) by (auto simp: pg_stored_def split: option.splits)
  have t: "list_all (pg_text P) [''basket.checkout-submitted'', cc_UserName c', corr]"
    using assms(6,8-10) by simp
  have out: "CheckoutBasket sha1 T (basket_repo ttl P T) corr c' (E4, ?s3)
      = (Inr True, E4\<lparr>drawn := Suc (drawn E4)\<rparr>, ?s4)"
    using CheckoutBasket_ok [OF assms(15) g, of sha1 corr] first ok(3) t b assms(6) by simp
  have "BasketOutbox (cd_Inner ?s3) = BasketOutbox (recorded P (now E) (announcement sha1 T corr0 (now E) c first)
      ((cd_Inner s)\<lparr>Baskets := (Baskets (cd_Inner s))(u := None)\<rparr>))"
    using StoreBasket_outbox [OF assms(1,18)] s1 by simp
  from recorded_twice [OF _ , of "(cd_Inner ?s3)\<lparr>Baskets := (Baskets (cd_Inner ?s3))(u := None)\<rparr>" P "now E"
      "announcement sha1 T corr0 (now E) c first" "(cd_Inner s)\<lparr>Baskets := (Baskets (cd_Inner s))(u := None)\<rparr>" ?e "now E4"] this
  have o: "BasketOutbox (cd_Inner ?s4) = BasketOutbox (cd_Inner ?s3)"
    using assms(5,6) by (simp add: announcement_def Let_def)
  have n: "Baskets (cd_Inner ?s4) u = None" by simp
  have p: "pg_stored T (cd_Inner ?s3) u
      = Some \<lparr>sc_UserName = u, sc_Items = map (discounted amounts) (sc_Items second), sc_Version = rnd E1 (drawn E1)\<rparr>"
    using st assms(7) by auto
  have i: "sc_Items \<lparr>sc_UserName = u, sc_Items = map (discounted amounts) (sc_Items second), sc_Version = rnd E1 (drawn E1)\<rparr>
      = map (discounted amounts) (sc_Items second)" by simp
  show ?thesis using r p i out n o by blast
qed

text \<open>A basket that is in the table only, and what the requests in between make of it.\<close>

definition uncached_state :: "basket_db cached" where
  "uncached_state = \<lparr>cd_Inner = sample_basket_db, cd_Cache = Map.empty\<rparr>"

lemma later_env_ok:
  "outcomes (sample_env\<lparr>drawn := 1\<rparr>) = []"
  "rnd (sample_env\<lparr>drawn := 1\<rparr>) (drawn (sample_env\<lparr>drawn := 1\<rparr>)) \<noteq> uuid_nil" "now (sample_env\<lparr>drawn := 1\<rparr>) = 1000"
  by (simp_all add: sample_env_def)

lemma uncached_checkout:
  assumes "CheckoutID sha1 sample_texts ''swn'' 100 \<noteq> uuid_nil"
  shows "\<exists>s1. CheckoutBasket sha1 sample_texts (basket_repo DefaultTTL sample_pg sample_texts) '''' sample_command
      (sample_env, uncached_state) = (Inr True, sample_env\<lparr>drawn := 1\<rparr>, s1)"
proof -
  have m: "live_entry (now sample_env) uncached_state (cache_key ''swn'') = None"
    by (simp add: live_entry_def uncached_state_def)
  have p: "pg_text sample_pg ''swn''" by (simp add: sample_pg_def)
  have st: "pg_stored sample_texts (cd_Inner uncached_state) ''swn'' = Some sample_stored"
    using sample_basket_stored by (simp add: uncached_state_def)
  obtain s0 where g: "cached_GetByUserName DefaultTTL sample_texts (pg_carts sample_pg sample_texts) ''swn'' (sample_env, uncached_state)
      = (Inr sample_stored, sample_env, s0)" "cd_Inner s0 = sample_basket_db"
    using missed_read [OF sample_env_ok m p st, of "ret ()" DefaultTTL]
    by (simp add: cached_GetByUserName_def andthen_def attempt_def cache_set_def update_ok ret_def uncached_state_def)
  have "Baskets (cd_Inner s0) (cc_UserName sample_command) \<noteq> None" by (simp add: g(2) sample_basket_db_def)
  with CheckoutBasket_ok [of sample_env DefaultTTL sample_texts sample_pg sample_command uncached_state sample_stored s0 sha1 "''''"]
    g(1) assms sample_contract_text
  show ?thesis by (simp add: sample_stored_def sample_cart_def sample_rnd) (simp add: sample_env_def)
qed

theorem stale_read_loses_a_basket_witness:
  "\<exists>others E3 s3 E5 s4 b. cached_GetByUserName_amid others DefaultTTL sample_texts (pg_carts sample_pg sample_texts) ''swn''
       (sample_env, uncached_state) = (Inr sample_stored, E3, s3) \<and>
     pg_stored sample_texts (cd_Inner s3) ''swn'' = Some b \<and> map ci_Price (sc_Items b) = [350] \<and>
     CheckoutBasket (\<lambda>n. 7) sample_texts (basket_repo DefaultTTL sample_pg sample_texts) '''' sample_command
       (sample_env, s3) = (Inr True, E5, s4) \<and>
     Baskets (cd_Inner s4) ''swn'' = None \<and> BasketOutbox (cd_Inner s4) = BasketOutbox (cd_Inner s3)"
proof -
  have i: "CheckoutID (\<lambda>n. 7) sample_texts ''swn'' 100 \<noteq> uuid_nil" by (simp add: CheckoutID_def)
  obtain s1 where 1: "CheckoutBasket (\<lambda>n. 7) sample_texts (basket_repo DefaultTTL sample_pg sample_texts) '''' sample_command
      (sample_env, uncached_state) = (Inr True, sample_env\<lparr>drawn := 1\<rparr>, s1)"
    using uncached_checkout [OF i] by blast
  note 2 = sample_StoreBasket [of "sample_env\<lparr>drawn := 1\<rparr>" 500 0 s1, OF later_env_ok(1,2)]
  have storable: "pg_storable sample_pg sample_texts sample_stored"
    using storable_sample [of 100] by (simp add: sample_stored_def)
  have e: "encodable (priced 500 0)" using encodable_priced is_decimal_int [of 500] by simp
  have t: "pg_text sample_pg ''swn''" "pg_text sample_pg ''''" "pg_text sample_pg ''basket.checkout-submitted''"
    using sample_contract_text by simp_all
  have m: "live_entry (now sample_env) uncached_state (cache_key ''swn'') = None"
    by (simp add: live_entry_def uncached_state_def)
  have st: "pg_stored sample_texts (cd_Inner uncached_state) ''swn'' = Some sample_stored"
    using sample_basket_stored by (simp add: uncached_state_def)
  have n: "sc_UserName (priced 500 0) = ''swn''" "map ci_Price (map (discounted (\<lambda>n. 150)) (sc_Items (priced 500 0))) = [350]"
    by (simp_all add: priced_def sample_cart_def discounted_def)
  let ?E2 = "sample_env\<lparr>drawn := 1, drawn := Suc (drawn (sample_env\<lparr>drawn := 1\<rparr>))\<rparr>"
  have l: "outcomes ?E2 = []" "now sample_env < now ?E2 + cache_ttl DefaultTTL"
    by (simp_all add: sample_env_def cache_ttl_def DefaultTTL_def)
  from stale_read_loses_a_basket [OF no_coupons_answer storable e later_env_ok(2) sample_command_name sample_command_name n(1)
      t st m sample_env_ok l(1) sample_env_ok l(2) 1 2 refl]
  show ?thesis using n(2) by metis
qed

end
