(* ===== verification/Publisher.thy ===== *)
theory Publisher
  imports Messaging Go_Runtime
begin

text \<open>
  The seam between whoever publishes messages and the brokers, \<open>messaging.Publisher\<close> of
  \<open>internal/platform/messaging/publisher.go\<close>: what its callers rely on, as a locale. The brokers that
  satisfy it are in \<open>Kafka\<close> and \<open>RabbitMQ\<close>.
\<close>

section \<open>What a publisher promises\<close>

text \<open>
  \<open>messaging.Publisher\<close>: when \<open>Publish\<close> answers, the broker holds the message, and what it holds it
  keeps; when it fails the message may have been accepted all the same.
\<close>

locale publisher =
  fixes publish :: "envelope \<Rightarrow> ('b, unit) act"
    and accepted :: "'b \<Rightarrow> envelope \<Rightarrow> bool"
  assumes accepts: "publish e (E, b) = (Inr u, E', b') \<Longrightarrow> accepted b' e"
    and keeps_accepted: "publish e (E, b) = (r, E', b') \<Longrightarrow> accepted b e' \<Longrightarrow> accepted b' e'"

text \<open>
  A broker as the list of what it holds, with calls that can fail before or after they take effect.
\<close>

definition log_publish :: "envelope \<Rightarrow> (envelope list, unit) act" where
  "log_publish e = update (\<lambda>t b. b @ [e])"

interpretation log_broker: publisher log_publish "\<lambda>b e. e \<in> set b"
proof (unfold_locales, goal_cases)
  case (1 e E b u E' b')
  then show ?case by (auto simp: log_publish_def dest: update_Inr)
next
  case (2 e E b r E' b' e')
  then show ?case by (auto simp: log_publish_def dest!: update_cases)
qed

end
