(* ===== verification/Basket_Relay.thy ===== *)
theory Basket_Relay
  imports Basket_Facts Publisher
begin

text \<open>
  The relay that publishes the recorded checkouts, \<open>internal/basket/outbox/outbox.go\<close>, on the outbox
  table of \<open>Basket_Store\<close> and any publisher. Its loop is cut into cycles; the delay between two of
  them is \<open>relay_delay\<close>.
\<close>

section \<open>The relay\<close>

record 's relay_store =
  st_Due :: "nat \<Rightarrow> time \<Rightarrow> ('s, outbox_message list) act"
  st_Delete :: "uuid \<Rightarrow> ('s, unit) act"
  st_Fail :: "uuid \<Rightarrow> string \<Rightarrow> time \<Rightarrow> ('s, unit) act"
  st_Poison :: "uuid \<Rightarrow> string \<Rightarrow> ('s, unit) act"

record relay_options =
  ro_BatchSize :: nat
  ro_PollInterval :: duration
  ro_MaxAttempts :: nat
  ro_RetryBaseDelay :: duration
  ro_RetryMaxDelay :: duration

definition DefaultOptions :: relay_options where
  "DefaultOptions =
     \<lparr>ro_BatchSize = 50, ro_PollInterval = 2 * 10 ^ 9, ro_MaxAttempts = 10,
      ro_RetryBaseDelay = 10 ^ 9, ro_RetryMaxDelay = 60 * 10 ^ 9\<rparr>"

text \<open>
  The wait after a number of failed attempts, at least one; \<open>jitter\<close> is the random number drawn from
  0 to 1. The floating-point product is exact up to its last bits, which are not modelled.
\<close>

definition relay_backoff :: "relay_options \<Rightarrow> nat \<Rightarrow> rat \<Rightarrow> duration" where
  "relay_backoff opt attempts jitter =
     (let delay = min (of_int (ro_RetryBaseDelay opt) * 2 ^ min (attempts - 1) 10)
                      (of_int (ro_RetryMaxDelay opt))
      in \<lfloor>delay + delay * (1 / 5) * jitter\<rfloor>)"

text \<open>Publishing one message; the answer is whether the broker took it.\<close>

definition relay_publish ::
  "relay_options \<Rightarrow> 's relay_store \<Rightarrow> (envelope \<Rightarrow> ('s, unit) act) \<Rightarrow> (go_error \<Rightarrow> string) \<Rightarrow> rat
     \<Rightarrow> outbox_message \<Rightarrow> ('s, bool) act" where
  "relay_publish opt st publish error_text jitter m =
     andthen (attempt (publish (om_Envelope m))) (\<lambda>r.
       case r of
         Inr u \<Rightarrow> andthen (st_Delete st (env_ID (om_Envelope m))) (\<lambda>_. ret True)
       | Inl err \<Rightarrow>
           if is_context_error err then fail err
           else
             let attempts = om_Attempts m + 1 in
             if ro_MaxAttempts opt \<le> attempts
             then andthen (st_Poison st (env_ID (om_Envelope m)) (error_text err)) (\<lambda>_. ret False)
             else
               andthen time_now (\<lambda>t.
               andthen (st_Fail st (env_ID (om_Envelope m)) (error_text err)
                          (t + relay_backoff opt attempts jitter)) (\<lambda>_. ret False)))"

text \<open>
  The loop over a batch: \<open>stopped n\<close> tells whether the relay has been asked to stop when it comes to
  the \<open>n\<close>-th message. It answers how many messages went out, and the error that ended it.
\<close>

fun relay_loop ::
  "(nat \<Rightarrow> bool) \<Rightarrow> (nat \<Rightarrow> outbox_message \<Rightarrow> ('s, bool) act) \<Rightarrow> nat \<Rightarrow> nat \<Rightarrow> outbox_message list
     \<Rightarrow> ('s, nat \<times> go_error option) act" where
  "relay_loop stopped send n published [] = ret (published, None)"
| "relay_loop stopped send n published (m # ms) =
     (if stopped n then ret (published, None)
      else andthen (attempt (send n m)) (\<lambda>r.
        case r of
          Inl err \<Rightarrow> ret (published, Some err)
        | Inr sent \<Rightarrow>
            relay_loop stopped send (Suc n) (if sent then published + 1 else published) ms))"

definition relay_ProcessOnce ::
  "relay_options \<Rightarrow> 's relay_store \<Rightarrow> (envelope \<Rightarrow> ('s, unit) act) \<Rightarrow> (go_error \<Rightarrow> string)
     \<Rightarrow> (nat \<Rightarrow> rat) \<Rightarrow> (nat \<Rightarrow> bool) \<Rightarrow> ('s, nat \<times> go_error option) act" where
  "relay_ProcessOnce opt st publish error_text jitter stopped =
     andthen time_now (\<lambda>t.
     andthen (attempt (st_Due st (ro_BatchSize opt) t)) (\<lambda>r.
       case r of
         Inl err \<Rightarrow> ret (0, Some err)
       | Inr ms \<Rightarrow>
           relay_loop stopped (\<lambda>n. relay_publish opt st publish error_text (jitter n)) 0 0 ms))"

definition relay_delay :: "relay_options \<Rightarrow> nat \<Rightarrow> duration" where
  "relay_delay opt published = (if 0 < published then 0 else ro_PollInterval opt)"

text \<open>
  A cycle of \<open>Run\<close>, in an environment of its own; an error ends the cycle, not the relay.
\<close>

record cycle =
  cy_Env :: env
  cy_Jitter :: "nat \<Rightarrow> rat"
  cy_Stopped :: "nat \<Rightarrow> bool"

fun relay_cycles ::
  "relay_options \<Rightarrow> 's relay_store \<Rightarrow> (envelope \<Rightarrow> ('s, unit) act) \<Rightarrow> (go_error \<Rightarrow> string)
     \<Rightarrow> cycle list \<Rightarrow> 's \<Rightarrow> 's" where
  "relay_cycles opt st publish error_text [] s = s"
| "relay_cycles opt st publish error_text (c # cs) s =
     (case relay_ProcessOnce opt st publish error_text (cy_Jitter c) (cy_Stopped c) (cy_Env c, s) of
        (r, E, s1) \<Rightarrow> relay_cycles opt st publish error_text cs s1)"

section \<open>The table and a broker\<close>

record 'b relay_world =
  rw_DB :: basket_db
  rw_Broker :: 'b

definition on_db :: "(basket_db, 'a) act \<Rightarrow> ('b relay_world, 'a) act" where
  "on_db = zoom rw_DB (\<lambda>t s. s\<lparr>rw_DB := t\<rparr>)"

definition on_broker :: "('b, 'a) act \<Rightarrow> ('b relay_world, 'a) act" where
  "on_broker = zoom rw_Broker (\<lambda>t s. s\<lparr>rw_Broker := t\<rparr>)"

definition pg_relay_store :: "postgres \<Rightarrow> 'b relay_world relay_store" where
  "pg_relay_store P =
     \<lparr>st_Due = (\<lambda>limit t. on_db (pg_Due P limit t)), st_Delete = (\<lambda>i. on_db (pg_DeleteMessage i)),
      st_Fail = (\<lambda>i reason t. on_db (pg_Fail P i reason t)),
      st_Poison = (\<lambda>i reason. on_db (pg_Poison P i reason))\<rparr>"

definition basket_relay ::
  "relay_options \<Rightarrow> postgres \<Rightarrow> (envelope \<Rightarrow> ('b, unit) act) \<Rightarrow> (go_error \<Rightarrow> string) \<Rightarrow> cycle list
     \<Rightarrow> 'b relay_world \<Rightarrow> 'b relay_world" where
  "basket_relay opt P publish error_text =
     relay_cycles opt (pg_relay_store P) (\<lambda>e. on_broker (publish e)) error_text"

section \<open>What one attempt does to the table\<close>

abbreviation rows :: "'b relay_world \<Rightarrow> checkout_row list" where
  "rows s \<equiv> BasketOutbox (rw_DB s)"

abbreviation message_env :: "checkout_row \<Rightarrow> envelope" where
  "message_env r \<equiv> om_Envelope (message_of r)"

definition failed_row :: "string \<Rightarrow> time \<Rightarrow> checkout_row \<Rightarrow> checkout_row" where
  "failed_row why t r =
     r\<lparr>bo_Attempts := bo_Attempts r + 1, bo_LastError := Some why, bo_NextAttemptOnUtc := t\<rparr>"

definition poisoned_row :: "string \<Rightarrow> time \<Rightarrow> checkout_row \<Rightarrow> checkout_row" where
  "poisoned_row why t r =
     r\<lparr>bo_Attempts := bo_Attempts r + 1, bo_LastError := Some why, bo_PoisonedOnUtc := Some t\<rparr>"

lemma row_ids [simp]:
  "bo_Id (failed_row why t r) = bo_Id r" "bo_Id (poisoned_row why t r) = bo_Id r"
  "message_env (failed_row why t r) = message_env r" "message_env (poisoned_row why t r) = message_env r"
  "env_ID (message_env r) = bo_Id r"
  by (simp_all add: failed_row_def poisoned_row_def message_of_def)

lemma on_db_run: "on_db m (E, s) = (r, E', s') \<longleftrightarrow>
    (\<exists>t. m (E, rw_DB s) = (r, E', t) \<and> s' = s\<lparr>rw_DB := t\<rparr>)"
  by (simp add: on_db_def zoom_run)

lemma on_broker_run: "on_broker m (E, s) = (r, E', s') \<longleftrightarrow>
    (\<exists>t. m (E, rw_Broker s) = (r, E', t) \<and> s' = s\<lparr>rw_Broker := t\<rparr>)"
  by (simp add: on_broker_def zoom_run)

lemma pg_DeleteMessage_run:
  "pg_DeleteMessage i (E, db) = (r, E', db') \<Longrightarrow>
     db' = db \<or> db' = db\<lparr>BasketOutbox := filter (\<lambda>r. bo_Id r \<noteq> i) (BasketOutbox db)\<rparr>"
  by (auto simp: pg_DeleteMessage_def dest!: on_err_state update_cases)

lemma pg_Fail_run:
  "pg_Fail P i reason n (E, db) = (r, E', db') \<Longrightarrow>
     db' = db \<or> (\<exists>why t. db' = update_rows (\<lambda>r. bo_Id r = i) (failed_row why t) db)"
  unfolding pg_Fail_def failed_row_def
  by (drule on_err_state, elim exE, drule pg_stmt_run, simp) blast

lemma pg_Poison_run:
  "pg_Poison P i reason (E, db) = (r, E', db') \<Longrightarrow>
     db' = db \<or> (\<exists>why t. db' = update_rows (\<lambda>r. bo_Id r = i \<and> bo_PoisonedOnUtc r = None) (poisoned_row why t) db)"
  unfolding pg_Poison_def poisoned_row_def
  by (drule on_err_state, elim exE, drule pg_stmt_run, simp) blast

text \<open>The four things an attempt can do to the rows.\<close>

definition attempt_effect ::
  "relay_options \<Rightarrow> ('b \<Rightarrow> envelope \<Rightarrow> bool) \<Rightarrow> outbox_message \<Rightarrow> 'b relay_world \<Rightarrow> 'b relay_world \<Rightarrow> bool" where
  "attempt_effect opt accepted m s s' \<longleftrightarrow>
     rows s' = rows s \<or>
     accepted (rw_Broker s') (om_Envelope m) \<and>
       rows s' = filter (\<lambda>r. bo_Id r \<noteq> env_ID (om_Envelope m)) (rows s) \<or>
     om_Attempts m + 1 < ro_MaxAttempts opt \<and>
       (\<exists>why t. rows s' = map (\<lambda>r. if bo_Id r = env_ID (om_Envelope m) then failed_row why t r else r) (rows s)) \<or>
     ro_MaxAttempts opt \<le> om_Attempts m + 1 \<and>
       (\<exists>why t. rows s' = map (\<lambda>r. if bo_Id r = env_ID (om_Envelope m) \<and> bo_PoisonedOnUtc r = None
          then poisoned_row why t r else r) (rows s))"

context publisher
begin

lemma relay_publish_run:
  assumes "relay_publish opt (pg_relay_store P) (\<lambda>e. on_broker (publish e)) etext j m (E, s) = (r, E', s')"
  shows "attempt_effect opt accepted m s s' \<and> (\<forall>e. accepted (rw_Broker s) e \<longrightarrow> accepted (rw_Broker s') e)"
proof -
  let ?i = "env_ID (om_Envelope m)"
  obtain q E1 b where q: "publish (om_Envelope m) (E, rw_Broker s) = (q, E1, b)"
    by (cases "publish (om_Envelope m) (E, rw_Broker s)") auto
  then have p: "on_broker (publish (om_Envelope m)) (E, s) = (q, E1, s\<lparr>rw_Broker := b\<rparr>)"
    by (simp add: on_broker_run)
  have k: "\<And>e. accepted (rw_Broker s) e \<Longrightarrow> accepted b e" using keeps_accepted [OF q] .
  note d = relay_publish_def andthen_def attempt_def pg_relay_store_def time_now_def Let_def
  show ?thesis
  proof (cases q)
    case (Inr u)
    have a: "accepted b (om_Envelope m)" using accepts q Inr by blast
    obtain q2 E2 db where "pg_DeleteMessage ?i (E1, rw_DB s) = (q2, E2, db)"
      by (cases "pg_DeleteMessage ?i (E1, rw_DB s)") auto
    moreover from this have "s' = s\<lparr>rw_Broker := b, rw_DB := db\<rparr>"
      using assms p Inr by (auto simp: d on_db_def zoom_def split: sum.splits)
    ultimately show ?thesis using a k by (auto simp: attempt_effect_def dest!: pg_DeleteMessage_run)
  next
    case (Inl err)
    show ?thesis
    proof (cases "is_context_error err")
      case True
      with assms p Inl k show ?thesis by (auto simp: d attempt_effect_def)
    next
      case c: False
      show ?thesis
      proof (cases "ro_MaxAttempts opt \<le> om_Attempts m + 1")
        case True
        obtain q2 E2 db where w: "pg_Poison P ?i (etext err) (E1, rw_DB s) = (q2, E2, db)"
          by (cases "pg_Poison P ?i (etext err) (E1, rw_DB s)") auto
        then have s': "s' = s\<lparr>rw_Broker := b, rw_DB := db\<rparr>"
          using assms p Inl c True by (auto simp: d on_db_def zoom_def split: sum.splits)
        from pg_Poison_run [OF w] consider "db = rw_DB s"
          | why t where "db = update_rows (\<lambda>r. bo_Id r = ?i \<and> bo_PoisonedOnUtc r = None) (poisoned_row why t) (rw_DB s)"
          by blast
        then show ?thesis
        proof cases
          case 1
          with s' k show ?thesis by (simp add: attempt_effect_def)
        next
          case 2
          with s' have "rows s' = map (\<lambda>r. if bo_Id r = ?i \<and> bo_PoisonedOnUtc r = None
              then poisoned_row why t r else r) (rows s)" by (simp add: update_rows_def)
          with s' k True show ?thesis by (simp add: attempt_effect_def) blast
        qed
      next
        case False
        let ?n = "now E1 + relay_backoff opt (om_Attempts m + 1) j"
        obtain q2 E2 db where w: "pg_Fail P ?i (etext err) ?n (E1, rw_DB s) = (q2, E2, db)"
          by (cases "pg_Fail P ?i (etext err) ?n (E1, rw_DB s)") auto
        then have s': "s' = s\<lparr>rw_Broker := b, rw_DB := db\<rparr>"
          using assms p Inl c False by (auto simp: d on_db_def zoom_def split: sum.splits)
        from pg_Fail_run [OF w] consider "db = rw_DB s"
          | why t where "db = update_rows (\<lambda>r. bo_Id r = ?i) (failed_row why t) (rw_DB s)" by blast
        then show ?thesis
        proof cases
          case 1
          with s' k show ?thesis by (simp add: attempt_effect_def)
        next
          case 2
          with s' have "rows s' = map (\<lambda>r. if bo_Id r = ?i then failed_row why t r else r) (rows s)"
            by (simp add: update_rows_def)
          with s' k False show ?thesis by (simp add: attempt_effect_def) blast
        qed
      qed
    qed
  qed
qed

end

section \<open>No message is lost\<close>

text \<open>
  From one state to a later one: what the broker has accepted stays accepted, every row is still
  there, with the same message, or its message has been accepted, and no message appears.
\<close>

definition kept :: "('b \<Rightarrow> envelope \<Rightarrow> bool) \<Rightarrow> 'b relay_world \<Rightarrow> 'b relay_world \<Rightarrow> bool" where
  "kept accepted s s' \<longleftrightarrow>
     (\<forall>e. accepted (rw_Broker s) e \<longrightarrow> accepted (rw_Broker s') e) \<and>
     (\<forall>r \<in> set (rows s). message_env r \<in> message_env ` set (rows s') \<or> accepted (rw_Broker s') (message_env r)) \<and>
     message_env ` set (rows s') \<subseteq> message_env ` set (rows s)"

text \<open>One row per id; a row has fewer attempts than the limit until it is given up on.\<close>

definition outbox_ok :: "relay_options \<Rightarrow> checkout_row list \<Rightarrow> bool" where
  "outbox_ok opt rs \<longleftrightarrow>
     distinct (map bo_Id rs) \<and>
     (\<forall>r \<in> set rs. bo_Attempts r \<le> ro_MaxAttempts opt \<and>
        (bo_PoisonedOnUtc r = None \<longrightarrow> bo_Attempts r < ro_MaxAttempts opt))"

text \<open>The row of a message, as long as it is there, is as it was read.\<close>

definition pending :: "outbox_message \<Rightarrow> 'b relay_world \<Rightarrow> bool" where
  "pending m s \<longleftrightarrow>
     (\<forall>r \<in> set (rows s). bo_Id r = env_ID (om_Envelope m) \<longrightarrow> message_of r = m \<and> bo_PoisonedOnUtc r = None)"

lemma kept_refl: "kept accepted s s"
  by (auto simp: kept_def)

lemma kept_trans:
  assumes "kept accepted s s1" "kept accepted s1 s2"
  shows "kept accepted s s2"
proof -
  have "message_env r \<in> message_env ` set (rows s2) \<or> accepted (rw_Broker s2) (message_env r)"
    if r: "r \<in> set (rows s)" for r
  proof -
    from assms(1) r have "message_env r \<in> message_env ` set (rows s1) \<or> accepted (rw_Broker s1) (message_env r)"
      by (simp add: kept_def)
    then show ?thesis
    proof
      assume "message_env r \<in> message_env ` set (rows s1)"
      then obtain r1 where "r1 \<in> set (rows s1)" "message_env r = message_env r1" by blast
      with assms(2) show ?thesis by (simp add: kept_def)
    qed (use assms(2) in \<open>simp add: kept_def\<close>)
  qed
  with assms show ?thesis by (simp add: kept_def) blast
qed

lemma message_of_attempts: "message_of r = m \<Longrightarrow> bo_Attempts r = om_Attempts m"
  by (auto simp: message_of_def)

lemma attempt_cases:
  assumes "attempt_effect opt accepted m s s'" "pending m s"
  obtains (same) "rows s' = rows s"
    | (gone) "accepted (rw_Broker s') (om_Envelope m)"
        "rows s' = filter (\<lambda>r. bo_Id r \<noteq> env_ID (om_Envelope m)) (rows s)"
    | (upd) f where "rows s' = map (\<lambda>r. if bo_Id r = env_ID (om_Envelope m) then f r else r) (rows s)"
        "\<And>r. bo_Id (f r) = bo_Id r" "\<And>r. message_env (f r) = message_env r"
        "\<And>r. bo_Attempts (f r) = bo_Attempts r + 1"
        "om_Attempts m + 1 < ro_MaxAttempts opt \<or> (\<forall>r. bo_PoisonedOnUtc (f r) \<noteq> None)"
proof -
  let ?i = "env_ID (om_Envelope m)"
  from assms(1) consider "rows s' = rows s"
    | "accepted (rw_Broker s') (om_Envelope m) \<and> rows s' = filter (\<lambda>r. bo_Id r \<noteq> ?i) (rows s)"
    | why t where "om_Attempts m + 1 < ro_MaxAttempts opt"
      "rows s' = map (\<lambda>r. if bo_Id r = ?i then failed_row why t r else r) (rows s)"
    | why t where "rows s' = map (\<lambda>r. if bo_Id r = ?i \<and> bo_PoisonedOnUtc r = None
        then poisoned_row why t r else r) (rows s)"
    unfolding attempt_effect_def by blast
  then show thesis
  proof cases
    case 1
    then show thesis by (rule same)
  next
    case 2
    then show thesis using gone by blast
  next
    case (3 why t)
    then show thesis by (intro upd [of "failed_row why t"]) (simp_all add: failed_row_def message_of_def)
  next
    case (4 why t)
    then have "rows s' = map (\<lambda>r. if bo_Id r = ?i then poisoned_row why t r else r) (rows s)"
      using assms(2) by (simp add: pending_def)
    then show thesis by (intro upd [of "poisoned_row why t"]) (simp_all add: poisoned_row_def message_of_def)
  qed
qed

lemma attempt_ok:
  assumes "attempt_effect opt accepted m s s'" "outbox_ok opt (rows s)" "pending m s"
  shows "outbox_ok opt (rows s')"
  using assms(1,3)
proof (cases rule: attempt_cases)
  case same
  with assms(2) show ?thesis by simp
next
  case gone
  with assms(2) show ?thesis by (auto simp: outbox_ok_def distinct_map inj_on_def)
next
  case (upd f)
  have "map bo_Id (rows s') = map bo_Id (rows s)" using upd(1,2) by simp
  moreover have "bo_Attempts r \<le> ro_MaxAttempts opt \<and>
      (bo_PoisonedOnUtc r = None \<longrightarrow> bo_Attempts r < ro_MaxAttempts opt)" if "r \<in> set (rows s')" for r
  proof -
    from that upd(1) obtain q where q: "q \<in> set (rows s)"
      "r = (if bo_Id q = env_ID (om_Envelope m) then f q else q)" by auto
    show ?thesis
    proof (cases "bo_Id q = env_ID (om_Envelope m)")
      case True
      with q assms(3) have "bo_Attempts q = om_Attempts m" "bo_PoisonedOnUtc q = None"
        using message_of_attempts by (auto simp: pending_def)
      moreover from upd(5) have "om_Attempts m + 1 < ro_MaxAttempts opt \<or> bo_PoisonedOnUtc (f q) \<noteq> None"
        by blast
      ultimately show ?thesis using True q upd(4) assms(2) by (auto simp: outbox_ok_def)
    next
      case False
      with q assms(2) show ?thesis by (simp add: outbox_ok_def)
    qed
  qed
  ultimately show ?thesis using assms(2) by (simp add: outbox_ok_def)
qed

lemma attempt_kept:
  assumes "attempt_effect opt accepted m s s'" "\<forall>e. accepted (rw_Broker s) e \<longrightarrow> accepted (rw_Broker s') e"
    and "pending m s"
  shows "kept accepted s s'"
  using assms(1,3)
proof (cases rule: attempt_cases)
  case same
  with assms(2) show ?thesis by (simp add: kept_def)
next
  case gone
  have "message_env r = om_Envelope m" if "r \<in> set (rows s)" "bo_Id r = env_ID (om_Envelope m)" for r
    using assms(3) that by (auto simp: pending_def)
  with gone assms(2) show ?thesis by (auto simp: kept_def)
next
  case (upd f)
  have "map message_env (rows s') = map message_env (rows s)" using upd(1,3) by simp
  then have "message_env ` set (rows s') = message_env ` set (rows s)" by (metis list.set_map)
  with assms(2) show ?thesis by (simp add: kept_def)
qed

lemma attempt_pending:
  assumes "attempt_effect opt accepted m s s'" "pending m s" "pending m2 s"
    and "env_ID (om_Envelope m2) \<noteq> env_ID (om_Envelope m)"
  shows "pending m2 s'"
  using assms(1,2)
proof (cases rule: attempt_cases)
  case (upd f)
  with assms(3,4) show ?thesis by (auto simp: pending_def split: if_splits)
qed (use assms(3) in \<open>auto simp: pending_def\<close>)

subsection \<open>A batch and a cycle\<close>

context publisher
begin

lemma relay_loop_keeps:
  assumes "relay_loop stopped (\<lambda>n. relay_publish opt (pg_relay_store P) (\<lambda>e. on_broker (publish e)) etext (j n))
      n k ms (E, s) = (r, E', s')"
    and "outbox_ok opt (rows s)" "\<forall>m \<in> set ms. pending m s"
    and "distinct (map (\<lambda>m. env_ID (om_Envelope m)) ms)"
  shows "outbox_ok opt (rows s') \<and> kept accepted s s'"
  using assms
proof (induction ms arbitrary: n k E s)
  case Nil
  then show ?case by (simp add: kept_refl)
next
  case (Cons m ms)
  let ?send = "relay_publish opt (pg_relay_store P) (\<lambda>e. on_broker (publish e)) etext (j n) m"
  show ?case
  proof (cases "stopped n")
    case True
    with Cons.prems show ?thesis by (simp add: kept_refl)
  next
    case False
    obtain q E1 s1 where q: "?send (E, s) = (q, E1, s1)" by (cases "?send (E, s)") auto
    note run = relay_publish_run [OF q]
    have p: "pending m s" using Cons.prems(3) by simp
    have 1: "outbox_ok opt (rows s1)" "kept accepted s s1"
      using attempt_ok [OF conjunct1 [OF run] Cons.prems(2) p] attempt_kept [OF conjunct1 [OF run] _ p] run
      by auto
    show ?thesis
    proof (cases q)
      case (Inl e)
      with Cons.prems(1) False q 1 show ?thesis by (auto simp: andthen_def attempt_def)
    next
      case (Inr b)
      have "\<forall>m2 \<in> set ms. pending m2 s1"
        using attempt_pending [OF conjunct1 [OF run] p] Cons.prems(3,4) by (simp add: image_iff) metis
      moreover from Cons.prems(1) False q Inr
      have "relay_loop stopped (\<lambda>n. relay_publish opt (pg_relay_store P) (\<lambda>e. on_broker (publish e)) etext (j n))
          (Suc n) (if b then k + 1 else k) ms (E1, s1) = (r, E', s')"
        by (simp add: andthen_def attempt_def)
      ultimately have "outbox_ok opt (rows s') \<and> kept accepted s1 s'"
        using Cons.IH [of "Suc n" "if b then k + 1 else k" E1 s1] 1(1) Cons.prems(4) by simp
      with 1(2) kept_trans show ?thesis by blast
    qed
  qed
qed

lemma due_rows_set: "r \<in> set (due_rows limit t db) \<Longrightarrow> r \<in> set (BasketOutbox db) \<and> is_due t r"
  by (auto simp: due_rows_def dest!: in_set_takeD)

lemma due_rows_distinct: "distinct (map bo_Id (BasketOutbox db)) \<Longrightarrow> distinct (map bo_Id (due_rows limit t db))"
  unfolding due_rows_def take_map [symmetric]
  by (intro distinct_take) (simp add: distinct_map inj_on_def)

lemma due_pending:
  assumes "distinct (map bo_Id (rows s))" "r \<in> set (due_rows limit t (rw_DB s))"
  shows "pending (message_of r) s"
proof -
  from due_rows_set [OF assms(2)] have "r \<in> set (rows s)" "bo_PoisonedOnUtc r = None" by (auto simp: is_due_def)
  with assms(1) show ?thesis by (auto simp: pending_def distinct_map dest: inj_onD)
qed

lemma relay_ProcessOnce_keeps:
  assumes "relay_ProcessOnce opt (pg_relay_store P) (\<lambda>e. on_broker (publish e)) etext j st (E, s) = (r, E', s')"
    and "outbox_ok opt (rows s)"
  shows "outbox_ok opt (rows s') \<and> kept accepted s s'"
proof -
  let ?due = "on_db (pg_Due P (ro_BatchSize opt) (now E))"
  obtain q E1 s1 where q: "?due (E, s) = (q, E1, s1)" by (cases "?due (E, s)") auto
  then obtain db where db: "pg_Due P (ro_BatchSize opt) (now E) (E, rw_DB s) = (q, E1, db)"
      and s1: "s1 = s\<lparr>rw_DB := db\<rparr>" by (auto simp: on_db_run)
  then have s: "s1 = s" by (auto simp: pg_Due_def dest!: on_err_state query_state)
  show ?thesis
  proof (cases q)
    case (Inl e)
    with assms q s show ?thesis
      by (auto simp: relay_ProcessOnce_def andthen_def time_now_def attempt_def pg_relay_store_def kept_refl)
  next
    case (Inr ms)
    with db have ms: "ms = map message_of (due_rows (ro_BatchSize opt) (pg_time P (now E)) (rw_DB s))"
      by (auto simp: pg_Due_def on_err_Inr dest!: query_Inr)
    from assms(1) q s Inr
    have l: "relay_loop st (\<lambda>n. relay_publish opt (pg_relay_store P) (\<lambda>e. on_broker (publish e)) etext (j n))
        0 0 ms (E1, s) = (r, E', s')"
      by (simp add: relay_ProcessOnce_def andthen_def time_now_def attempt_def pg_relay_store_def)
    have d: "distinct (map bo_Id (rows s))" using assms(2) by (simp add: outbox_ok_def)
    have p: "\<forall>m \<in> set ms. pending m s" using due_pending [OF d] by (auto simp: ms)
    have "distinct (map (\<lambda>m. env_ID (om_Envelope m)) ms)"
      using due_rows_distinct [OF d] by (simp add: ms o_def)
    from relay_loop_keeps [OF l assms(2) p this] show ?thesis .
  qed
qed

lemma relay_cycles_keep:
  "outbox_ok opt (rows s) \<Longrightarrow>
     outbox_ok opt (rows (basket_relay opt P publish etext cs s)) \<and>
     kept accepted s (basket_relay opt P publish etext cs s)"
proof (induction cs arbitrary: s)
  case Nil
  then show ?case by (simp add: basket_relay_def kept_refl)
next
  case (Cons c cs)
  obtain r E s1 where 1: "relay_ProcessOnce opt (pg_relay_store P) (\<lambda>e. on_broker (publish e)) etext
      (cy_Jitter c) (cy_Stopped c) (cy_Env c, s) = (r, E, s1)"
    by (cases "relay_ProcessOnce opt (pg_relay_store P) (\<lambda>e. on_broker (publish e)) etext
      (cy_Jitter c) (cy_Stopped c) (cy_Env c, s)") auto
  from relay_ProcessOnce_keeps [OF 1 Cons.prems] Cons.IH [of s1]
  show ?case using 1 kept_trans by (simp add: basket_relay_def) blast
qed

end

section \<open>Properties\<close>

text \<open>
  C19. The relay never loses a recorded checkout and never makes one up: after any number of cycles,
  with any failures of the table and the broker and any stops in between, the message of every row is
  in the table or has been accepted by the broker, and the table holds no other messages, one row for
  each, none of them tried more often than the limit.
\<close>

theorem relay_never_loses:
  assumes "publisher publish accepted" "outbox_ok opt (rows s)"
    and "basket_relay opt P publish etext cs s = s'"
  shows "(\<forall>r. r \<in> set (rows s) \<longrightarrow>
      message_env r \<in> message_env ` set (rows s') \<or> accepted (rw_Broker s') (message_env r)) \<and>
    message_env ` set (rows s') \<subseteq> message_env ` set (rows s) \<and> outbox_ok opt (rows s')"
  using publisher.relay_cycles_keep [OF assms(1,2), of P etext cs] assms(3) by (auto simp: kept_def)

definition sample_row :: checkout_row where
  "sample_row =
     \<lparr>bo_Id = 7, bo_EventType = ''basket.checkout-submitted'', bo_SchemaVersion = 1,
      bo_AggregateId = ''swn'', bo_CorrelationId = None, bo_OccurredOnUtc = 5,
      bo_Payload = OtherBytes [], bo_Attempts = 0, bo_NextAttemptOnUtc = 5, bo_LastError = None,
      bo_PoisonedOnUtc = None\<rparr>"

definition sample_world :: "envelope list relay_world" where
  "sample_world = \<lparr>rw_DB = \<lparr>Baskets = Map.empty, BasketOutbox = [sample_row]\<rparr>, rw_Broker = []\<rparr>"

lemma sample_outbox_ok: "outbox_ok DefaultOptions (rows sample_world)"
  by (simp add: outbox_ok_def sample_world_def sample_row_def DefaultOptions_def)

definition sample_cycle :: cycle where
  "sample_cycle = \<lparr>cy_Env = sample_env, cy_Jitter = (\<lambda>n. 0), cy_Stopped = (\<lambda>n. False)\<rparr>"

text \<open>A cycle in which the broker cannot be reached: the row stays, with one attempt more.\<close>

definition failing_cycle :: cycle where
  "failing_cycle = sample_cycle\<lparr>cy_Env := sample_env\<lparr>outcomes := [Succeeds, FailsBefore ConnectionLost]\<rparr>\<rparr>"

lemma sample_due_rows: "due_rows 50 1000 \<lparr>Baskets = B, BasketOutbox = [sample_row]\<rparr> = [sample_row]"
  by (simp add: due_rows_def is_due_def sample_row_def)

lemma failing_cycle_run:
  "basket_relay DefaultOptions sample_pg log_publish (\<lambda>e. '''') [failing_cycle] sample_world
     = sample_world\<lparr>rw_DB := update_rows (\<lambda>r. bo_Id r = 7) (failed_row '''' 1000001000) (rw_DB sample_world)\<rparr>"
proof -
  have due: "on_db (pg_Due sample_pg 50 1000) (sample_env\<lparr>outcomes := [Succeeds, FailsBefore ConnectionLost]\<rparr>, sample_world)
      = (Inr [message_of sample_row], sample_env\<lparr>outcomes := [FailsBefore ConnectionLost]\<rparr>, sample_world)"
    by (simp add: on_db_def zoom_def pg_Due_def on_err_def query_def call_def next_outcome_def sample_world_def
        sample_due_rows sample_pg_def)
  have pub: "on_broker (log_publish (message_env sample_row)) (sample_env\<lparr>outcomes := [FailsBefore ConnectionLost]\<rparr>, sample_world)
      = (Inl (DriverError ConnectionLost), sample_env\<lparr>outcomes := []\<rparr>, sample_world)"
    by (simp add: on_broker_def zoom_def log_publish_def update_def call_def next_outcome_def sample_world_def)
  have b: "relay_backoff DefaultOptions 1 0 = 10 ^ 9"
    by (simp add: relay_backoff_def DefaultOptions_def)
  have m: "om_Attempts (message_of sample_row) = 0" "bo_Id sample_row = 7" by (simp_all add: message_of_def sample_row_def)
  have "\<not> is_context_error (DriverError ConnectionLost)" by (simp add: is_context_error_def)
  moreover have "on_db (pg_Fail sample_pg 7 '''' 1000001000) (sample_env\<lparr>outcomes := []\<rparr>, sample_world)
      = (Inr (), sample_env\<lparr>outcomes := []\<rparr>,
         sample_world\<lparr>rw_DB := update_rows (\<lambda>r. bo_Id r = 7) (failed_row '''' 1000001000) (rw_DB sample_world)\<rparr>)"
    by (simp add: on_db_def zoom_def pg_Fail_def on_err_def pg_stmt_def call_ok sample_pg_def truncate_reason_def
        failed_row_def [abs_def] utf8_ok_ascii ascii_def)
  ultimately have "relay_publish DefaultOptions (pg_relay_store sample_pg) (\<lambda>e. on_broker (log_publish e)) (\<lambda>e. '''') 0
      (message_of sample_row) (sample_env\<lparr>outcomes := [FailsBefore ConnectionLost]\<rparr>, sample_world)
    = (Inr False, sample_env\<lparr>outcomes := []\<rparr>,
       sample_world\<lparr>rw_DB := update_rows (\<lambda>r. bo_Id r = 7) (failed_row '''' 1000001000) (rw_DB sample_world)\<rparr>)"
    using pub b m
    by (simp add: relay_publish_def andthen_def attempt_def Let_def time_now_def pg_relay_store_def ret_def)
      (simp add: DefaultOptions_def sample_env_def)
  moreover have "now sample_env = 1000" "ro_BatchSize DefaultOptions = 50"
    by (simp_all add: sample_env_def DefaultOptions_def)
  ultimately show ?thesis
    using due
    by (simp add: basket_relay_def failing_cycle_def sample_cycle_def relay_ProcessOnce_def andthen_def time_now_def
        attempt_def pg_relay_store_def ret_def)
qed

theorem relay_never_loses_witness:
  "let s' = basket_relay DefaultOptions sample_pg log_publish (\<lambda>e. '''') [failing_cycle] sample_world in
     rw_Broker s' = [] \<and> message_env ` set (rows s') = {message_env sample_row} \<and> map bo_Attempts (rows s') = [1] \<and>
     outbox_ok DefaultOptions (rows s')"
proof -
  let ?s = "basket_relay DefaultOptions sample_pg log_publish (\<lambda>e. '''') [failing_cycle] sample_world"
  have "rw_Broker ?s = []" "map bo_Attempts (rows ?s) = [1]"
    unfolding failing_cycle_run by (simp_all add: sample_world_def update_rows_def failed_row_def sample_row_def)
  moreover from this relay_never_loses [OF log_broker.publisher_axioms sample_outbox_ok refl,
      of sample_pg "\<lambda>e. ''''" "[failing_cycle]"]
  have "message_env ` set (rows ?s) = {message_env sample_row}" "outbox_ok DefaultOptions (rows ?s)"
    by (auto simp: sample_world_def)
  ultimately show ?thesis by (simp add: Let_def)
qed

subsection \<open>Draining the table\<close>

definition due_order :: "time \<Rightarrow> 'b relay_world \<Rightarrow> checkout_row list" where
  "due_order t s = sort_key (\<lambda>r. (bo_OccurredOnUtc r, bo_Id r)) (filter (is_due t) (rows s))"

text \<open>A broker that takes what it is given when no call fails; \<open>sent\<close> are the messages it took, in their order.\<close>

definition takes :: "(envelope \<Rightarrow> ('b, unit) act) \<Rightarrow> ('b \<Rightarrow> envelope list) \<Rightarrow> bool" where
  "takes publish sent \<longleftrightarrow>
     (\<forall>e E b. outcomes E = [] \<longrightarrow>
        (\<exists>E' b'. publish e (E, b) = (Inr (), E', b') \<and> outcomes E' = [] \<and> sent b' = sent b @ [e]))"

lemma publish_sends:
  assumes "takes publish sent" "outcomes E = []"
  shows "\<exists>E' b. relay_publish opt (pg_relay_store P) (\<lambda>e. on_broker (publish e)) etext j (message_of r) (E, s)
    = (Inr True, E', \<lparr>rw_DB = (rw_DB s)\<lparr>BasketOutbox := filter (\<lambda>q. bo_Id q \<noteq> bo_Id r) (rows s)\<rparr>, rw_Broker = b\<rparr>)
    \<and> outcomes E' = [] \<and> sent b = sent (rw_Broker s) @ [message_env r]"
proof -
  from assms obtain E' b where
    p: "publish (message_env r) (E, rw_Broker s) = (Inr (), E', b)" "outcomes E' = []" "sent b = sent (rw_Broker s) @ [message_env r]"
    unfolding takes_def by blast
  then show ?thesis
    by (cases s) (simp add: relay_publish_def andthen_def attempt_def on_broker_def zoom_def
        update_ok pg_relay_store_def on_db_def pg_DeleteMessage_def on_err_def ret_def)
qed

lemma loop_sends:
  assumes "takes publish sent" "outcomes E = []" "\<forall>n. \<not> st n"
  shows "\<exists>E' b. relay_loop st (\<lambda>n. relay_publish opt (pg_relay_store P) (\<lambda>e. on_broker (publish e)) etext (j n))
      n k (map message_of rs) (E, s)
    = (Inr (k + length rs, None), E',
       \<lparr>rw_DB = (rw_DB s)\<lparr>BasketOutbox := filter (\<lambda>q. bo_Id q \<notin> bo_Id ` set rs) (rows s)\<rparr>, rw_Broker = b\<rparr>)
    \<and> outcomes E' = [] \<and> sent b = sent (rw_Broker s) @ map message_env rs"
  using assms(2)
proof (induction rs arbitrary: n k s E)
  case Nil
  then show ?case by (cases s) (simp add: ret_def)
next
  case (Cons r rs)
  have f: "(\<lambda>q. bo_Id q \<noteq> bo_Id r \<and> bo_Id q \<notin> bo_Id ` set rs) = (\<lambda>q. bo_Id q \<notin> bo_Id ` set (r # rs))" by auto
  from publish_sends [OF assms(1) Cons.prems, of opt P etext "j n" r s] obtain E1 b1 where
    1: "relay_publish opt (pg_relay_store P) (\<lambda>e. on_broker (publish e)) etext (j n) (message_of r) (E, s)
      = (Inr True, E1, \<lparr>rw_DB = (rw_DB s)\<lparr>BasketOutbox := filter (\<lambda>q. bo_Id q \<noteq> bo_Id r) (rows s)\<rparr>, rw_Broker = b1\<rparr>)"
    "outcomes E1 = []" "sent b1 = sent (rw_Broker s) @ [message_env r]" by blast
  from Cons.IH [OF 1(2), of "Suc n" "k + 1"
      "\<lparr>rw_DB = (rw_DB s)\<lparr>BasketOutbox := filter (\<lambda>q. bo_Id q \<noteq> bo_Id r) (rows s)\<rparr>, rw_Broker = b1\<rparr>"] 1 assms(3) f
  show ?case by (simp add: andthen_def attempt_def conj_commute)
qed

lemma cycle_sends:
  assumes "takes publish sent" "outcomes E = []" "\<forall>n. \<not> st n"
  shows "\<exists>r E' b. relay_ProcessOnce opt (pg_relay_store P) (\<lambda>e. on_broker (publish e)) etext j st (E, s)
    = (r, E', \<lparr>rw_DB = (rw_DB s)\<lparr>BasketOutbox :=
          filter (\<lambda>q. bo_Id q \<notin> bo_Id ` set (take (ro_BatchSize opt) (due_order (pg_time P (now E)) s))) (rows s)\<rparr>,
        rw_Broker = b\<rparr>)
    \<and> sent b = sent (rw_Broker s) @ map message_env (take (ro_BatchSize opt) (due_order (pg_time P (now E)) s))"
proof -
  let ?rs = "take (ro_BatchSize opt) (due_order (pg_time P (now E)) s)"
  have "on_db (pg_Due P (ro_BatchSize opt) (now E)) (E, s) = (Inr (map message_of ?rs), E, s)"
    using assms
    by (cases s) (simp add: on_db_def zoom_def pg_Due_def on_err_def query_ok due_rows_def due_order_def)
  then have "relay_ProcessOnce opt (pg_relay_store P) (\<lambda>e. on_broker (publish e)) etext j st (E, s)
      = relay_loop st (\<lambda>n. relay_publish opt (pg_relay_store P) (\<lambda>e. on_broker (publish e)) etext (j n)) 0 0
          (map message_of ?rs) (E, s)"
    by (simp add: relay_ProcessOnce_def andthen_def time_now_def attempt_def pg_relay_store_def)
  with loop_sends [OF assms, of opt P etext j 0 0 ?rs s] show ?thesis by auto
qed

lemma distinct_filter_take: "distinct ys \<Longrightarrow> filter (\<lambda>y. y \<notin> set (take n ys)) ys = drop n ys"
proof -
  assume d: "distinct ys"
  let ?P = "\<lambda>y. y \<notin> set (take n ys)"
  have "filter ?P ys = filter ?P (take n ys) @ filter ?P (drop n ys)"
    by (metis append_take_drop_id filter_append)
  also have "filter ?P (take n ys) = []" by (simp add: filter_empty_conv)
  also have "filter ?P (drop n ys) = drop n ys"
    using set_take_disj_set_drop_if_distinct [OF d, of n n] by (auto simp: filter_id_conv)
  finally show ?thesis by simp
qed

lemma due_order_ids:
  assumes "distinct (map bo_Id (rows s))"
  shows "distinct (due_order t s)" "set (due_order t s) = {r \<in> set (rows s). is_due t r}"
    "A \<subseteq> set (due_order t s) \<Longrightarrow> q \<in> set (rows s) \<Longrightarrow> bo_Id q \<in> bo_Id ` A \<longleftrightarrow> q \<in> A"
proof -
  show "distinct (due_order t s)" using assms by (simp add: due_order_def distinct_map)
  show s: "set (due_order t s) = {r \<in> set (rows s). is_due t r}" by (auto simp: due_order_def)
  show "bo_Id q \<in> bo_Id ` A \<longleftrightarrow> q \<in> A" if "A \<subseteq> set (due_order t s)" "q \<in> set (rows s)"
    using assms that s by (auto simp: distinct_map dest: inj_onD)
qed

text \<open>What is due stays due, so the rows due earlier stand in the order of those due later.\<close>

lemma due_order_earlier: "t \<le> t' \<Longrightarrow> due_order t s = filter (is_due t) (due_order t' s)"
proof -
  assume "t \<le> t'"
  then have "is_due t r \<and> is_due t' r \<longleftrightarrow> is_due t r" for r by (auto simp: is_due_def)
  then show ?thesis by (simp add: due_order_def filter_sort conj_commute)
qed

text \<open>One cycle at \<open>t'\<close>, as the rows due at \<open>t\<close> see it.\<close>

lemma due_order_after:
  assumes "distinct (map bo_Id (rows s))" "t \<le> t'"
    and "rows s' = filter (\<lambda>q. bo_Id q \<notin> bo_Id ` set (take n (due_order t' s))) (rows s)"
  shows "rows s' = filter (\<lambda>q. q \<notin> set (take n (due_order t' s))) (rows s)"
    and "due_order t s = filter (is_due t) (take n (due_order t' s)) @ due_order t s'"
    and "length (due_order t' s) < n \<Longrightarrow> due_order t s' = []"
    and "n \<le> length (due_order t' s) \<Longrightarrow> length (filter (\<lambda>r. bo_PoisonedOnUtc r = None) (rows s'))
      = length (filter (\<lambda>r. bo_PoisonedOnUtc r = None) (rows s)) - n"
proof -
  let ?D = "due_order t' s" and ?ok = "\<lambda>r. bo_PoisonedOnUtc r = None"
  let ?A = "set (take n ?D)"
  have sub: "?A \<subseteq> set ?D" by (rule set_take_subset)
  show r: "rows s' = filter (\<lambda>q. q \<notin> ?A) (rows s)"
    unfolding assms(3) by (rule filter_cong) (simp_all add: due_order_ids(3) [OF assms(1) sub])
  have "due_order t s' = filter (\<lambda>q. q \<notin> ?A) (due_order t s)"
    unfolding due_order_def r filter_sort by (simp add: conj_commute)
  also have "\<dots> = filter (is_due t) (filter (\<lambda>q. q \<notin> ?A) ?D)"
    unfolding due_order_earlier [OF assms(2)] by (simp add: conj_commute)
  also have "filter (\<lambda>q. q \<notin> ?A) ?D = drop n ?D"
    by (rule distinct_filter_take [OF due_order_ids(1) [OF assms(1)]])
  finally have d: "due_order t s' = filter (is_due t) (drop n ?D)" .
  show "due_order t s = filter (is_due t) (take n ?D) @ due_order t s'"
    unfolding d due_order_earlier [OF assms(2), of s] by (simp only: filter_append [symmetric] append_take_drop_id)
  show "due_order t s' = []" if "length ?D < n" using d that by simp
  show "length (filter ?ok (rows s')) = length (filter ?ok (rows s)) - n" if n: "n \<le> length ?D"
  proof -
    have ds: "distinct (rows s)" using assms(1) by (simp add: distinct_map)
    have A: "?A \<subseteq> set (filter ?ok (rows s))"
      using sub due_order_ids(2) [OF assms(1), of t'] by (auto simp: is_due_def)
    have "length (filter ?ok (rows s')) = card (set (filter ?ok (rows s) ) - ?A)"
      using distinct_card [of "filter ?ok (rows s')"] ds by (simp add: r set_diff_eq conj_commute conj_left_commute)
    also have "\<dots> = length (filter ?ok (rows s)) - card ?A"
      using A ds by (simp add: card_Diff_subset distinct_card del: set_filter)
    also have "card ?A = n"
      using due_order_ids(1) [OF assms(1), of t'] n by (simp add: distinct_card)
    finally show ?thesis .
  qed
qed

lemma relay_drains:
  assumes "takes publish sent" "distinct (map bo_Id (rows s))"
    and "\<forall>c \<in> set cs. outcomes (cy_Env c) = [] \<and> t \<le> pg_time P (now (cy_Env c)) \<and> (\<forall>n. \<not> cy_Stopped c n)"
    and "due_order t s = [] \<or>
      length (filter (\<lambda>r. bo_PoisonedOnUtc r = None) (rows s)) \<le> length cs * ro_BatchSize opt"
    and "basket_relay opt P publish etext cs s = s'"
  shows "\<exists>ps. distinct ps \<and> filter (is_due t) ps = due_order t s \<and>
    (\<forall>r \<in> set ps. r \<in> set (rows s) \<and> (\<exists>c \<in> set cs. is_due (pg_time P (now (cy_Env c))) r)) \<and>
    rw_DB s' = (rw_DB s)\<lparr>BasketOutbox := filter (\<lambda>r. r \<notin> set ps) (rows s)\<rparr> \<and>
    sent (rw_Broker s') = sent (rw_Broker s) @ map message_env ps"
  using assms(2-)
proof (induction cs arbitrary: s)
  case Nil
  have "due_order t s = []"
  proof (cases "due_order t s = []")
    case False
    with Nil.prems(3) have "filter (\<lambda>r. bo_PoisonedOnUtc r = None) (rows s) = []" by simp
    then show ?thesis by (auto simp: due_order_def is_due_def filter_empty_conv)
  qed
  with Nil.prems(4) show ?case by (intro exI [of _ "[]"]) (auto simp: basket_relay_def)
next
  case (Cons c cs)
  let ?t = "pg_time P (now (cy_Env c))" and ?n = "ro_BatchSize opt"
  let ?ps = "take ?n (due_order ?t s)"
  have c: "outcomes (cy_Env c) = []" "\<forall>n. \<not> cy_Stopped c n" "t \<le> ?t" using Cons.prems(2) by auto
  from cycle_sends [OF assms(1) c(1,2), of opt P etext "cy_Jitter c" s] obtain r E b where
    1: "relay_ProcessOnce opt (pg_relay_store P) (\<lambda>e. on_broker (publish e)) etext (cy_Jitter c) (cy_Stopped c) (cy_Env c, s)
      = (r, E, \<lparr>rw_DB = (rw_DB s)\<lparr>BasketOutbox := filter (\<lambda>q. bo_Id q \<notin> bo_Id ` set ?ps) (rows s)\<rparr>, rw_Broker = b\<rparr>)"
    and b: "sent b = sent (rw_Broker s) @ map message_env ?ps" by blast
  define s1 where "s1 = \<lparr>rw_DB = (rw_DB s)\<lparr>BasketOutbox := filter (\<lambda>q. bo_Id q \<notin> bo_Id ` set ?ps) (rows s)\<rparr>, rw_Broker = b\<rparr>"
  have r1: "rows s1 = filter (\<lambda>q. bo_Id q \<notin> bo_Id ` set ?ps) (rows s)" by (simp add: s1_def)
  note after = due_order_after [OF Cons.prems(1) c(3) r1]
  have step: "basket_relay opt P publish etext cs s1 = s'"
    using Cons.prems(4) 1 by (simp add: basket_relay_def s1_def)
  have d1: "distinct (map bo_Id (rows s1))" unfolding r1 using Cons.prems(1) by (simp add: distinct_map inj_on_def)
  have "due_order t s1 = [] \<or> length (filter (\<lambda>r. bo_PoisonedOnUtc r = None) (rows s1)) \<le> length cs * ?n"
  proof (cases "due_order t s = [] \<or> length (due_order ?t s) < ?n")
    case True
    with after(2,3) show ?thesis by auto
  next
    case False
    with Cons.prems(3) after(4) show ?thesis by auto
  qed
  from Cons.IH [OF d1 _ this step] Cons.prems(2) obtain ps where
    ps: "distinct ps" "filter (is_due t) ps = due_order t s1"
      "\<forall>r \<in> set ps. r \<in> set (rows s1) \<and> (\<exists>c \<in> set cs. is_due (pg_time P (now (cy_Env c))) r)"
      "rw_DB s' = (rw_DB s1)\<lparr>BasketOutbox := filter (\<lambda>r. r \<notin> set ps) (rows s1)\<rparr>"
      "sent (rw_Broker s') = sent (rw_Broker s1) @ map message_env ps" by auto
  have db: "(rw_DB s1)\<lparr>BasketOutbox := x\<rparr> = (rw_DB s)\<lparr>BasketOutbox := x\<rparr>" "rw_Broker s1 = b" for x
    by (simp_all add: s1_def)
  have P: "set ?ps \<subseteq> {r \<in> set (rows s). is_due ?t r}"
    using set_take_subset [of ?n "due_order ?t s"] due_order_ids(2) [OF Cons.prems(1), of ?t] by blast
  show ?case
  proof (intro exI [of _ "?ps @ ps"] conjI)
    have "set ps \<inter> set ?ps = {}" using ps(3) after(1) by auto
    then show "distinct (?ps @ ps)"
      using ps(1) due_order_ids(1) [OF Cons.prems(1), of ?t] by (auto intro: distinct_take)
    show "filter (is_due t) (?ps @ ps) = due_order t s" using ps(2) after(2) by simp
    show "\<forall>r \<in> set (?ps @ ps). r \<in> set (rows s) \<and> (\<exists>c \<in> set (c # cs). is_due (pg_time P (now (cy_Env c))) r)"
      using P ps(3) after(1) by auto
    show "rw_DB s' = (rw_DB s)\<lparr>BasketOutbox := filter (\<lambda>r. r \<notin> set (?ps @ ps)) (rows s)\<rparr>"
      unfolding ps(4) db(1) after(1) by (simp add: conj_commute)
    show "sent (rw_Broker s') = sent (rw_Broker s) @ map message_env (?ps @ ps)"
      unfolding ps(5) db(2) b by simp
  qed
qed

text \<open>
  C20. The relay catches up: over cycles in which no call fails and nothing stops it, as many as their batches can
  hold the rows not given up on, with any broker that takes what it is given, and however the clock goes on
  from \<open>t\<close>, it publishes each message that was due at \<open>t\<close> exactly once, those in the order in which the checkouts
  happened. What else it publishes became due while it ran; exactly the rows of what it published are gone, and
  no basket is touched.
\<close>

theorem relay_drains_in_order:
  assumes "takes publish sent" "distinct (map bo_Id (rows s))"
    and "\<forall>c \<in> set cs. outcomes (cy_Env c) = [] \<and> t \<le> pg_time P (now (cy_Env c)) \<and> (\<forall>n. \<not> cy_Stopped c n)"
    and "length (filter (\<lambda>r. bo_PoisonedOnUtc r = None) (rows s)) \<le> length cs * ro_BatchSize opt"
    and "basket_relay opt P publish etext cs s = s'"
  shows "\<exists>ps. distinct ps \<and>
    filter (is_due t) ps = sort_key (\<lambda>r. (bo_OccurredOnUtc r, bo_Id r)) (filter (is_due t) (rows s)) \<and>
    (\<forall>r \<in> set ps. r \<in> set (rows s) \<and> (\<exists>c \<in> set cs. is_due (pg_time P (now (cy_Env c))) r)) \<and>
    rw_DB s' = (rw_DB s)\<lparr>BasketOutbox := filter (\<lambda>r. r \<notin> set ps) (rows s)\<rparr> \<and>
    sent (rw_Broker s') = sent (rw_Broker s) @ map message_env ps"
  using relay_drains [OF assms(1-3) _ assms(5)] assms(4) by (simp add: due_order_def)

lemma log_takes: "takes log_publish (\<lambda>b. b)"
  by (simp add: takes_def log_publish_def update_ok)

lemma sample_due: "is_due 1000 sample_row" "due_order 1000 sample_world = [sample_row]"
  by (simp_all add: is_due_def sample_row_def due_order_def sample_world_def)

text \<open>Two rows and two cycles of one message each, a second apart; the later row only becomes due in between.\<close>

definition two_rows :: "envelope list relay_world" where
  "two_rows = sample_world\<lparr>rw_DB := \<lparr>Baskets = Map.empty,
     BasketOutbox = [sample_row\<lparr>bo_Id := 8, bo_OccurredOnUtc := 4, bo_NextAttemptOnUtc := 2000\<rparr>, sample_row]\<rparr>\<rparr>"

definition one_at_a_time :: relay_options where
  "one_at_a_time = DefaultOptions\<lparr>ro_BatchSize := 1\<rparr>"

definition later_cycle :: cycle where
  "later_cycle = sample_cycle\<lparr>cy_Env := sample_env\<lparr>now := 3000\<rparr>\<rparr>"

theorem relay_drains_in_order_witness:
  "let s' = basket_relay one_at_a_time sample_pg log_publish (\<lambda>e. '''') [sample_cycle, later_cycle] two_rows in
     message_env sample_row \<in> set (rw_Broker s') \<and> sample_row \<notin> set (rows s')"
proof -
  let ?cs = "[sample_cycle, later_cycle]"
  have 1: "distinct (map bo_Id (rows two_rows))" by (simp add: two_rows_def sample_row_def)
  have 2: "\<forall>c \<in> set ?cs. outcomes (cy_Env c) = [] \<and> 1000 \<le> pg_time sample_pg (now (cy_Env c)) \<and> (\<forall>n. \<not> cy_Stopped c n)"
    by (simp add: sample_cycle_def later_cycle_def sample_pg_def sample_env_def)
  have 3: "length (filter (\<lambda>r. bo_PoisonedOnUtc r = None) (rows two_rows)) \<le> length ?cs * ro_BatchSize one_at_a_time"
    by (simp add: two_rows_def one_at_a_time_def sample_row_def)
  have d: "filter (is_due 1000) (rows two_rows) = [sample_row]"
    using sample_due(1) by (simp add: two_rows_def is_due_def)
  from relay_drains_in_order [OF log_takes 1 2 3 refl, of "\<lambda>e. ''''"] obtain ps where
    ps: "filter (is_due 1000) ps = [sample_row]"
      "rows (basket_relay one_at_a_time sample_pg log_publish (\<lambda>e. '''') ?cs two_rows) = filter (\<lambda>r. r \<notin> set ps) (rows two_rows)"
      "rw_Broker (basket_relay one_at_a_time sample_pg log_publish (\<lambda>e. '''') ?cs two_rows) = rw_Broker two_rows @ map message_env ps"
    unfolding d by auto
  from ps(1) have "sample_row \<in> set ps" by (metis filter_is_subset list.set_intros(1) subsetD)
  with ps(2,3) show ?thesis by (simp add: Let_def)
qed

subsection \<open>A reason that cannot be stored\<close>

definition publish_refuses :: "(envelope \<Rightarrow> ('b, unit) act) \<Rightarrow> envelope \<Rightarrow> go_error \<Rightarrow> bool" where
  "publish_refuses publish e err \<longleftrightarrow> (\<forall>E b. publish e (E, b) = (Inl err, E, b))"

text \<open>
  C21. One message can stop the relay for good: the reason of a failed attempt is cut after 2000 bytes,
  which can leave half a character, and PostgreSQL refuses such a text. Then neither the attempt nor
  the next time to try is recorded, the cycle ends with an error before the messages behind it, and
  every later cycle starts with the same message again; nothing is published, however many follow.
\<close>

theorem cut_reason_stops_the_relay:
  assumes "publish_refuses publish (message_env r) err" "\<not> is_context_error err"
    and "\<not> pg_text P (truncate_reason (etext err))"
    and "\<forall>c \<in> set cs. outcomes (cy_Env c) = [] \<and> \<not> cy_Stopped c 0 \<and>
      (\<exists>rs. due_rows (ro_BatchSize opt) (pg_time P (now (cy_Env c))) (rw_DB s) = r # rs)"
  shows "basket_relay opt P publish etext cs s = s"
  using assms(4)
proof (induction cs)
  case Nil
  then show ?case by (simp add: basket_relay_def)
next
  case (Cons c cs)
  let ?E = "cy_Env c"
  from Cons.prems obtain rs where o: "outcomes ?E = []" "\<not> cy_Stopped c 0"
    and d: "due_rows (ro_BatchSize opt) (pg_time P (now ?E)) (rw_DB s) = r # rs" by auto
  have due: "on_db (pg_Due P (ro_BatchSize opt) (now ?E)) (?E, s) = (Inr (map message_of (r # rs)), ?E, s)"
    using o d by (cases s) (simp add: on_db_def zoom_def pg_Due_def on_err_def query_ok)
  have p: "on_broker (publish (message_env r)) (?E, s) = (Inl err, ?E, s)"
    using assms(1) by (cases s) (simp add: on_broker_def zoom_def publish_refuses_def)
  have "\<exists>e. relay_publish opt (pg_relay_store P) (\<lambda>e. on_broker (publish e)) etext (cy_Jitter c 0) (message_of r) (?E, s)
      = (Inl e, ?E, s)"
    using p assms(2,3) o
    by (cases s) (simp add: relay_publish_def andthen_def attempt_def pg_relay_store_def on_db_def zoom_def
        pg_Poison_def pg_Fail_def on_err_def pg_stmt_def call_ok time_now_def Let_def)
  then obtain e where "relay_publish opt (pg_relay_store P) (\<lambda>e. on_broker (publish e)) etext (cy_Jitter c 0)
      (message_of r) (?E, s) = (Inl e, ?E, s)" ..
  with due o have "relay_ProcessOnce opt (pg_relay_store P) (\<lambda>e. on_broker (publish e)) etext (cy_Jitter c)
      (cy_Stopped c) (?E, s) = (Inr (0, Some e), ?E, s)"
    by (simp add: relay_ProcessOnce_def andthen_def time_now_def attempt_def pg_relay_store_def ret_def)
  with Cons.IH Cons.prems show ?case by (simp add: basket_relay_def)
qed

definition refusing :: "envelope \<Rightarrow> (envelope list, unit) act" where
  "refusing e = fail (Plain (Fmt ''refused'' []))"

text \<open>A reason of 1999 letters and one character of two bytes.\<close>

definition long_reason :: "go_error \<Rightarrow> string" where
  "long_reason e = replicate 1999 CHR ''a'' @ [CHR 0xC3, CHR 0xBC]"

lemma valid_utf8_ascii_append: "ascii s \<Longrightarrow> valid_utf8 (s @ t) = s @ valid_utf8 t"
proof (induction s)
  case Nil
  then show ?case by simp
next
  case (Cons c s)
  moreover from Cons.prems have "rune_length (c # s @ t) = 1"
    by (simp add: rune_length_def ascii_def Let_def)
  ultimately show ?case by (simp add: ascii_def)
qed

lemma long_reason_texts:
  "utf8_ok (long_reason e)" "\<not> utf8_ok (truncate_reason (long_reason e))"
proof -
  have a: "ascii (replicate 1999 CHR ''a'')" by (simp add: ascii_def list_all_iff byte_in_def)
  have "valid_utf8 [CHR 0xC3, CHR 0xBC] = [CHR 0xC3, CHR 0xBC]"
    by (simp add: rune_length_def byte_in_def Let_def)
  then show "utf8_ok (long_reason e)"
    by (simp add: utf8_ok_def long_reason_def valid_utf8_ascii_append [OF a] del: valid_utf8.simps)
  have t: "truncate_reason (long_reason e) = replicate 1999 CHR ''a'' @ [CHR 0xC3]"
    by (simp add: truncate_reason_def long_reason_def maxReason_def)
  have "valid_utf8 [CHR 0xC3] \<noteq> [CHR 0xC3]"
    by (simp add: rune_length_def byte_in_def Let_def)
  then show "\<not> utf8_ok (truncate_reason (long_reason e))"
    by (simp add: utf8_ok_def t valid_utf8_ascii_append [OF a] del: valid_utf8.simps)
qed

theorem cut_reason_stops_the_relay_witness:
  "utf8_ok (long_reason (Plain (Fmt ''refused'' []))) \<and>
   basket_relay DefaultOptions sample_pg refusing long_reason (replicate 3 sample_cycle) sample_world = sample_world"
proof -
  let ?err = "Plain (Fmt ''refused'' [])"
  have 1: "publish_refuses refusing (message_env sample_row) ?err"
    by (simp add: publish_refuses_def refusing_def fail_def)
  have 2: "\<not> is_context_error ?err" by (simp add: is_context_error_def)
  have 3: "\<not> pg_text sample_pg (truncate_reason (long_reason ?err))"
    using long_reason_texts by (simp add: sample_pg_def)
  have 4: "\<forall>c \<in> set (replicate 3 sample_cycle). outcomes (cy_Env c) = [] \<and> \<not> cy_Stopped c 0 \<and>
      (\<exists>rs. due_rows (ro_BatchSize DefaultOptions) (pg_time sample_pg (now (cy_Env c))) (rw_DB sample_world)
         = sample_row # rs)"
    using sample_due
    by (auto simp: sample_cycle_def due_rows_def due_order_def DefaultOptions_def sample_pg_def sample_env_def)
  have "basket_relay DefaultOptions sample_pg refusing long_reason (replicate 3 sample_cycle) sample_world = sample_world"
    by (rule cut_reason_stops_the_relay [where err = ?err and r = sample_row]) (rule 1 2 3 4)+
  with long_reason_texts show ?thesis by simp
qed

subsection \<open>The wait between attempts\<close>

lemma jitter_bound:
  fixes x m j :: rat
  assumes "0 \<le> x" "x \<le> m" "j < 1"
  shows "x + x * (1 / 5) * j \<le> 6 / 5 * m"
proof -
  have "x * j \<le> x * 1" using assms by (intro mult_left_mono) auto
  with assms(2) show ?thesis by simp
qed

text \<open>
  The wait before the next attempt is at least the base delay and grows with every attempt, and
  exceeds the ceiling only by the jitter, a fifth of it at most.
\<close>

theorem relay_backoff_bounds:
  assumes "0 \<le> jitter" "jitter < 1" "0 \<le> ro_RetryBaseDelay opt" "ro_RetryBaseDelay opt \<le> ro_RetryMaxDelay opt"
    and "1 \<le> attempts"
  shows "ro_RetryBaseDelay opt \<le> relay_backoff opt attempts jitter \<and>
    relay_backoff opt attempts 0 \<le> relay_backoff opt (attempts + 1) jitter \<and>
    relay_backoff opt attempts 0 \<le> ro_RetryMaxDelay opt \<and>
    5 * relay_backoff opt attempts jitter \<le> 6 * ro_RetryMaxDelay opt"
proof -
  let ?b = "of_int (ro_RetryBaseDelay opt) :: rat" and ?m = "of_int (ro_RetryMaxDelay opt) :: rat"
  let ?d = "\<lambda>n. min (?b * 2 ^ min (n - 1) 10) ?m"
  have b: "0 \<le> ?b" "?b \<le> ?m" using assms(3,4) by simp_all
  have grow: "?b \<le> ?b * 2 ^ k" for k using b(1) mult_left_mono [of 1 "2 ^ k" ?b] by simp
  have d: "?b \<le> ?d n" "?d n \<le> ?m" "0 \<le> ?d n" for n using b grow [of "min (n - 1) 10"] by (auto simp: min_le_iff_disj)
  have mono: "?d attempts \<le> ?d (attempts + 1)"
    using b(1) by (intro min.mono mult_left_mono power_increasing) auto
  have j: "?d n \<le> ?d n + ?d n * (1 / 5) * jitter" for n using d(3) [of n] assms(1) by simp
  have u: "?d n + ?d n * (1 / 5) * jitter \<le> 6 / 5 * ?m" for n
    by (rule jitter_bound) (use d(2,3) assms(2) in auto)
  have "5 * relay_backoff opt attempts jitter \<le> 6 * ro_RetryMaxDelay opt"
  proof -
    have "of_int (relay_backoff opt attempts jitter) \<le> ?d attempts + ?d attempts * (1 / 5) * jitter"
      unfolding relay_backoff_def Let_def by (rule of_int_floor_le)
    from order_trans [OF this u]
    have "(of_int (5 * relay_backoff opt attempts jitter) :: rat) \<le> of_int (6 * ro_RetryMaxDelay opt)" by simp
    then show ?thesis by (simp only: of_int_le_iff)
  qed
  moreover have "ro_RetryBaseDelay opt \<le> relay_backoff opt attempts jitter"
    unfolding relay_backoff_def Let_def le_floor_iff
    by (rule order_trans [OF d(1) [of attempts] j [of attempts]])
  moreover have "relay_backoff opt attempts 0 \<le> relay_backoff opt (attempts + 1) jitter"
  proof -
    have "?d attempts + ?d attempts * (1 / 5) * 0 \<le> ?d (attempts + 1) + ?d (attempts + 1) * (1 / 5) * jitter"
      using order_trans [OF mono j [of "attempts + 1"]] by (simp only: mult_zero_right add_0_right)
    then show ?thesis unfolding relay_backoff_def Let_def by (rule floor_mono)
  qed
  moreover have "relay_backoff opt attempts 0 \<le> ro_RetryMaxDelay opt"
  proof -
    have "\<lfloor>?d attempts + ?d attempts * (1 / 5) * 0\<rfloor> \<le> \<lfloor>?m\<rfloor>"
      by (rule floor_mono) (use d(2) [of attempts] in \<open>simp only: mult_zero_right add_0_right\<close>)
    then show ?thesis by (simp only: relay_backoff_def Let_def floor_of_int)
  qed
  ultimately show ?thesis by blast
qed

theorem relay_backoff_bounds_witness:
  "5 * relay_backoff DefaultOptions 7 (1 / 2) \<le> 6 * ro_RetryMaxDelay DefaultOptions"
  using relay_backoff_bounds [of "1 / 2" DefaultOptions 7] by (simp add: DefaultOptions_def)

end
