(* ===== verification/Payment_Cards.thy ===== *)
theory Payment_Cards
  imports Http Postgres
begin

text \<open>
  The Payment service: \<open>internal/payment/cards\<close> (\<open>card.go\<close>, \<open>tokenize_card.go\<close>, \<open>routes.go\<close>) and its one
  table, \<open>internal/payment/postgres/repository.go\<close> with \<open>migrations/00001_create_cards.sql\<close>. The
  16 random bytes of a token are one draw of randomness of the environment. The clock of the
  handler is the clock of the environment.
\<close>

section \<open>Calendar\<close>

text \<open>
  \<open>time.Date\<close> in UTC on the proleptic Gregorian calendar, as nanoseconds since the day before 1 January
  of year 1. A month outside 1 to 12 is carried into the year.
\<close>

definition leap :: "int \<Rightarrow> bool" where
  "leap y \<longleftrightarrow> y mod 4 = 0 \<and> (y mod 100 \<noteq> 0 \<or> y mod 400 = 0)"

definition days_in :: "int \<Rightarrow> int \<Rightarrow> int" where
  "days_in y m =
     (if m = 2 then (if leap y then 29 else 28)
      else if m = 4 \<or> m = 6 \<or> m = 9 \<or> m = 11 then 30 else 31)"

definition days_before_year :: "int \<Rightarrow> int" where
  "days_before_year y = 365 * (y - 1) + (y - 1) div 4 - (y - 1) div 100 + (y - 1) div 400"

definition days_before_month :: "int \<Rightarrow> int \<Rightarrow> int" where
  "days_before_month y m = sum_list (map (days_in y) [1..m - 1])"

definition nanos_per_day :: int where
  "nanos_per_day = 24 * 60 * 60 * 10 ^ 9"

definition time_Date :: "int \<Rightarrow> int \<Rightarrow> int \<Rightarrow> time" where
  "time_Date y m d =
     (let y' = y + (m - 1) div 12; m' = (m - 1) mod 12 + 1
      in (days_before_year y' + days_before_month y' m' + d) * nanos_per_day)"

section \<open>Cards\<close>

record stored_card =
  cd_Token :: string
  cd_CardNumber :: string
  cd_Expiration :: string
  cd_CardName :: string

definition card_Last4 :: "stored_card \<Rightarrow> string" where
  "card_Last4 c = drop (length (cd_CardNumber c) - 4) (cd_CardNumber c)"

definition card_String :: "stored_card \<Rightarrow> string" where
  "card_String c = ''StoredCard{token: '' @ cd_Token c @ '', last4: '' @ card_Last4 c @ ''}''"

definition tokenPrefix :: string where
  "tokenPrefix = ''pt_''"

definition hex_digit :: "nat \<Rightarrow> char" where
  "hex_digit n = ''0123456789abcdef'' ! n"

definition hex_byte :: "8 word \<Rightarrow> string" where
  "hex_byte b = [hex_digit (unat b div 16), hex_digit (unat b mod 16)]"

definition EncodeToString :: "8 word list \<Rightarrow> string" where
  "EncodeToString bs = concat (map hex_byte bs)"

text \<open>The 16 random bytes, of which the draw is the big-endian number.\<close>

definition random_bytes :: "uuid \<Rightarrow> 8 word list" where
  "random_bytes random = map (\<lambda>i. ucast (drop_bit (8 * i) random)) (rev [0..<16])"

definition token_of :: "uuid \<Rightarrow> string" where
  "token_of random = tokenPrefix @ EncodeToString (random_bytes random)"

definition newToken :: "('s, string) act" where
  "newToken = andthen new_uuid (\<lambda>random. ret (token_of random))"

definition normalizeCardNumber :: "string \<Rightarrow> string" where
  "normalizeCardNumber = filter (\<lambda>c. c \<noteq> CHR '' '' \<and> c \<noteq> CHR ''-'')"

definition minCardDigits :: nat where "minCardDigits = 12"

definition maxCardDigits :: nat where "maxCardDigits = 19"

definition allDigits :: "string \<Rightarrow> bool" where
  "allDigits value = (value \<noteq> '''' \<and> list_all digit value)"

definition digit_value :: "char \<Rightarrow> int" where
  "digit_value c = of_char c - 48"

text \<open>The loop of \<open>validCardNumber\<close>, over the bytes from the last to the first.\<close>

fun luhn_loop :: "string \<Rightarrow> bool \<Rightarrow> int \<Rightarrow> int" where
  "luhn_loop [] double acc = acc"
| "luhn_loop (c # cs) double acc =
     (let d = digit_value c;
          d = (if double then (let d = d * 2 in if d > 9 then d - 9 else d) else d)
      in luhn_loop cs (\<not> double) (acc + d))"

definition validCardNumber :: "string \<Rightarrow> bool" where
  "validCardNumber number =
     (if length number < minCardDigits \<or> length number > maxCardDigits \<or> \<not> allDigits number then False
      else luhn_loop (rev number) False 0 mod 10 = 0)"

definition validCVV :: "string \<Rightarrow> bool" where
  "validCVV cvv = ((length cvv = 3 \<or> length cvv = 4) \<and> allDigits cvv)"

definition string_Cut :: "string \<Rightarrow> char \<Rightarrow> string \<times> string \<times> bool" where
  "string_Cut s c =
     (if c \<in> set s then (takeWhile (\<lambda>x. x \<noteq> c) s, drop 1 (dropWhile (\<lambda>x. x \<noteq> c) s), True)
      else (s, '''', False))"

definition expiryEnd :: "string \<Rightarrow> time option" where
  "expiryEnd expiration =
     (case string_Cut expiration CHR ''/'' of (month, year, found) \<Rightarrow>
        if \<not> found \<or> length month \<noteq> 2 \<or> length year \<noteq> 2 \<or> \<not> allDigits month \<or> \<not> allDigits year
        then None
        else
          (let m = (case Atoi month of Some i \<Rightarrow> i | None \<Rightarrow> 0);
               y = (case Atoi year of Some i \<Rightarrow> i | None \<Rightarrow> 0)
           in if m < 1 \<or> m > 12 then None else Some (time_Date (2000 + y) (m + 1) 1)))"

section \<open>The table\<close>

record card_row =
  cr_CardNumber :: string
  cr_Expiration :: string
  cr_CardName :: string
  cr_CreatedAt :: time

type_synonym cards_db = "string \<rightharpoonup> card_row"

definition unique_violation :: go_error where
  "unique_violation =
     Plain (Fmt ''duplicate key value violates unique constraint \"cards_pkey\"'' [])"

definition insert_card :: "postgres \<Rightarrow> stored_card \<Rightarrow> time \<Rightarrow> cards_db \<Rightarrow> (go_error + unit) \<times> cards_db" where
  "insert_card P c t db =
     (case db (cd_Token c) of
        Some r \<Rightarrow> (Inl unique_violation, db)
      | None \<Rightarrow>
          (Inr (), db(cd_Token c \<mapsto>
             \<lparr>cr_CardNumber = cd_CardNumber c, cr_Expiration = cd_Expiration c,
              cr_CardName = cd_CardName c, cr_CreatedAt = pg_time P t\<rparr>)))"

definition card_Store :: "postgres \<Rightarrow> stored_card \<Rightarrow> (cards_db, unit) act" where
  "card_Store P c =
     on_err (Wrapped (Fmt ''storing the card for token %s'' [ArgStr (cd_Token c)]))
       (pg_stmt P [cd_Token c, cd_CardNumber c, cd_Expiration c, cd_CardName c] (insert_card P c))"

section \<open>Exchanging a card for a token\<close>

record tokenize_command =
  tk_CardName :: string
  tk_CardNumber :: string
  tk_Expiration :: string
  tk_CVV :: string

record tokenize_result =
  tr_PaymentToken :: string
  tr_CardLast4 :: string

definition tokenize_String :: "tokenize_command \<Rightarrow> string" where
  "tokenize_String c = ''TokenizeCardCommand{card: [redacted]}''"

definition tokenize_MarshalJSON :: "tokenize_command \<Rightarrow> go_error + json" where
  "tokenize_MarshalJSON c = Inl (Plain (Fmt ''card details must not be serialized'' []))"

definition card_check :: "time \<Rightarrow> tokenize_command \<Rightarrow> string \<Rightarrow> go_error + unit" where
  "card_check t c number =
     (let fields = Map.empty;
          fields = (if \<not> validCardNumber number
                    then fields(''CardNumber'' \<mapsto> Fmt ''CardNumber is not a valid card number'' [])
                    else fields);
          fields = (case expiryEnd (tk_Expiration c) of
                      None \<Rightarrow> fields(''Expiration'' \<mapsto> Fmt ''Expiration must be MM/YY'' [])
                    | Some end_time \<Rightarrow>
                        if \<not> t < end_time then fields(''Expiration'' \<mapsto> Fmt ''the card has expired'' [])
                        else fields);
          fields = (if \<not> validCVV (tk_CVV c)
                    then fields(''CVV'' \<mapsto> Fmt ''CVV must be 3 or 4 digits'' []) else fields)
      in if fields \<noteq> Map.empty then Inl (Validation fields) else Inr ())"

definition TokenizeCard :: "(stored_card \<Rightarrow> ('s, unit) act) \<Rightarrow> ('s, tokenize_command, tokenize_result) handler" where
  "TokenizeCard store c =
     (let number = normalizeCardNumber (tk_CardNumber c) in
      andthen time_now (\<lambda>t.
      andthen (of_res (card_check t c number)) (\<lambda>_.
      andthen newToken (\<lambda>token.
      let card = \<lparr>cd_Token = token, cd_CardNumber = number, cd_Expiration = tk_Expiration c,
                  cd_CardName = TrimSpace (tk_CardName c)\<rparr> in
      andthen (store card) (\<lambda>_.
      ret \<lparr>tr_PaymentToken = cd_Token card, tr_CardLast4 = card_Last4 card\<rparr>)))))"

definition tokenize_fields :: "tokenize_command fields" where
  "tokenize_fields =
     [(''cardName'', field decode_string tk_CardName tk_CardName_update),
      (''cardNumber'', field decode_string tk_CardNumber tk_CardNumber_update),
      (''expiration'', field decode_string tk_Expiration tk_Expiration_update),
      (''cvv'', field decode_string tk_CVV tk_CVV_update)]"

definition tokenize_zero :: tokenize_command where
  "tokenize_zero = \<lparr>tk_CardName = '''', tk_CardNumber = '''', tk_Expiration = '''', tk_CVV = ''''\<rparr>"

definition tokenize_response :: "tokenize_result \<Rightarrow> json" where
  "tokenize_response r =
     JObj [(''paymentToken'', json_string (tr_PaymentToken r)), (''cardLast4'', json_string (tr_CardLast4 r))]"

text \<open>The route behind the pipeline that \<open>RegisterRoutes\<close> builds.\<close>

definition TokenizeCardRoute ::
  "(tokenize_command \<Rightarrow> verdict) \<Rightarrow> (stored_card \<Rightarrow> ('s, unit) act) \<Rightarrow> string \<Rightarrow> request_body
     \<Rightarrow> ('s, response) act" where
  "TokenizeCardRoute V store traceID b =
     respond traceID (\<lambda>r. respond_JSON 201 (tokenize_response r))
       (andthen (of_res (DecodeJSON (decode_struct tokenize_fields) tokenize_zero b))
          (Chain (TokenizeCard store) [Validating V]))"

end
