(* ===== verification/Payment.thy ===== *)
theory Payment
  imports Payment_Cards
begin

text \<open>
  What the Payment service promises: what the check digit catches, when a card has expired, that
  a stored card is exactly the accepted one under a token of its own, and that the security code
  leaves no trace.
\<close>

section \<open>The check digit\<close>

definition luhn_step :: "bool \<Rightarrow> int \<Rightarrow> int" where
  "luhn_step double d = (if double then (if d * 2 > 9 then d * 2 - 9 else d * 2) else d)"

lemma luhn_loop_Cons:
  "luhn_loop (c # cs) double acc = luhn_loop cs (\<not> double) (acc + luhn_step double (digit_value c))"
  by (simp add: luhn_step_def Let_def)

lemma luhn_loop_acc: "luhn_loop cs b (acc + k) = luhn_loop cs b acc + k"
proof (induction cs arbitrary: b acc)
  case (Cons c cs)
  show ?case
    using Cons.IH [of "\<not> b" "acc + luhn_step b (digit_value c)"]
    by (simp only: luhn_loop_Cons) (simp add: algebra_simps)
qed simp

lemma luhn_loop_update:
  "i < length cs \<Longrightarrow>
     luhn_loop (cs[i := c]) b acc =
       luhn_loop cs b acc + (luhn_step (b \<noteq> odd i) (digit_value c) - luhn_step (b \<noteq> odd i) (digit_value (cs ! i)))"
proof (induction cs arbitrary: b i acc)
  case (Cons x cs)
  show ?case
  proof (cases i)
    case 0
    have "luhn_loop cs (\<not> b) (acc + luhn_step b (digit_value c))
        = luhn_loop cs (\<not> b) (acc + luhn_step b (digit_value x))
            + (luhn_step b (digit_value c) - luhn_step b (digit_value x))"
      using luhn_loop_acc [of cs "\<not> b" "acc + luhn_step b (digit_value x)"
          "luhn_step b (digit_value c) - luhn_step b (digit_value x)"] by simp
    with 0 show ?thesis by (simp add: luhn_loop_Cons del: luhn_loop.simps)
  next
    case (Suc j)
    with Cons show ?thesis by (cases b) (simp_all add: luhn_loop_Cons del: luhn_loop.simps)
  qed
qed simp

lemma digit_value_bounds: "digit c \<Longrightarrow> 0 \<le> digit_value c \<and> digit_value c \<le> 9"
proof -
  have "(of_char c :: int) = int (of_char c)" by (simp add: of_nat_of_char)
  moreover assume "digit c"
  ultimately show ?thesis unfolding digit_def digit_value_def by linarith
qed

lemma digit_value_inj: "digit_value c = digit_value d \<Longrightarrow> c = d"
  by (simp add: digit_value_def of_char_eq_iff)

lemma digit_value_eq:
  "digit_value c = digit_value d \<longleftrightarrow> c = d"
  "digit_value c = 0 \<longleftrightarrow> c = CHR ''0''" "digit_value c = 9 \<longleftrightarrow> c = CHR ''9''"
proof -
  show "digit_value c = digit_value d \<longleftrightarrow> c = d" for d
    by (auto dest: digit_value_inj)
  from this [of "CHR ''0''"] this [of "CHR ''9''"]
  show "digit_value c = 0 \<longleftrightarrow> c = CHR ''0''" "digit_value c = 9 \<longleftrightarrow> c = CHR ''9''"
    by (simp_all add: digit_value_def)
qed

text \<open>The hundred pairs of digits.\<close>

lemma luhn_step_pairs:
  "\<forall>d \<in> set [True, False]. \<forall>a \<in> set [0..9]. \<forall>b \<in> set [0..9].
     ((luhn_step d a - luhn_step d b) mod 10 = 0 \<longrightarrow> a = b) \<and>
     ((luhn_step d b - luhn_step d a + (luhn_step (\<not> d) a - luhn_step (\<not> d) b)) mod 10 = 0
        \<longleftrightarrow> a = b \<or> a = 0 \<and> b = 9 \<or> a = 9 \<and> b = 0)"
  by code_simp

lemma luhn_step_pair:
  assumes "0 \<le> a" "a \<le> 9" "0 \<le> b" "b \<le> 9"
  shows "((luhn_step d a - luhn_step d b) mod 10 = 0 \<longrightarrow> a = b) \<and>
    ((luhn_step d b - luhn_step d a + (luhn_step (\<not> d) a - luhn_step (\<not> d) b)) mod 10 = 0
        \<longleftrightarrow> a = b \<or> a = 0 \<and> b = 9 \<or> a = 9 \<and> b = 0)"
proof -
  have "d \<in> set [True, False]" by simp
  moreover have "a \<in> set [0..9]" "b \<in> set [0..9]"
    using assms by (simp_all only: set_upto atLeastAtMost_iff simp_thms)
  ultimately show ?thesis by (rule luhn_step_pairs [THEN bspec, THEN bspec, THEN bspec])
qed

definition changed_digit :: "string \<Rightarrow> nat \<Rightarrow> char \<Rightarrow> string" where
  "changed_digit s i c = s[i := c]"

definition swapped :: "string \<Rightarrow> nat \<Rightarrow> string" where
  "swapped s i = s[i := s ! Suc i, Suc i := s ! i]"

definition luhn_sum :: "string \<Rightarrow> int" where
  "luhn_sum s = luhn_loop (rev s) False 0"

lemma luhn_sum_update:
  assumes "i < length s"
  shows "luhn_sum (s[i := c]) = luhn_sum s +
    (luhn_step (odd (length s - Suc i)) (digit_value c) - luhn_step (odd (length s - Suc i)) (digit_value (s ! i)))"
  using assms luhn_loop_update [of "length s - Suc i" "rev s" c False 0]
  by (simp add: luhn_sum_def rev_update rev_nth)

lemma luhn_sum_swapped:
  assumes "Suc i < length s"
  shows "luhn_sum (swapped s i) = luhn_sum s +
    (let d = odd (length s - Suc i); a = digit_value (s ! i); b = digit_value (s ! Suc i)
     in luhn_step d b - luhn_step d a + (luhn_step (\<not> d) a - luhn_step (\<not> d) b))"
proof -
  have "odd (length s - Suc (Suc i)) \<longleftrightarrow> \<not> odd (length s - Suc i)"
    using assms by (metis Suc_diff_Suc even_Suc)
  with assms show ?thesis
    using luhn_sum_update [of i s "s ! Suc i"] luhn_sum_update [of "Suc i" "s[i := s ! Suc i]" "s ! i"]
    by (simp add: swapped_def Let_def)
qed

lemma validCardNumber_sum:
  "validCardNumber s \<longleftrightarrow> 12 \<le> length s \<and> length s \<le> 19 \<and> list_all digit s \<and> luhn_sum s mod 10 = 0"
  by (auto simp: validCardNumber_def luhn_sum_def allDigits_def minCardDigits_def maxCardDigits_def)

lemma digit_at: "list_all digit s \<Longrightarrow> i < length s \<Longrightarrow> 0 \<le> digit_value (s ! i) \<and> digit_value (s ! i) \<le> 9"
  by (simp add: digit_value_bounds list_all_length)

lemma mod_10_step: "(a :: int) mod 10 = 0 \<Longrightarrow> (a + b) mod 10 = 0 \<longleftrightarrow> b mod 10 = 0"
  by presburger

lemma wrong_digit_is_caught:
  assumes "validCardNumber s" "i < length s" "c \<noteq> s ! i"
  shows "\<not> validCardNumber (changed_digit s i c)"
proof
  assume v: "validCardNumber (changed_digit s i c)"
  then have "list_all digit (s[i := c])" by (simp add: changed_digit_def validCardNumber_sum)
  from digit_at [OF this, of i] assms(2) have c: "0 \<le> digit_value c" "digit_value c \<le> 9" by simp_all
  have s: "0 \<le> digit_value (s ! i)" "digit_value (s ! i) \<le> 9" "luhn_sum s mod 10 = 0"
    using assms(1) digit_at [of s i] assms(2) by (simp_all add: validCardNumber_sum)
  have "luhn_sum (s[i := c]) mod 10 = 0" using v by (simp add: changed_digit_def validCardNumber_sum)
  with s(3) have "(luhn_step (odd (length s - Suc i)) (digit_value c)
      - luhn_step (odd (length s - Suc i)) (digit_value (s ! i))) mod 10 = 0"
    by (simp only: luhn_sum_update [OF assms(2)] mod_10_step)
  then have "digit_value c = digit_value (s ! i)"
    by (rule luhn_step_pair [OF c s(1,2), THEN conjunct1, THEN mp])
  with assms(3) show False by (simp add: digit_value_inj)
qed

lemma swapped_digits_are_caught:
  assumes "validCardNumber s" "Suc i < length s"
  shows "validCardNumber (swapped s i) \<longleftrightarrow>
    s ! i = s ! Suc i \<or> {s ! i, s ! Suc i} = {CHR ''0'', CHR ''9''}"
proof -
  let ?a = "digit_value (s ! i)" and ?b = "digit_value (s ! Suc i)"
  let ?d = "odd (length s - Suc i)"
  have l: "list_all digit s" "luhn_sum s mod 10 = 0" "12 \<le> length s" "length s \<le> 19"
    using assms(1) by (simp_all add: validCardNumber_sum)
  have d: "0 \<le> ?a" "?a \<le> 9" "0 \<le> ?b" "?b \<le> 9"
    using digit_at [OF l(1), of i] digit_at [OF l(1), of "Suc i"] assms(2) by simp_all
  have "list_all digit (swapped s i)" "length (swapped s i) = length s"
    using l(1) assms(2) by (auto simp: swapped_def list_all_length nth_list_update)
  then have "validCardNumber (swapped s i) \<longleftrightarrow> luhn_sum (swapped s i) mod 10 = 0"
    using l by (simp add: validCardNumber_sum)
  also have "\<dots> \<longleftrightarrow> (luhn_step ?d ?b - luhn_step ?d ?a + (luhn_step (\<not> ?d) ?a - luhn_step (\<not> ?d) ?b)) mod 10 = 0"
    by (simp only: luhn_sum_swapped [OF assms(2)] Let_def mod_10_step [OF l(2)])
  also have "\<dots> \<longleftrightarrow> ?a = ?b \<or> ?a = 0 \<and> ?b = 9 \<or> ?a = 9 \<and> ?b = 0"
    by (rule luhn_step_pair [OF d, THEN conjunct2])
  also have "\<dots> \<longleftrightarrow> s ! i = s ! Suc i \<or> {s ! i, s ! Suc i} = {CHR ''0'', CHR ''9''}"
    by (simp only: digit_value_eq doubleton_eq_iff)
  finally show ?thesis .
qed

text \<open>
  C25. One mistyped character in a card number is always noticed, at every position, the check digit at the
  end included; and two swapped neighbours are noticed unless they are 0 and 9, in either order: that exchange
  always passes the check.
\<close>

theorem typing_errors_are_caught:
  assumes "validCardNumber s"
  shows "(\<forall>i c. i < length s \<and> c \<noteq> s ! i \<longrightarrow> \<not> validCardNumber (changed_digit s i c)) \<and>
    (\<forall>i. Suc i < length s \<longrightarrow>
       (validCardNumber (swapped s i) \<longleftrightarrow>
          s ! i = s ! Suc i \<or> {s ! i, s ! Suc i} = {CHR ''0'', CHR ''9''}))"
  using wrong_digit_is_caught [OF assms] swapped_digits_are_caught [OF assms] by blast

theorem typing_errors_are_caught_witness:
  "\<not> validCardNumber (changed_digit ''5555555555554444'' 15 CHR ''5'') \<and>
   \<not> validCardNumber (changed_digit ''5555555555554444'' 11 CHR ''6'') \<and>
   \<not> validCardNumber (swapped ''5555555555554444'' 11) \<and> validCardNumber (swapped ''4000000000000903'' 12)"
proof -
  have v: "validCardNumber ''5555555555554444''" "validCardNumber ''4000000000000903''" by code_simp+
  from typing_errors_are_caught [OF v(1)]
  have w: "\<not> validCardNumber (changed_digit ''5555555555554444'' i c)"
    if "i < 16" "c \<noteq> ''5555555555554444'' ! i" for i c
    using that by simp
  from typing_errors_are_caught [OF v(1)] have "\<not> validCardNumber (swapped ''5555555555554444'' 11)"
    by (simp add: nth_Cons' doubleton_eq_iff)
  moreover from typing_errors_are_caught [OF v(2)] have "validCardNumber (swapped ''4000000000000903'' 12)"
    by (simp add: nth_Cons' doubleton_eq_iff)
  moreover have "\<not> validCardNumber (changed_digit ''5555555555554444'' 15 CHR ''5'')"
    "\<not> validCardNumber (changed_digit ''5555555555554444'' 11 CHR ''6'')"
    by (rule w; simp)+
  ultimately show ?thesis by blast
qed

section \<open>The calendar\<close>

text \<open>The first day of a month; months are counted from January of year 0.\<close>

definition first_day :: "int \<Rightarrow> int" where
  "first_day k = days_before_year (k div 12) + days_before_month (k div 12) (k mod 12 + 1) + 1"

definition month_length :: "int \<Rightarrow> int" where
  "month_length k = days_in (k div 12) (k mod 12 + 1)"

lemma time_Date_first_day: "time_Date y m d = (first_day (12 * y + m - 1) + d - 1) * nanos_per_day"
proof -
  have "12 * y + m - 1 = (m - 1) + y * 12" by simp
  then have "(12 * y + m - 1) div 12 = y + (m - 1) div 12" "(12 * y + m - 1) mod 12 = (m - 1) mod 12"
    by (simp_all only: div_mult_self1 mod_mult_self1)
  then show ?thesis by (simp add: time_Date_def first_day_def Let_def)
qed

lemma days_before_month_step:
  "1 \<le> m \<Longrightarrow> days_before_month y (m + 1) = days_before_month y m + days_in y m"
  by (simp add: days_before_month_def upto_rec2 [of 1 m])

lemma days_before_month_12: "days_before_month y 12 + 31 = (if leap y then 366 else 365)"
  by (simp add: days_before_month_def days_in_def upto.simps [of _ 11])

lemma div_step: "0 < n \<Longrightarrow> (y :: int) div n = (y - 1) div n + (if y mod n = 0 then 1 else 0)"
proof (cases "y mod n = 0")
  case True
  assume n: "0 < n"
  have "y - 1 = n * (y div n - 1) + (n - 1)"
    using True mult_div_mod_eq [of n y] by (simp add: algebra_simps)
  then have "(y - 1) div n = y div n - 1" by (rule int_div_pos_eq) (use n in simp_all)
  with True show ?thesis by simp
next
  case False
  assume n: "0 < n"
  with False have "0 < y mod n" "y mod n < n"
    using pos_mod_sign [of n y] pos_mod_bound [of n y] by linarith+
  moreover have "y - 1 = n * (y div n) + (y mod n - 1)"
    using mult_div_mod_eq [of n y] by simp
  ultimately have "(y - 1) div n = y div n"
    by (intro int_div_pos_eq [of "y - 1" n "y div n" "y mod n - 1"]) linarith+
  with False show ?thesis by simp
qed

lemma leap_count:
  fixes y a b c :: int
  assumes "a' = a + (if p then 1 else 0)" "b' = b + (if q then 1 else 0)" "c' = c + (if r then 1 else 0)"
    and "r \<longrightarrow> q" "q \<longrightarrow> p"
  shows "365 * y + a' - b' + c' = 365 * (y - 1) + a - b + c + (if p \<and> (\<not> q \<or> r) then 366 else 365)"
  using assms by (cases p; cases q; cases r) simp_all

lemma days_before_year_step: "days_before_year (y + 1) = days_before_year y + (if leap y then 366 else 365)"
proof -
  have m: "y mod 100 = (y mod 400) mod 100" "y mod 4 = (y mod 100) mod 4" by (simp_all add: mod_mod_cancel)
  have "y mod 400 = 0 \<longrightarrow> y mod 100 = 0" "y mod 100 = 0 \<longrightarrow> y mod 4 = 0"
    by (subst m, simp)+
  then show ?thesis
    unfolding days_before_year_def leap_def add_diff_cancel_right'
    by (intro leap_count div_step) simp_all
qed

lemma month_step:
  "k mod 12 = 11 \<Longrightarrow> (k + 1) div 12 = k div 12 + 1 \<and> (k + 1) mod 12 = (0 :: int)"
  "k mod 12 \<noteq> 11 \<Longrightarrow> (k + 1) div 12 = k div 12 \<and> (k + 1) mod 12 = k mod (12 :: int) + 1"
proof -
  have k: "k = 12 * (k div 12) + k mod 12" "0 \<le> k mod 12" "k mod 12 < 12" by simp_all
  show "k mod 12 = 11 \<Longrightarrow> (k + 1) div 12 = k div 12 + 1 \<and> (k + 1) mod 12 = 0"
    using k int_div_pos_eq [of "k + 1" 12 "k div 12 + 1" 0] int_mod_pos_eq [of "k + 1" 12 "k div 12 + 1" 0]
    by simp
  show "k mod 12 \<noteq> 11 \<Longrightarrow> (k + 1) div 12 = k div 12 \<and> (k + 1) mod 12 = k mod 12 + 1"
    using k int_div_pos_eq [of "k + 1" 12 "k div 12" "k mod 12 + 1"]
      int_mod_pos_eq [of "k + 1" 12 "k div 12" "k mod 12 + 1"]
    by simp
qed

lemma first_day_step: "first_day (k + 1) = first_day k + month_length k"
proof (cases "k mod 12 = 11")
  case True
  then have "(k + 1) div 12 = k div 12 + 1" "(k + 1) mod 12 = 0" by (simp_all add: month_step)
  moreover have "days_before_month (k div 12 + 1) 1 = 0" by (simp add: days_before_month_def)
  ultimately show ?thesis
    using True days_before_month_12 [of "k div 12"]
    by (simp add: first_day_def month_length_def days_before_year_step days_in_def)
next
  case False
  then have "(k + 1) div 12 = k div 12" "(k + 1) mod 12 = k mod 12 + 1" by (simp_all add: month_step)
  then show ?thesis
    using days_before_month_step [of "k mod 12 + 1" "k div 12"]
    by (simp add: first_day_def month_length_def)
qed

lemma month_length_pos: "28 \<le> month_length k"
  by (simp add: month_length_def days_in_def)

lemma first_day_mono: "j \<le> k \<Longrightarrow> first_day j \<le> first_day k"
proof (induction k rule: int_ge_induct)
  case (step k)
  with first_day_step [of k] month_length_pos [of k] show ?case by simp
qed simp

text \<open>A month and a year as they are printed on a card.\<close>

definition two_digits :: "nat \<Rightarrow> string" where
  "two_digits n = [char_of (48 + n div 10), char_of (48 + n mod 10)]"

definition printed :: "nat \<Rightarrow> nat \<Rightarrow> string" where
  "printed m y = two_digits m @ ''/'' @ two_digits y"

lemma two_digits_facts:
  assumes "n < 100"
  shows "allDigits (two_digits n)" "Atoi (two_digits n) = Some (int n)" "CHR ''/'' \<notin> set (two_digits n)"
proof -
  have d: "n div 10 < 10" using assms by simp
  then have l: "list_all digit (two_digits n)" by (simp add: two_digits_def digit_char)
  then show "allDigits (two_digits n)" by (simp add: allDigits_def two_digits_def)
  from l show "CHR ''/'' \<notin> set (two_digits n)" by (auto simp: list_all_iff digit_def)
  from l have "parse_digits (two_digits n) = Some (digits_value 0 (two_digits n))"
    by (simp add: parse_digits_def two_digits_def)
  moreover have "digits_value 0 (two_digits n) = n" using d by (simp add: two_digits_def)
  moreover obtain c cs where c: "two_digits n = c # cs" "digit c"
    using l by (auto simp: two_digits_def)
  then have "c \<noteq> CHR ''-'' \<and> c \<noteq> CHR ''+''" by (auto simp: digit_def)
  ultimately show "Atoi (two_digits n) = Some (int n)"
    using assms c(1) by (simp add: Atoi_def int64_def)
qed

lemma expiryEnd_printed:
  assumes "1 \<le> m" "m \<le> 12" "y < 100"
  shows "expiryEnd (printed m y) = Some (time_Date (2000 + int y) (int m + 1) 1)"
proof -
  note m = two_digits_facts [of m] and y = two_digits_facts [of y]
  have m': "m < 100" using assms by simp
  have "string_Cut (printed m y) CHR ''/'' = (two_digits m, two_digits y, True)"
    using m(3) m' by (simp add: string_Cut_def printed_def takeWhile_first dropWhile_first)
  with m(1,2) y(1,2) m' assms show ?thesis
    by (simp add: expiryEnd_def Let_def) (simp add: two_digits_def)
qed

lemma nanos_pos: "0 < nanos_per_day" by (simp add: nanos_per_day_def)

text \<open>The moments before a month ends are those of it and of the earlier months.\<close>

lemma before_month_end:
  assumes "1 \<le> m'" "m' \<le> 12" "1 \<le> d" "d \<le> days_in y' m'" "0 \<le> ns" "ns < nanos_per_day"
    and "1 \<le> m" "m \<le> 12"
  shows "time_Date y' m' d + ns < time_Date y (m + 1) 1 \<longleftrightarrow> y' < y \<or> y' = y \<and> m' \<le> m"
proof -
  let ?j = "12 * y' + m' - 1" and ?k = "12 * y + m - 1"
  have "?j = (m' - 1) + y' * 12" by simp
  then have "?j div 12 = y'" "?j mod 12 = m' - 1"
    using assms by (simp_all only: div_mult_self1 mod_mult_self1) simp_all
  then have l: "month_length ?j = days_in y' m'" by (simp add: month_length_def)
  have i: "?j \<le> ?k \<longleftrightarrow> y' < y \<or> y' = y \<and> m' \<le> m" using assms by linarith
  have t: "time_Date y' m' d + ns = (first_day ?j + d - 1) * nanos_per_day + ns"
    "time_Date y (m + 1) 1 = first_day (?k + 1) * nanos_per_day"
    by (simp_all add: time_Date_first_day)
  show ?thesis
  proof (cases "?j \<le> ?k")
    case True
    then have "first_day (?j + 1) \<le> first_day (?k + 1)" by (intro first_day_mono) simp
    with first_day_step [of ?j] l assms(4) have "first_day ?j + d - 1 + 1 \<le> first_day (?k + 1)" by simp
    then have "(first_day ?j + d - 1 + 1) * nanos_per_day \<le> first_day (?k + 1) * nanos_per_day"
      by (rule mult_right_mono) (use nanos_pos in simp)
    with assms(6) i True t show ?thesis by (simp add: algebra_simps)
  next
    case False
    then have "first_day (?k + 1) \<le> first_day ?j" by (intro first_day_mono) simp
    then have "first_day (?k + 1) \<le> first_day ?j + d - 1" using assms(3) by simp
    then have "first_day (?k + 1) * nanos_per_day \<le> (first_day ?j + d - 1) * nanos_per_day"
      by (rule mult_right_mono) (use nanos_pos in simp)
    with assms(5) i False t show ?thesis by simp
  qed
qed

lemma card_check_iff:
  "card_check t c number = Inr () \<longleftrightarrow>
     validCardNumber number \<and> validCVV (tk_CVV c) \<and> (\<exists>e. expiryEnd (tk_Expiration c) = Some e \<and> t < e)"
  by (auto simp: card_check_def Let_def split: option.splits)

text \<open>
  C24. A card printed with a month and a year passes the checks at every moment of that month and of
  the months before it, whatever the length of the month, and at no later one; the rest of the
  checks are those of the number and the security code.
\<close>

theorem card_expires_with_its_month:
  assumes "1 \<le> m" "m \<le> 12" "y < 100" "tk_Expiration c = printed m y"
    and "1 \<le> m'" "m' \<le> 12" "1 \<le> d" "d \<le> days_in y' m'" "0 \<le> ns" "ns < nanos_per_day"
  shows "card_check (time_Date y' m' d + ns) c number = Inr () \<longleftrightarrow>
    validCardNumber number \<and> validCVV (tk_CVV c) \<and>
    (y' < 2000 + int y \<or> y' = 2000 + int y \<and> m' \<le> int m)"
  using assms before_month_end [of m' d y' ns "int m" "2000 + int y"]
  by (simp add: card_check_iff expiryEnd_printed)

definition sample_tokenize :: tokenize_command where
  "sample_tokenize =
     \<lparr>tk_CardName = ''Mustafa Akcakaya'', tk_CardNumber = ''5555 5555 5555 4444'',
      tk_Expiration = ''12/28'', tk_CVV = ''737''\<rparr>"

theorem card_expires_with_its_month_witness:
  "card_check (time_Date 2028 12 31 + (nanos_per_day - 1)) sample_tokenize ''5555555555554444'' = Inr () \<and>
   card_check (time_Date 2029 1 1 + 0) sample_tokenize ''5555555555554444'' \<noteq> Inr ()"
proof -
  have v: "validCardNumber ''5555555555554444''" "validCVV (tk_CVV sample_tokenize)" by code_simp+
  have p: "tk_Expiration sample_tokenize = printed 12 28" by code_simp
  have n: "(0 :: int) \<le> nanos_per_day - 1" "nanos_per_day - 1 < nanos_per_day" "0 < nanos_per_day"
    by (simp_all add: nanos_per_day_def)
  have "(31 :: int) \<le> days_in 2028 12" "(1 :: int) \<le> days_in 2029 1" by (simp_all add: days_in_def)
  with v n card_expires_with_its_month [of 12 28 sample_tokenize 12 31 2028 "nanos_per_day - 1"]
    card_expires_with_its_month [of 12 28 sample_tokenize 1 1 2029 0] p
  show ?thesis by simp
qed

section \<open>Exchanging a card\<close>

definition decoded :: "request_body \<Rightarrow> go_error + tokenize_command" where
  "decoded b = DecodeJSON (decode_struct tokenize_fields) tokenize_zero b"

definition kept_row :: "postgres \<Rightarrow> time \<Rightarrow> tokenize_command \<Rightarrow> card_row" where
  "kept_row P t c =
     \<lparr>cr_CardNumber = normalizeCardNumber (tk_CardNumber c), cr_Expiration = tk_Expiration c,
      cr_CardName = TrimSpace (tk_CardName c), cr_CreatedAt = pg_time P t\<rparr>"

definition last_four :: "string \<Rightarrow> string" where
  "last_four s = drop (length s - 4) s"

lemma card_Store_run:
  assumes "card_Store P c (E, db) = (r, E', db')"
  shows "(db' = db \<and> (\<exists>e. r = Inl e)) \<or>
    db (cd_Token c) = None \<and>
    db' = db(cd_Token c \<mapsto> \<lparr>cr_CardNumber = cd_CardNumber c, cr_Expiration = cd_Expiration c,
              cr_CardName = cd_CardName c, cr_CreatedAt = pg_time P (now E)\<rparr>)"
proof -
  from assms obtain r' where
    s: "pg_stmt P [cd_Token c, cd_CardNumber c, cd_Expiration c, cd_CardName c] (insert_card P c) (E, db) = (r', E', db')"
    and r: "(\<forall>x. r' \<noteq> Inr x) \<longrightarrow> (\<exists>e. r = Inl e)"
    by (cases "pg_stmt P [cd_Token c, cd_CardNumber c, cd_Expiration c, cd_CardName c] (insert_card P c) (E, db)")
      (auto simp: card_Store_def on_err_def map_left_def split: sum.splits)
  from pg_stmt_run [OF s] r show ?thesis
    by (cases "db (cd_Token c)") (auto simp: insert_card_def)
qed

lemma TokenizeCard_run:
  assumes "TokenizeCard (card_Store P) c (E, db) = (r, E', db')"
  shows "(db' = db \<and> (\<exists>e. r = Inl e)) \<or>
    card_check (now E) c (normalizeCardNumber (tk_CardNumber c)) = Inr () \<and>
    db (token_of (rnd E (drawn E))) = None \<and>
    db' = db(token_of (rnd E (drawn E)) \<mapsto> kept_row P (now E) c) \<and>
    ((\<exists>e. r = Inl e) \<or>
     r = Inr \<lparr>tr_PaymentToken = token_of (rnd E (drawn E)),
              tr_CardLast4 = last_four (normalizeCardNumber (tk_CardNumber c))\<rparr>)"
proof (cases "card_check (now E) c (normalizeCardNumber (tk_CardNumber c))")
  case (Inl e)
  with assms show ?thesis
    by (auto simp: TokenizeCard_def Let_def andthen_def time_now_def of_res_def)
next
  case (Inr u)
  let ?E = "E\<lparr>drawn := Suc (drawn E)\<rparr>"
  let ?card = "\<lparr>cd_Token = token_of (rnd E (drawn E)), cd_CardNumber = normalizeCardNumber (tk_CardNumber c),
      cd_Expiration = tk_Expiration c, cd_CardName = TrimSpace (tk_CardName c)\<rparr>"
  obtain q E1 db1 where s: "card_Store P ?card (?E, db) = (q, E1, db1)" by (metis prod_cases3)
  with Inr assms have "db' = db1" "(case q of Inl e \<Rightarrow> r = Inl e
      | Inr u \<Rightarrow> r = Inr \<lparr>tr_PaymentToken = token_of (rnd E (drawn E)), tr_CardLast4 = card_Last4 ?card\<rparr>)"
    by (auto simp: TokenizeCard_def Let_def andthen_def time_now_def of_res_def newToken_def new_uuid_def ret_def
        split: sum.splits)
  with card_Store_run [OF s] Inr show ?thesis
    by (cases q) (simp_all add: kept_row_def card_Last4_def last_four_def)
qed

text \<open>
  C22. Whatever the request and however the database behaves, a request for a token either changes
  nothing and is not answered 201, or it stores one card under a token nobody has, and the row is the
  number without its separators, the expiry and the name of a request that passed every check. An
  answer 201 carries that token and the last four digits and nothing else; a card that was stored
  although the answer of the database was lost is answered with an error.
\<close>

theorem token_request_keeps_the_card:
  assumes "TokenizeCardRoute V (card_Store P) tr b (E, db) = (res, E', db')"
  shows "\<exists>rsp. res = Inr rsp \<and>
    (db' = db \<and> rs_Status rsp \<noteq> 201 \<or>
     (\<exists>c. decoded b = Inr c \<and> V c = Valid \<and>
        card_check (now E) c (normalizeCardNumber (tk_CardNumber c)) = Inr () \<and>
        db (token_of (rnd E (drawn E))) = None \<and>
        db' = db(token_of (rnd E (drawn E)) \<mapsto> kept_row P (now E) c) \<and>
        ((\<exists>e. rsp = problem_Error tr e) \<or>
         rsp = respond_JSON 201
           (JObj [(''paymentToken'', json_string (token_of (rnd E (drawn E)))),
                  (''cardLast4'', json_string (last_four (normalizeCardNumber (tk_CardNumber c))))]))))"
proof -
  have status: "rs_Status (problem_Error tr e) \<noteq> 201" for e
    by (cases "KindOf e") (simp_all add: problem_Error_def Let_def)
  let ?m = "andthen (of_res (decoded b)) (Chain (TokenizeCard (card_Store P)) [Validating V])"
  obtain q where m: "?m (E, db) = (q, E', db')"
    and res: "res = (case q of Inl e \<Rightarrow> Inr (problem_Error tr e)
                             | Inr x \<Rightarrow> Inr (respond_JSON 201 (tokenize_response x)))"
    using assms by (auto simp: TokenizeCardRoute_def decoded_def respond_cases)
  consider (refused) e where "q = Inl e" "db' = db"
    | (handled) c where "decoded b = Inr c" "V c = Valid"
        "TokenizeCard (card_Store P) c (E, db) = (q, E', db')"
    using m by (auto simp: andthen_def of_res_def Validating_run validation_Struct_def
        split: sum.splits verdict.splits)
  then show ?thesis
  proof cases
    case refused
    with res status show ?thesis by simp
  next
    case handled
    from TokenizeCard_run [OF handled(3)] show ?thesis
    proof (elim disjE conjE exE)
      fix e assume "db' = db" "q = Inl e"
      with res status show ?thesis by simp
    next
      fix e assume "q = Inl e" "card_check (now E) c (normalizeCardNumber (tk_CardNumber c)) = Inr ()"
        "db (token_of (rnd E (drawn E))) = None" "db' = db(token_of (rnd E (drawn E)) \<mapsto> kept_row P (now E) c)"
      with res handled show ?thesis by auto
    next
      assume "q = Inr \<lparr>tr_PaymentToken = token_of (rnd E (drawn E)),
            tr_CardLast4 = last_four (normalizeCardNumber (tk_CardNumber c))\<rparr>"
        "card_check (now E) c (normalizeCardNumber (tk_CardNumber c)) = Inr ()"
        "db (token_of (rnd E (drawn E))) = None" "db' = db(token_of (rnd E (drawn E)) \<mapsto> kept_row P (now E) c)"
      with res handled show ?thesis by (auto simp: tokenize_response_def)
    qed
  qed
qed

section \<open>Tokens\<close>

lemma hex_byte_inj: "hex_byte a = hex_byte b \<Longrightarrow> a = b"
proof -
  have d: "distinct ''0123456789abcdef''" "length ''0123456789abcdef'' = 16" by simp_all
  assume "hex_byte a = hex_byte b"
  moreover have "unat (w :: 8 word) div 16 < 16" for w
  proof -
    have "unat w < 2 ^ LENGTH(8)" by (rule unsigned_less)
    then show ?thesis by simp
  qed
  ultimately have "unat a div 16 = unat b div 16" "unat a mod 16 = unat b mod 16"
    using d nth_eq_iff_index_eq [OF d(1), unfolded d(2)] by (simp_all add: hex_byte_def hex_digit_def)
  then have "unat a = unat b" by (metis div_mult_mod_eq)
  then show "a = b" by (simp add: word_unat_eq_iff)
qed

lemma EncodeToString_inj:
  "length a = length b \<Longrightarrow> EncodeToString a = EncodeToString b \<Longrightarrow> a = b"
  by (induction rule: list_induct2) (auto simp: EncodeToString_def hex_byte_def intro!: hex_byte_inj)

lemma random_bytes_inj:
  assumes "random_bytes a = random_bytes b"
  shows "a = b"
proof (rule bit_word_eqI)
  fix n assume "n < LENGTH(128)"
  then have "n div 8 \<in> set (rev [0..<16])" by simp
  with assms have "(ucast (drop_bit (8 * (n div 8)) a) :: 8 word) = ucast (drop_bit (8 * (n div 8)) b)"
    unfolding random_bytes_def by (metis (no_types, lifting) map_eq_conv)
  then have "bit (ucast (drop_bit (8 * (n div 8)) a) :: 8 word) (n mod 8)
      = bit (ucast (drop_bit (8 * (n div 8)) b) :: 8 word) (n mod 8)" by simp
  then show "bit a n = bit b n"
    by (simp add: bit_ucast_iff bit_drop_bit_eq)
qed

lemma token_of_inj: "token_of a = token_of b \<longleftrightarrow> a = b"
  using EncodeToString_inj [of "random_bytes a" "random_bytes b"] random_bytes_inj [of a b]
  by (auto simp: token_of_def) (simp add: random_bytes_def)

text \<open>
  A card that passes the checks is answered 201 and stored when the database answers, provided
  the random bytes are not those of a token issued before; no issued token is ever replaced.
\<close>

lemma valid_card_gets_its_token:
  assumes "outcomes E = []" "decoded b = Inr c" "V c = Valid"
    and "card_check (now E) c (normalizeCardNumber (tk_CardNumber c)) = Inr ()"
    and "\<forall>t \<in> dom db. \<exists>u. t = token_of u \<and> u \<noteq> rnd E (drawn E)"
    and "list_all (pg_text P) [token_of (rnd E (drawn E)), normalizeCardNumber (tk_CardNumber c),
           tk_Expiration c, TrimSpace (tk_CardName c)]"
  shows "TokenizeCardRoute V (card_Store P) tr b (E, db) =
    (Inr (respond_JSON 201
       (JObj [(''paymentToken'', json_string (token_of (rnd E (drawn E)))),
              (''cardLast4'', json_string (last_four (normalizeCardNumber (tk_CardNumber c))))])),
     E\<lparr>drawn := Suc (drawn E)\<rparr>,
     db(token_of (rnd E (drawn E)) \<mapsto> kept_row P (now E) c))"
proof -
  have "db (token_of (rnd E (drawn E))) = None"
    using assms(5) by (metis domIff token_of_inj)
  with assms(1-4,6) show ?thesis
    by (simp add: TokenizeCardRoute_def respond_def decoded_def andthen_def of_res_def Validating_run
        validation_Struct_def TokenizeCard_def Let_def time_now_def newToken_def new_uuid_def ret_def
        card_Store_def on_err_def pg_stmt_def call_ok insert_card_def kept_row_def tokenize_response_def
        card_Last4_def last_four_def)
qed

definition sample_token_body :: request_body where
  "sample_token_body =
     JsonValue (JObj [(''cardName'', JStr '' Mustafa Akcakaya''), (''cardNumber'', JStr ''5555 5555 5555 4444''),
                      (''expiration'', JStr ''12/28''), (''cvv'', JStr ''737'')])"

definition sample_today :: env where
  "sample_today = sample_env\<lparr>now := time_Date 2026 10 27\<rparr>"

lemma sample_token_decoded:
  "decoded sample_token_body = Inr (sample_tokenize\<lparr>tk_CardName := '' Mustafa Akcakaya''\<rparr>)"
  by (simp add: decoded_def sample_token_body_def DecodeJSON_def decode_struct_def find_field_def
      tokenize_fields_def field_def decode_string_def tokenize_zero_def sample_tokenize_def)

lemma sample_card_checked:
  "card_check (now sample_today) (sample_tokenize\<lparr>tk_CardName := '' Mustafa Akcakaya''\<rparr>)
     (normalizeCardNumber ''5555 5555 5555 4444'') = Inr ()"
proof -
  have "validCardNumber (normalizeCardNumber ''5555 5555 5555 4444'')" "validCVV ''737''" by code_simp+
  moreover have "expiryEnd ''12/28'' = Some (time_Date 2028 13 1)" by code_simp
  moreover have "time_Date 2026 10 27 < time_Date 2028 13 1" by code_simp
  ultimately show ?thesis
    by (simp add: card_check_iff sample_tokenize_def sample_today_def)
qed

lemma valid_card_gets_its_token_sample:
  "fst (TokenizeCardRoute (\<lambda>c. Valid) (card_Store sample_pg) ''1'' sample_token_body (sample_today, Map.empty))
     = Inr (respond_JSON 201
         (JObj [(''paymentToken'', json_string ''pt_00000000000000000000000000000064''),
                (''cardLast4'', json_string ''4444'')]))"
proof -
  let ?c = "sample_tokenize\<lparr>tk_CardName := '' Mustafa Akcakaya''\<rparr>"
  have o: "outcomes sample_today = []" "rnd sample_today (drawn sample_today) = 100"
    by (simp_all add: sample_today_def sample_env_def)
  have t: "token_of 100 = ''pt_00000000000000000000000000000064''"
    "normalizeCardNumber ''5555 5555 5555 4444'' = ''5555555555554444''"
    "TrimSpace '' Mustafa Akcakaya'' = ''Mustafa Akcakaya''" by code_simp+
  have u: "list_all utf8_ok [''pt_00000000000000000000000000000064'', ''5555555555554444'', ''12/28'', ''Mustafa Akcakaya'']"
    by code_simp
  have p: "list_all (pg_text sample_pg) [token_of 100, normalizeCardNumber (tk_CardNumber ?c),
      tk_Expiration ?c, TrimSpace (tk_CardName ?c)]"
    using u unfolding sample_tokenize_def by (simp add: t sample_pg_def)
  have "card_check (now sample_today) ?c (normalizeCardNumber (tk_CardNumber ?c)) = Inr ()"
    using sample_card_checked by (simp add: sample_tokenize_def)
  with valid_card_gets_its_token [of sample_today sample_token_body ?c "\<lambda>c. Valid" Map.empty sample_pg "''1''"]
    o p sample_token_decoded
  show ?thesis by (simp add: t sample_tokenize_def last_four_def)
qed

theorem token_request_keeps_the_card_witness:
  "\<exists>res E' db'. TokenizeCardRoute (\<lambda>c. Valid) (card_Store sample_pg) ''1'' sample_token_body (sample_today, Map.empty)
      = (res, E', db') \<and>
     (db' = Map.empty \<or> db' = [token_of 100 \<mapsto>
        kept_row sample_pg (now sample_today) (sample_tokenize\<lparr>tk_CardName := '' Mustafa Akcakaya''\<rparr>)])"
proof -
  obtain res E' db' where
    r: "TokenizeCardRoute (\<lambda>c. Valid) (card_Store sample_pg) ''1'' sample_token_body (sample_today, Map.empty)
      = (res, E', db')" by (metis prod_cases3)
  have "rnd sample_today (drawn sample_today) = 100" by (simp add: sample_today_def sample_env_def)
  with token_request_keeps_the_card [OF r] sample_token_decoded
  have "db' = Map.empty \<or> db' = [token_of 100 \<mapsto>
      kept_row sample_pg (now sample_today) (sample_tokenize\<lparr>tk_CardName := '' Mustafa Akcakaya''\<rparr>)]"
    by (elim exE conjE disjE) simp_all
  with r show ?thesis by blast
qed

text \<open>
  C23. The security code leaves no trace: two requests that differ in it only, both of its shape, have
  the same response and leave the same table, whatever stores the card.
\<close>

theorem security_code_leaves_no_trace:
  assumes "validCVV (tk_CVV c)" "validCVV cvv" "V c = V (c\<lparr>tk_CVV := cvv\<rparr>)"
    and "decoded b = Inr c" "decoded b' = Inr (c\<lparr>tk_CVV := cvv\<rparr>)"
  shows "TokenizeCardRoute V store tr b = TokenizeCardRoute V store tr b'"
proof
  fix w
  have "card_check t c n = card_check t (c\<lparr>tk_CVV := cvv\<rparr>) n" for t n
    using assms(1,2) by (simp add: card_check_def)
  then have "TokenizeCard store (c\<lparr>tk_CVV := cvv\<rparr>) = TokenizeCard store c"
    by (simp add: TokenizeCard_def)
  with assms show "TokenizeCardRoute V store tr b w = TokenizeCardRoute V store tr b' w"
    by (simp add: TokenizeCardRoute_def respond_def decoded_def andthen_def of_res_def Validating_run
        split: sum.split)
qed

theorem security_code_leaves_no_trace_witness:
  "TokenizeCardRoute (\<lambda>c. Valid) (card_Store sample_pg) ''1'' sample_token_body =
   TokenizeCardRoute (\<lambda>c. Valid) (card_Store sample_pg) ''1''
     (JsonValue (JObj [(''cvv'', JStr ''1234''), (''expiration'', JStr ''12/28''),
                       (''cardNumber'', JStr ''5555 5555 5555 4444''), (''cardName'', JStr '' Mustafa Akcakaya'')]))"
proof (rule security_code_leaves_no_trace [OF _ _ _ sample_token_decoded])
  let ?c = "sample_tokenize\<lparr>tk_CardName := '' Mustafa Akcakaya''\<rparr>"
  show "validCVV (tk_CVV ?c)" "validCVV ''1234''" by code_simp+
  show "decoded (JsonValue (JObj [(''cvv'', JStr ''1234''), (''expiration'', JStr ''12/28''),
      (''cardNumber'', JStr ''5555 5555 5555 4444''), (''cardName'', JStr '' Mustafa Akcakaya'')]))
      = Inr (?c\<lparr>tk_CVV := ''1234''\<rparr>)"
    by (simp add: decoded_def DecodeJSON_def decode_struct_def find_field_def
        tokenize_fields_def field_def decode_string_def tokenize_zero_def sample_tokenize_def)
qed simp

end
