(* ===== verification/Gateway.thy ===== *)
theory Gateway
  imports Http
begin

text \<open>
  The gateway: \<open>internal/gateway\<close> (\<open>gateway.go\<close>, \<open>ratelimit.go\<close>) and the settings \<open>cmd/gateway/main.go\<close>
  reads. Matching a path to a registered pattern and forwarding the request are the libraries'.
  The lock of the limiter makes each call of \<open>allow\<close> one step; the clock is an argument of it.
\<close>

section \<open>The limiter\<close>

record counter =
  cn_count :: int
  cn_windowEnd :: time

record fixed_window =
  fw_limit :: int
  fw_window :: duration
  fw_callers :: "string \<rightharpoonup> counter"
  fw_lastSweep :: time

definition DefaultLimit :: int where "DefaultLimit = 5"

definition DefaultWindow :: duration where "DefaultWindow = 10 * 10 ^ 9"

definition NewFixedWindow :: "int \<Rightarrow> duration \<Rightarrow> time \<Rightarrow> fixed_window" where
  "NewFixedWindow limit window t =
     (let limit = (if limit \<le> 0 then DefaultLimit else limit);
          window = (if window \<le> 0 then DefaultWindow else window)
      in \<lparr>fw_limit = limit, fw_window = window, fw_callers = Map.empty, fw_lastSweep = t\<rparr>)"

definition fw_sweep :: "time \<Rightarrow> fixed_window \<Rightarrow> fixed_window" where
  "fw_sweep t f =
     (if t - fw_lastSweep f < fw_window f then f
      else f\<lparr>fw_callers := (\<lambda>c. case fw_callers f c of
                              Some current \<Rightarrow> if t > cn_windowEnd current then None else Some current
                            | None \<Rightarrow> None),
             fw_lastSweep := t\<rparr>)"

definition fw_allow :: "string \<Rightarrow> time \<Rightarrow> fixed_window \<Rightarrow> (bool \<times> duration) \<times> fixed_window" where
  "fw_allow caller t f =
     (let f = fw_sweep t f in
      case fw_callers f caller of
        None \<Rightarrow>
          ((True, 0), f\<lparr>fw_callers := (fw_callers f)(caller \<mapsto> \<lparr>cn_count = 1, cn_windowEnd = t + fw_window f\<rparr>)\<rparr>)
      | Some current \<Rightarrow>
          if t > cn_windowEnd current then
            ((True, 0), f\<lparr>fw_callers := (fw_callers f)(caller \<mapsto> \<lparr>cn_count = 1, cn_windowEnd = t + fw_window f\<rparr>)\<rparr>)
          else if cn_count current \<ge> fw_limit f then ((False, cn_windowEnd current - t), f)
          else ((True, 0), f\<lparr>fw_callers := (fw_callers f)(caller \<mapsto> current\<lparr>cn_count := cn_count current + 1\<rparr>)\<rparr>))"

section \<open>Who calls\<close>

definition last_index :: "char \<Rightarrow> string \<Rightarrow> nat option" where
  "last_index c s = find (\<lambda>i. s ! i = c) (rev [0..<length s])"

definition index_byte :: "char \<Rightarrow> string \<Rightarrow> nat option" where
  "index_byte c s = find (\<lambda>i. s ! i = c) [0..<length s]"

text \<open>\<open>net.SplitHostPort\<close>; \<open>None\<close> is its error.\<close>

definition SplitHostPort :: "string \<Rightarrow> (string \<times> string) option" where
  "SplitHostPort s =
     (case last_index CHR '':'' s of
        None \<Rightarrow> None
      | Some i \<Rightarrow>
          let host =
            (if s ! 0 = CHR ''['' then
               (case index_byte CHR '']'' s of
                  None \<Rightarrow> None
                | Some e \<Rightarrow> if Suc e = i then Some (take (e - 1) (drop 1 s), 1, Suc e) else None)
             else if CHR '':'' \<in> set (take i s) then None
             else Some (take i s, 0, 0))
          in (case host of
                None \<Rightarrow> None
              | Some (h, j, k) \<Rightarrow>
                  if CHR ''['' \<in> set (drop j s) \<or> CHR '']'' \<in> set (drop k s) then None
                  else Some (h, drop (Suc i) s)))"

definition callerOf :: "string \<Rightarrow> string" where
  "callerOf remoteAddr =
     (case SplitHostPort remoteAddr of None \<Rightarrow> remoteAddr | Some (host, port) \<Rightarrow> host)"

section \<open>The middleware\<close>

definition gateway_problem :: "string \<Rightarrow> int \<Rightarrow> string \<Rightarrow> string \<Rightarrow> response" where
  "gateway_problem traceID status title detail =
     \<lparr>rs_Status = status, rs_ContentType = ''application/problem+json'', rs_Headers = [],
      rs_Body = ProblemBody
        \<lparr>pb_Title = title, pb_Detail = Fmt detail [], pb_Status = status, pb_TraceID = traceID,
         pb_Errors = Map.empty\<rparr>\<rparr>"

text \<open>\<open>int(retryAfter.Seconds()+0.5)\<close> of a duration that is not negative.\<close>

definition retry_seconds :: "duration \<Rightarrow> int" where
  "retry_seconds d = (d + 5 * 10 ^ 8) div 10 ^ 9"

text \<open>A request is answered here or passed on to the handler behind.\<close>

datatype edge = TurnedAway response | PassedOn

definition limiter_Middleware :: "string \<Rightarrow> string \<Rightarrow> time \<Rightarrow> fixed_window \<Rightarrow> edge \<times> fixed_window" where
  "limiter_Middleware traceID remoteAddr t f =
     (case fw_allow (callerOf remoteAddr) t f of
        ((allowed, retryAfter), f') \<Rightarrow>
          if \<not> allowed then
            (TurnedAway ((gateway_problem traceID 429 ''TooManyRequests''
               ''too many requests; slow down and try again shortly'')
                 \<lparr>rs_Headers := [(''Retry-After'', Itoa (retry_seconds retryAfter))]\<rparr>), f')
          else (PassedOn, f'))"

section \<open>Routes\<close>

record url =
  url_Scheme :: string
  url_Host :: string
  url_Path :: string

record route =
  rt_Prefix :: string
  rt_Target :: "url option"

text \<open>
  The patterns that are registered, each with its route; an error of a route stops the loop and is
  what the constructor returns.
\<close>

fun register_routes :: "route list \<Rightarrow> go_error + (string \<times> route) list" where
  "register_routes [] = Inr []"
| "register_routes (r # rs) =
     (if rt_Prefix r = '''' \<or> rt_Target r = None
      then Inl (Plain (Fmt ''route %q has no prefix or no target'' [ArgStr (rt_Prefix r)]))
      else map_sum id (\<lambda>ps. (rt_Prefix r, r) # (rt_Prefix r @ ''/*'', r) # ps) (register_routes rs))"

definition gateway_Router :: "route list \<Rightarrow> go_error + (string \<times> route) list" where
  "gateway_Router routes =
     (if routes = [] then Inl (Plain (Fmt ''the gateway needs at least one route'' []))
      else register_routes routes)"

definition stripPrefix :: "string \<Rightarrow> string \<Rightarrow> string" where
  "stripPrefix path p =
     (let trimmed = TrimPrefix path p
      in if trimmed = '''' \<or> \<not> HasPrefix trimmed ''/'' then ''/'' @ trimmed else trimmed)"

text \<open>The address a request is forwarded to: the scheme and host of the target, the stripped path.\<close>

definition proxyFor :: "route \<Rightarrow> url \<Rightarrow> string \<Rightarrow> url" where
  "proxyFor r target path = target\<lparr>url_Path := stripPrefix path (rt_Prefix r)\<rparr>"

definition proxy_unreachable :: "string \<Rightarrow> response" where
  "proxy_unreachable traceID =
     gateway_problem traceID 502 ''BadGateway'' ''the service behind this route is unavailable''"

section \<open>Settings\<close>

text \<open>\<open>url.Parse\<close> is a parameter, \<open>time.ParseDuration\<close> too.\<close>

definition gateway_wanted :: "(string \<times> string) list" where
  "gateway_wanted =
     [(''/catalog-service'', ''GATEWAY_CATALOG_URL''), (''/basket-service'', ''GATEWAY_BASKET_URL''),
      (''/ordering-service'', ''GATEWAY_ORDERING_URL''), (''/payment-service'', ''GATEWAY_PAYMENT_URL'')]"

fun routes_loop ::
  "(string \<Rightarrow> string) \<Rightarrow> (string \<Rightarrow> go_error + url) \<Rightarrow> (string \<times> string) list \<Rightarrow> go_error + route list" where
  "routes_loop getenv parse [] = Inr []"
| "routes_loop getenv parse ((p, variable) # entries) =
     (let raw = getenv variable in
      if raw = '''' then routes_loop getenv parse entries
      else (case parse raw of
              Inl e \<Rightarrow> Inl (Wrapped (Fmt ''%s is not a url'' [ArgStr variable]) e)
            | Inr target \<Rightarrow>
                if url_Scheme target = '''' \<or> url_Host target = '''' then
                  Inl (Plain (Fmt ''%s must include a scheme and a host, got %q'' [ArgStr variable, ArgStr raw]))
                else map_sum id ((#) \<lparr>rt_Prefix = p, rt_Target = Some target\<rparr>) (routes_loop getenv parse entries)))"

definition routesFromEnv :: "(string \<Rightarrow> string) \<Rightarrow> (string \<Rightarrow> go_error + url) \<Rightarrow> go_error + route list" where
  "routesFromEnv getenv parse = routes_loop getenv parse gateway_wanted"

definition intFromEnv :: "(string \<Rightarrow> string) \<Rightarrow> string \<Rightarrow> int \<Rightarrow> int" where
  "intFromEnv getenv name fallback = (case Atoi (getenv name) of None \<Rightarrow> fallback | Some v \<Rightarrow> v)"

definition durationFromEnv ::
  "(string \<Rightarrow> string) \<Rightarrow> (string \<Rightarrow> duration option) \<Rightarrow> string \<Rightarrow> duration \<Rightarrow> duration" where
  "durationFromEnv getenv parse name fallback =
     (case parse (getenv name) of None \<Rightarrow> fallback | Some v \<Rightarrow> v)"

end
