(* ===== verification/Gateway_Facts.thy ===== *)
theory Gateway_Facts
  imports Gateway
begin

text \<open>
  What the gateway promises: each caller is counted alone, as a limiter without any other caller and
  without the sweep would; how many requests pass; what a path becomes; and where the announced wait
  is too short.
\<close>

section \<open>One caller alone\<close>

fun own_step :: "int \<Rightarrow> duration \<Rightarrow> time \<Rightarrow> counter option \<Rightarrow> bool \<times> counter option" where
  "own_step limit window t None = (True, Some \<lparr>cn_count = 1, cn_windowEnd = t + window\<rparr>)"
| "own_step limit window t (Some c) =
     (if t > cn_windowEnd c then (True, Some \<lparr>cn_count = 1, cn_windowEnd = t + window\<rparr>)
      else if cn_count c \<ge> limit then (False, Some c)
      else (True, Some (c\<lparr>cn_count := cn_count c + 1\<rparr>)))"

fun own_run :: "int \<Rightarrow> duration \<Rightarrow> counter option \<Rightarrow> time list \<Rightarrow> (time \<times> bool) list" where
  "own_run limit window s [] = []"
| "own_run limit window s (t # ts) =
     (case own_step limit window t s of (b, s') \<Rightarrow> (t, b) # own_run limit window s' ts)"

text \<open>A sequence of requests, each with its caller and its time, and the answers.\<close>

fun fw_run :: "fixed_window \<Rightarrow> (string \<times> time) list \<Rightarrow> (string \<times> time \<times> bool) list" where
  "fw_run f [] = []"
| "fw_run f ((c, t) # rs) = (case fw_allow c t f of ((b, _), f') \<Rightarrow> (c, t, b) # fw_run f' rs)"

definition answers_of :: "string \<Rightarrow> (string \<times> time \<times> bool) list \<Rightarrow> (time \<times> bool) list" where
  "answers_of c rs = map snd (filter (\<lambda>r. fst r = c) rs)"

definition times_of :: "string \<Rightarrow> (string \<times> time) list \<Rightarrow> time list" where
  "times_of c rs = map snd (filter (\<lambda>r. fst r = c) rs)"

text \<open>What a counter is worth at a moment: an ended window is as good as none.\<close>

fun live :: "time \<Rightarrow> counter option \<Rightarrow> counter option" where
  "live t None = None"
| "live t (Some c) = (if t > cn_windowEnd c then None else Some c)"

lemma live_live: "t \<le> u \<Longrightarrow> live u (live t s) = live u s"
  by (cases s) auto

lemma own_step_live: "own_step l w t (live t s) = own_step l w t s"
  by (cases s) auto

lemma fw_sweep_facts:
  "fw_limit (fw_sweep t f) = fw_limit f" "fw_window (fw_sweep t f) = fw_window f"
  "live t (fw_callers (fw_sweep t f) c) = live t (fw_callers f c)"
  by (auto simp: fw_sweep_def split: option.split)

lemma own_step_caller:
  assumes "live t s = live t s'"
  shows "own_step l w t s = own_step l w t s'"
  using own_step_live [of l w t s] own_step_live [of l w t s'] assms by simp

lemma fw_allow_step:
  assumes "fw_allow c t f = ((b, d), f')"
  shows "fw_limit f' = fw_limit f" "fw_window f' = fw_window f"
    and "own_step (fw_limit f) (fw_window f) t (fw_callers f c) = (b, fw_callers f' c)"
    and "c' \<noteq> c \<Longrightarrow> live t (fw_callers f' c') = live t (fw_callers f c')"
proof -
  let ?g = "fw_sweep t f"
  have o: "own_step (fw_limit f) (fw_window f) t (fw_callers f c) = own_step (fw_limit ?g) (fw_window ?g) t (fw_callers ?g c)"
    by (simp add: fw_sweep_facts own_step_caller [of t "fw_callers ?g c" "fw_callers f c"])
  have r: "fw_limit f' = fw_limit ?g \<and> fw_window f' = fw_window ?g \<and>
      own_step (fw_limit ?g) (fw_window ?g) t (fw_callers ?g c) = (b, fw_callers f' c) \<and>
      (c' \<noteq> c \<longrightarrow> fw_callers f' c' = fw_callers ?g c')"
    using assms by (cases "fw_callers ?g c") (auto simp: fw_allow_def Let_def split: if_splits)
  then show "fw_limit f' = fw_limit f" "fw_window f' = fw_window f"
    and "own_step (fw_limit f) (fw_window f) t (fw_callers f c) = (b, fw_callers f' c)"
    and "c' \<noteq> c \<Longrightarrow> live t (fw_callers f' c') = live t (fw_callers f c')"
    using o fw_sweep_facts [of t f] by simp_all
qed

lemma fw_run_own:
  assumes "sorted (map snd rs)" "\<forall>r \<in> set rs. \<tau> \<le> snd r" "live \<tau> (fw_callers f c) = live \<tau> s"
  shows "answers_of c (fw_run f rs) = own_run (fw_limit f) (fw_window f) s (times_of c rs)"
  using assms
proof (induction rs arbitrary: f s \<tau>)
  case Nil
  then show ?case by (simp add: answers_of_def times_of_def)
next
  case (Cons r rs)
  obtain c1 t where r: "r = (c1, t)" by (cases r)
  obtain b d f' where a: "fw_allow c1 t f = ((b, d), f')" by (metis surj_pair)
  note step = fw_allow_step [OF a]
  have l: "live t (fw_callers f c) = live t s"
    using Cons.prems(2,3) r live_live [of \<tau> t] by (metis list.set_intros(1) snd_conv)
  have later: "sorted (map snd rs)" "\<forall>r \<in> set rs. t \<le> snd r" using Cons.prems(1) r by auto
  show ?case
  proof (cases "c1 = c")
    case True
    have o: "own_step (fw_limit f) (fw_window f) t s = (b, fw_callers f' c)"
      using step(3) own_step_caller [OF l] True by simp
    have "answers_of c (fw_run f' rs) = own_run (fw_limit f) (fw_window f) (fw_callers f' c) (times_of c rs)"
      using Cons.IH [OF later, of f' "fw_callers f' c"] step(1,2) by simp
    with a o r True show ?thesis by (simp add: answers_of_def times_of_def)
  next
    case False
    then have "live t (fw_callers f' c) = live t s" using step(4) [of c] l by simp
    from Cons.IH [OF later this] step(1,2) a r False show ?thesis
      by (simp add: answers_of_def times_of_def)
  qed
qed

lemma fresh_limiter:
  "1 \<le> fw_limit (NewFixedWindow limit window t0)" "1 \<le> fw_window (NewFixedWindow limit window t0)"
  "fw_callers (NewFixedWindow limit window t0) = Map.empty"
  by (auto simp: NewFixedWindow_def Let_def DefaultLimit_def DefaultWindow_def)

lemma fresh_run:
  assumes "sorted (map snd rs)"
  shows "answers_of c (fw_run (NewFixedWindow limit window t0) rs) =
    own_run (fw_limit (NewFixedWindow limit window t0)) (fw_window (NewFixedWindow limit window t0)) None (times_of c rs)"
proof (cases rs)
  case Nil
  then show ?thesis by (simp add: answers_of_def times_of_def)
next
  case (Cons r rs')
  with assms have "\<forall>r' \<in> set rs. snd r \<le> snd r'" by auto
  with assms show ?thesis by (intro fw_run_own) (simp_all add: fresh_limiter)
qed

text \<open>
  C26. The limiter of the gateway answers every caller as a limiter that serves this caller alone and
  never sweeps: what others ask and when their counters are dropped changes nothing.
\<close>

theorem callers_are_limited_alone:
  assumes "sorted (map snd rs)"
  shows "answers_of c (fw_run (NewFixedWindow limit window t0) rs) =
    own_run (fw_limit (NewFixedWindow limit window t0)) (fw_window (NewFixedWindow limit window t0)) None (times_of c rs)"
  using assms by (rule fresh_run)

theorem callers_are_limited_alone_witness:
  "answers_of ''a'' (fw_run (NewFixedWindow 1 10 0) [(''a'', 0), (''b'', 3), (''a'', 9), (''b'', 11), (''a'', 30)])
     = [(0, True), (9, False), (30, True)]"
  using callers_are_limited_alone [of "[(''a'', 0), (''b'', 3), (''a'', 9), (''b'', 11), (''a'', 30)]" "''a''" 1 10 0]
  by (simp add: NewFixedWindow_def times_of_def)

section \<open>How many requests pass\<close>

definition passed :: "time \<Rightarrow> time \<Rightarrow> (time \<times> bool) list \<Rightarrow> int" where
  "passed a b xs = int (length (filter (\<lambda>(t, ok). ok \<and> a \<le> t \<and> t \<le> b) xs))"

lemma passed_simps [simp]:
  "passed a b [] = 0"
  "passed a b ((t, ok) # xs) = (if ok \<and> a \<le> t \<and> t \<le> b then 1 else 0) + passed a b xs"
  by (auto simp: passed_def)

lemma passed_append: "passed a b (xs @ ys) = passed a b xs + passed a b ys"
  by (simp add: passed_def)

lemma passed_nonneg [simp]: "0 \<le> passed a b xs"
  by (simp add: passed_def)

definition capped :: "int \<Rightarrow> counter option \<Rightarrow> bool" where
  "capped limit s \<longleftrightarrow> (\<forall>c. s = Some c \<longrightarrow> cn_count c \<le> limit)"

lemma own_step_capped: "own_step l w t s = (b, s') \<Longrightarrow> 1 \<le> l \<Longrightarrow> capped l s \<Longrightarrow> capped l s'"
  by (cases s) (auto simp: capped_def split: if_splits)

lemma none_pass_late: "sorted ts \<Longrightarrow> \<forall>t \<in> set ts. b < t \<Longrightarrow> passed a b (own_run l w s ts) = 0"
  by (induction ts arbitrary: s) (auto split: prod.splits)

text \<open>The window a counter stands for has not ended before the interval does.\<close>

lemma rest_of_window:
  "\<lbrakk>sorted ts; cn_count c \<le> l; b \<le> cn_windowEnd c\<rbrakk>
     \<Longrightarrow> passed a b (own_run l w (Some c) ts) \<le> l - cn_count c"
proof (induction ts arbitrary: c)
  case (Cons t ts)
  show ?case
  proof (cases "t \<le> b")
    case True
    then show ?thesis
      using Cons.prems Cons.IH [of c] Cons.IH [of "c\<lparr>cn_count := cn_count c + 1\<rparr>"]
      by (cases "cn_count c \<ge> l") auto
  next
    case False
    with Cons.prems(1) have "passed a b (own_run l w (Some c) (t # ts)) = 0"
      by (intro none_pass_late) auto
    with Cons.prems(2) show ?thesis by linarith
  qed
qed simp

lemma two_windows:
  "\<lbrakk>sorted ts; \<forall>t \<in> set ts. a \<le> t; 1 \<le> l; capped l s\<rbrakk>
     \<Longrightarrow> passed a (a + w) (own_run l w s ts) \<le> l + (case s of None \<Rightarrow> 0 | Some c \<Rightarrow> l - cn_count c)"
proof (induction ts arbitrary: s)
  case Nil
  then show ?case by (auto simp: capped_def split: option.split)
next
  case (Cons t ts)
  let ?n = "\<lparr>cn_count = 1, cn_windowEnd = t + w\<rparr>"
  have fresh: "passed a (a + w) (own_run l w (Some ?n) ts) \<le> l - 1"
    using Cons.prems rest_of_window [of ts ?n l "a + w" a w] by simp
  show ?case
  proof (cases s)
    case None
    with fresh show ?thesis by simp
  next
    case (Some c)
    with Cons.prems have c: "cn_count c \<le> l" by (simp add: capped_def)
    have step: "passed a (a + w) (own_run l w (Some c') ts) \<le> l + (l - cn_count c')"
      if "cn_count c' \<le> l" for c'
      using Cons.IH [of "Some c'"] Cons.prems that by (simp add: capped_def)
    show ?thesis
      using fresh step [OF c] step [of "c\<lparr>cn_count := cn_count c + 1\<rparr>"] c Some by auto
  qed
qed

lemma any_interval:
  "\<lbrakk>sorted ts; 1 \<le> l; capped l s; \<forall>c. s = Some c \<longrightarrow> 0 \<le> cn_count c\<rbrakk>
     \<Longrightarrow> passed a (a + w) (own_run l w s ts) \<le> 2 * l"
proof (induction ts arbitrary: s)
  case (Cons t ts)
  show ?case
  proof (cases "a \<le> t")
    case True
    with Cons.prems(1) have "\<forall>u \<in> set (t # ts). a \<le> u" by auto
    with Cons.prems have "passed a (a + w) (own_run l w s (t # ts))
        \<le> l + (case s of None \<Rightarrow> 0 | Some c \<Rightarrow> l - cn_count c)"
      by (intro two_windows) simp_all
    also have "\<dots> \<le> 2 * l" using Cons.prems(2,4) by (cases s) simp_all
    finally show ?thesis .
  next
    case False
    obtain b s' where o: "own_step l w t s = (b, s')" by (cases "own_step l w t s")
    then have "\<forall>c. s' = Some c \<longrightarrow> 0 \<le> cn_count c"
      using Cons.prems(4) by (cases s) (auto split: if_splits)
    with o False Cons.prems Cons.IH [of s'] own_step_capped [OF o] show ?thesis by simp
  qed
qed simp

text \<open>A counter never counts more than what passed in its window.\<close>

lemma refused_only_when_full:
  "\<lbrakk>sorted (map fst past @ ts); \<forall>c. s = Some c \<longrightarrow>
      cn_count c \<le> passed (cn_windowEnd c - w) (cn_windowEnd c) past \<and> (\<forall>t \<in> set ts. cn_windowEnd c - w \<le> t);
    i < length ts; \<not> snd (own_run l w s ts ! i); 0 \<le> w\<rbrakk>
     \<Longrightarrow> l \<le> passed (ts ! i - w) (ts ! i) (past @ take i (own_run l w s ts))"
proof (induction ts arbitrary: past s i)
  case (Cons t ts)
  obtain b s' where o: "own_step l w t s = (b, s')" by (cases "own_step l w t s")
  have le: "passed x y xs \<le> passed x' z xs" if "x' \<le> x" "\<forall>u \<in> fst ` set xs. u \<le> z" for x y x' z :: int and xs
    using that by (induction xs) auto
  show ?case
  proof (cases i)
    case 0
    with o Cons.prems(4) obtain c where s: "s = Some c" "\<not> t > cn_windowEnd c" "l \<le> cn_count c"
      by (cases s) (auto split: if_splits)
    have "\<forall>u \<in> fst ` set past. u \<le> t" using Cons.prems(1) by (auto simp: sorted_append)
    then have "passed (cn_windowEnd c - w) (cn_windowEnd c) past \<le> passed (t - w) t past"
      using s(2) by (intro le) auto
    with s Cons.prems(2) 0 show ?thesis by simp
  next
    case (Suc j)
    have "sorted (map fst (past @ [(t, b)]) @ ts)" using Cons.prems(1) by simp
    moreover have "\<forall>c. s' = Some c \<longrightarrow>
        cn_count c \<le> passed (cn_windowEnd c - w) (cn_windowEnd c) (past @ [(t, b)]) \<and>
        (\<forall>u \<in> set ts. cn_windowEnd c - w \<le> u)"
      using o Cons.prems(1,2,5)
      by (cases s) (auto simp: passed_append sorted_append split: if_splits)
    moreover have "j < length ts" "\<not> snd (own_run l w s' ts ! j)" using Cons.prems(3,4) Suc o by auto
    ultimately have "l \<le> passed (ts ! j - w) (ts ! j) ((past @ [(t, b)]) @ take j (own_run l w s' ts))"
      using Cons.prems(5) by (rule Cons.IH)
    with Suc o show ?thesis by simp
  qed
qed simp

lemma own_run_fst: "map fst (own_run l w s ts) = ts"
  by (induction ts arbitrary: s) (auto split: prod.splits)

text \<open>
  C27. In no stretch of time as long as the window do more than twice the limit of a caller's requests
  pass, whatever the settings and the other callers; and a request is turned away only when as many of
  this caller's requests as the limit passed within the window before it.
\<close>

theorem limiter_bounds:
  fixes limit window t0 :: int
  defines "f \<equiv> NewFixedWindow limit window t0"
  assumes "sorted (map snd rs)"
  shows "passed a (a + fw_window f) (answers_of c (fw_run f rs)) \<le> 2 * fw_limit f \<and>
    (\<forall>i. i < length (answers_of c (fw_run f rs)) \<and> \<not> snd (answers_of c (fw_run f rs) ! i) \<longrightarrow>
       fw_limit f \<le> passed (fst (answers_of c (fw_run f rs) ! i) - fw_window f)
                        (fst (answers_of c (fw_run f rs) ! i)) (take i (answers_of c (fw_run f rs))))"
proof -
  let ?ts = "times_of c rs" and ?l = "fw_limit f" and ?w = "fw_window f"
  have e: "answers_of c (fw_run f rs) = own_run ?l ?w None ?ts"
    unfolding f_def by (rule fresh_run) (rule assms(2))
  have s: "sorted ?ts" using assms(2) unfolding times_of_def by (rule sorted_filter)
  have p: "1 \<le> ?l" "0 \<le> ?w" using fresh_limiter [of limit window t0] by (simp_all add: f_def)
  have len: "length (own_run ?l ?w None ?ts) = length ?ts" by (metis length_map own_run_fst)
  have at: "i < length ?ts \<Longrightarrow> fst (own_run ?l ?w None ?ts ! i) = ?ts ! i" for i
    using own_run_fst [of ?l ?w None ?ts] len by (metis nth_map)
  have "passed a (a + ?w) (own_run ?l ?w None ?ts) \<le> 2 * ?l"
    using s p by (intro any_interval) (simp_all add: capped_def)
  moreover have "?l \<le> passed (?ts ! i - ?w) (?ts ! i) ([] @ take i (own_run ?l ?w None ?ts))"
    if "i < length ?ts" "\<not> snd (own_run ?l ?w None ?ts ! i)" for i
    using s p that by (intro refused_only_when_full) simp_all
  ultimately show ?thesis using e len at by simp
qed

theorem limiter_bounds_witness:
  "passed 9 (9 + 10) (answers_of ''a'' (fw_run (NewFixedWindow 1 10 0) [(''a'', 0), (''b'', 3), (''a'', 9), (''a'', 11)])) \<le> 2"
  using limiter_bounds [of "[(''a'', 0), (''b'', 3), (''a'', 9), (''a'', 11)]" 9 1 10 0 "''a''"]
  by (simp add: NewFixedWindow_def)

section \<open>The announced wait\<close>

text \<open>
  A caller that is turned away and comes back exactly after the announced number of seconds is
  turned away again whenever that number was rounded down or the wait was a whole number of seconds:
  the window ends only after its last moment.
\<close>

theorem announced_wait_is_too_short:
  assumes "fw_allow c t f = ((False, d), f')" "retry_seconds d * 10 ^ 9 \<le> d" "0 \<le> d" "0 < fw_window f"
  shows "\<exists>d'. fst (fw_allow c (t + retry_seconds d * 10 ^ 9) f') = (False, d')"
proof -
  let ?g = "fw_sweep t f" and ?u = "t + retry_seconds d * 10 ^ 9"
  from assms(1) obtain k where k: "fw_callers ?g c = Some k" "\<not> t > cn_windowEnd k" "cn_count k \<ge> fw_limit ?g"
    and f': "f' = ?g" "d = cn_windowEnd k - t"
    by (auto simp: fw_allow_def Let_def split: option.splits if_splits)
  then have u: "\<not> ?u > cn_windowEnd k" using assms(2) by linarith
  then have "live ?u (fw_callers (fw_sweep ?u f') c) = Some k"
    using k(1) f' by (simp add: fw_sweep_facts)
  then have "fw_callers (fw_sweep ?u f') c = Some k"
    by (cases "fw_callers (fw_sweep ?u f') c") (auto split: if_splits)
  with u k(3) f'(1) show ?thesis
    by (simp add: fw_allow_def Let_def fw_sweep_facts)
qed

text \<open>Five requests at once and one 9.6 seconds later, which is told to wait for 0 seconds.\<close>

definition busy_limiter :: fixed_window where
  "busy_limiter =
     \<lparr>fw_limit = 5, fw_window = DefaultWindow,
      fw_callers = [''10.0.0.1'' \<mapsto> \<lparr>cn_count = 5, cn_windowEnd = DefaultWindow\<rparr>], fw_lastSweep = 0\<rparr>"

theorem announced_wait_is_too_short_witness:
  "retry_seconds (4 * 10 ^ 8) = 0 \<and>
   (\<exists>f' d'. fw_allow ''10.0.0.1'' (96 * 10 ^ 8) busy_limiter = ((False, 4 * 10 ^ 8), f') \<and>
      fst (fw_allow ''10.0.0.1'' (96 * 10 ^ 8 + retry_seconds (4 * 10 ^ 8) * 10 ^ 9) f') = (False, d'))"
proof -
  have r: "retry_seconds (4 * 10 ^ 8) = 0" by (simp add: retry_seconds_def)
  have a: "fw_allow ''10.0.0.1'' (96 * 10 ^ 8) busy_limiter = ((False, 4 * 10 ^ 8), busy_limiter)"
    by (simp add: fw_allow_def fw_sweep_def busy_limiter_def DefaultWindow_def Let_def)
  have "0 < fw_window busy_limiter" by (simp add: busy_limiter_def DefaultWindow_def)
  with announced_wait_is_too_short [OF a] r a show ?thesis by simp
qed

section \<open>Paths\<close>

lemma stripPrefix_absolute: "HasPrefix (stripPrefix path p) ''/''"
  by (auto simp: stripPrefix_def Let_def HasPrefix_def)

lemma stripPrefix_under: "stripPrefix (p @ CHR ''/'' # rest) p = CHR ''/'' # rest"
  by (simp add: stripPrefix_def TrimPrefix_def HasPrefix_def Let_def)

lemma stripPrefix_itself: "stripPrefix p p = ''/''"
  by (simp add: stripPrefix_def TrimPrefix_def HasPrefix_def Let_def)

lemma register_routes_targets:
  "register_routes rs = Inr ps \<Longrightarrow> (pat, r) \<in> set ps \<Longrightarrow> r \<in> set rs \<and> (\<exists>u. rt_Target r = Some u) \<and> rt_Prefix r \<noteq> ''''"
  by (induction rs arbitrary: ps) (auto simp: map_sum_Inr split: if_splits)

lemma routes_loop_targets:
  "routes_loop getenv parse es = Inr rs \<Longrightarrow> r \<in> set rs \<Longrightarrow>
     \<exists>v u. (rt_Prefix r, v) \<in> set es \<and> rt_Target r = Some u \<and> parse (getenv v) = Inr u \<and>
       url_Scheme u \<noteq> '''' \<and> url_Host u \<noteq> ''''"
proof (induction es arbitrary: rs)
  case (Cons e es)
  obtain p v where e: "e = (p, v)" by (cases e)
  consider (skip) "getenv v = ''''" "routes_loop getenv parse es = Inr rs"
    | (taken) u rs' where "parse (getenv v) = Inr u" "url_Scheme u \<noteq> ''''" "url_Host u \<noteq> ''''"
        "rs = \<lparr>rt_Prefix = p, rt_Target = Some u\<rparr> # rs'" "routes_loop getenv parse es = Inr rs'"
    using Cons.prems(1) e by (auto simp: Let_def map_sum_Inr split: if_splits sum.splits)
  then show ?case
  proof cases
    case skip
    with Cons.IH [OF skip(2) Cons.prems(2)] show ?thesis by auto
  next
    case taken
    show ?thesis
    proof (cases "r \<in> set rs'")
      case True
      from Cons.IH [OF taken(5) True] show ?thesis by auto
    next
      case False
      with taken Cons.prems(2) e show ?thesis by auto
    qed
  qed
qed simp

text \<open>
  What a request is forwarded to: when the settings are accepted, every registered pattern belongs
  to a service with an address of its own, and a path under its prefix reaches the service as the path
  that follows the prefix - whatever path the address of the service itself has.
\<close>

lemma forwarded_to_its_service:
  assumes "routesFromEnv getenv parse = Inr rs" "gateway_Router rs = Inr ps" "(pat, r) \<in> set ps"
  shows "\<exists>v u. (rt_Prefix r, v) \<in> set gateway_wanted \<and> rt_Target r = Some u \<and> parse (getenv v) = Inr u \<and>
    (\<forall>rest. url_Path (proxyFor r u (rt_Prefix r @ CHR ''/'' # rest)) = CHR ''/'' # rest \<and>
            url_Host (proxyFor r u (rt_Prefix r @ CHR ''/'' # rest)) = url_Host u)"
proof -
  have "r \<in> set rs"
    using assms(2,3) register_routes_targets [of rs ps pat r] by (auto simp: gateway_Router_def split: if_splits)
  with assms(1) routes_loop_targets [of getenv parse gateway_wanted rs r] show ?thesis
    by (auto simp: routesFromEnv_def proxyFor_def stripPrefix_under)
qed

end
