(* ===== verification/Outbox_Reader.thy ===== *)
theory Outbox_Reader
  imports Ordering_Store "HOL-Library.List_Lexorder"
begin

text \<open>
  How the worker reads the Ordering outbox, \<open>internal/ordering/outbox\<close>: positions (\<open>lsn.go\<close>), the
  change table (\<open>reader.go\<close>), the checkpoint (\<open>checkpoint.go\<close>), failed attempts (\<open>failures.go\<close>), errors
  (\<open>errors.go\<close>) and the readiness check (\<open>readiness.go\<close>), with the tables of
  \<open>mssql/migrations/00003\<close> and \<open>00004\<close>. What the capture and cleanup jobs of the server do to the
  change table is a relation of \<open>Outbox_Facts\<close>.
\<close>

section \<open>Positions\<close>

type_synonym lsn = "8 word list"

definition lsn_IsZero :: "lsn \<Rightarrow> bool" where
  "lsn_IsZero l = (if length l = 0 then True else list_all (\<lambda>b. b = 0) l)"

text \<open>\<open>bytes.Compare\<close>\<close>

fun lsn_Compare :: "lsn \<Rightarrow> lsn \<Rightarrow> int" where
  "lsn_Compare [] [] = 0"
| "lsn_Compare [] (y # ys) = -1"
| "lsn_Compare (x # xs) [] = 1"
| "lsn_Compare (x # xs) (y # ys) =
     (if x < y then -1 else if y < x then 1 else lsn_Compare xs ys)"

section \<open>The tables\<close>

text \<open>
  A row of the change table: the position of its transaction, the operation (2 is an insert) and
  the captured columns. The list is in the order of \<open>__$start_lsn, __$seqval\<close>. A position the
  server does not know is NULL, read as the empty slice.
\<close>

record change_row =
  ch_StartLsn :: lsn
  ch_Operation :: int
  ch_Columns :: outbox_row

record failure_row =
  pf_Attempts :: int
  pf_LastError :: string
  pf_LastAttemptOnUtc :: time
  pf_PoisonedOnUtc :: "time option"

record capture_db =
  CdcEnabled :: bool
  CaptureExists :: bool
  Changes :: "change_row list"
  MinLsn :: lsn
  MaxLsn :: lsn
  Checkpoints :: "string \<rightharpoonup> lsn"
  PublishFailures :: "uuid \<rightharpoonup> failure_row"

text \<open>\<open>sys.fn_cdc_increment_lsn\<close> is the server's.\<close>

type_synonym increment = "lsn \<Rightarrow> lsn"

section \<open>Reading changes\<close>

record lsn_group =
  gr_LSN :: lsn
  gr_Messages :: "envelope list"

definition MessageCount :: "lsn_group list \<Rightarrow> nat" where
  "MessageCount groups = sum_list (map (\<lambda>g. length (gr_Messages g)) groups)"

record scanned_row =
  sr_Lsn :: lsn
  sr_Message :: envelope

definition scanChange :: "change_row \<Rightarrow> scanned_row" where
  "scanChange r =
     (let c = ch_Columns r in
      \<lparr>sr_Lsn = ch_StartLsn r,
       sr_Message =
         \<lparr>env_ID = ob_Id c,
          env_Contract = \<lparr>EventType = ob_EventType c, Version = ob_SchemaVersion c\<rparr>,
          env_AggregateID = ob_AggregateId c,
          env_CorrelationID = (case ob_CorrelationId c of None \<Rightarrow> '''' | Some s \<Rightarrow> s),
          env_OccurredOnUTC = ob_OccurredOnUtc c,
          env_Payload = ob_Payload c\<rparr>\<rparr>)"

definition reader_bounds :: "increment \<Rightarrow> lsn \<Rightarrow> (capture_db, lsn \<times> lsn \<times> lsn) act" where
  "reader_bounds increment after =
     on_err (Wrapped (Fmt ''reading capture bounds'' []))
       (query (\<lambda>db. (MinLsn db, MaxLsn db, if lsn_IsZero after then [] else increment after)))"

text \<open>A range outside what is captured is an error of the server; a limit of 0 reads all of it.\<close>

definition invalidRange :: int where "invalidRange = 313"

definition changes_stmt :: "lsn \<Rightarrow> lsn \<Rightarrow> nat \<Rightarrow> time \<Rightarrow> capture_db \<Rightarrow> (go_error + change_row list) \<times> capture_db" where
  "changes_stmt from to limit t db =
     (if lsn_Compare (MinLsn db) from \<le> 0 \<and> lsn_Compare from to \<le> 0 \<and> lsn_Compare to (MaxLsn db) \<le> 0
      then (let rows = filter (\<lambda>r. lsn_Compare from (ch_StartLsn r) \<le> 0 \<and> lsn_Compare (ch_StartLsn r) to \<le> 0
                                   \<and> ch_Operation r = 2) (Changes db)
            in (Inr (if limit > 0 then take limit rows else rows), db))
      else (Inl (SqlError invalidRange), db))"

definition reader_changes :: "lsn \<Rightarrow> lsn \<Rightarrow> nat \<Rightarrow> (capture_db, scanned_row list) act" where
  "reader_changes from to limit =
     andthen (on_err (Wrapped (Fmt ''reading captured outbox changes'' []))
                (call (changes_stmt from to limit)))
       (\<lambda>rows. ret (map scanChange rows))"

definition group_row :: "lsn_group list \<Rightarrow> scanned_row \<Rightarrow> lsn_group list" where
  "group_row groups row =
     (if groups \<noteq> [] \<and> lsn_Compare (gr_LSN (last groups)) (sr_Lsn row) = 0
      then butlast groups @ [(last groups)\<lparr>gr_Messages := gr_Messages (last groups) @ [sr_Message row]\<rparr>]
      else groups @ [\<lparr>gr_LSN = sr_Lsn row, gr_Messages = [sr_Message row]\<rparr>])"

definition groupByLSN :: "scanned_row list \<Rightarrow> lsn_group list" where
  "groupByLSN rows = foldl group_row [] rows"

definition reader_Read :: "increment \<Rightarrow> lsn \<Rightarrow> int \<Rightarrow> (capture_db, lsn_group list) act" where
  "reader_Read increment after batchSize =
     (if batchSize \<le> 0
      then fail (Plain (Fmt ''batch size must be positive, got %d'' [ArgInt batchSize]))
      else
        andthen (reader_bounds increment after) (\<lambda>(minLSN, maxLSN, next).
        if lsn_IsZero maxLSN then
          fail (NotReadyError (Fmt ''the server reports no maximum LSN yet'' []))
        else if lsn_IsZero minLSN then
          fail (NotReadyError (Fmt ''capture instance %s has no minimum LSN'' [ArgStr ''dbo_OutboxMessages'']))
        else if \<not> lsn_IsZero after \<and> lsn_Compare next minLSN < 0 then
          fail (CheckpointExpiredError after minLSN)
        else
          let from = (if lsn_IsZero after then minLSN else next) in
          if lsn_Compare from maxLSN > 0 then ret []
          else
            andthen (reader_changes from maxLSN (nat (batchSize + 1))) (\<lambda>rows.
            if length rows = 0 then ret []
            else if int (length rows) > batchSize then
              (let lastLSN = sr_Lsn (last rows);
                   kept = filter (\<lambda>row. lsn_Compare (sr_Lsn row) lastLSN \<noteq> 0) rows
               in if length kept = 0
                  then andthen (reader_changes lastLSN lastLSN 0) (\<lambda>rows. ret (groupByLSN rows))
                  else ret (groupByLSN kept))
            else ret (groupByLSN rows))))"

section \<open>The checkpoint\<close>

definition DefaultConsumerName :: string where
  "DefaultConsumerName = ''ordering-outbox-worker''"

definition NewCheckpointStore :: "string \<Rightarrow> string" where
  "NewCheckpointStore consumer = (if consumer = '''' then DefaultConsumerName else consumer)"

definition checkpoint_Load :: "string \<Rightarrow> (capture_db, lsn) act" where
  "checkpoint_Load consumer =
     andthen (on_err (Wrapped (Fmt ''loading outbox checkpoint for %s'' [ArgStr consumer]))
                (query (\<lambda>db. Checkpoints db consumer)))
       (\<lambda>r. ret (case r of None \<Rightarrow> [] | Some l \<Rightarrow> l))"

definition checkpoint_Save :: "string \<Rightarrow> lsn \<Rightarrow> (capture_db, unit) act" where
  "checkpoint_Save consumer l =
     (if lsn_IsZero l then fail (Plain (Fmt ''refusing to save an empty outbox checkpoint'' []))
      else on_err (Wrapped (Fmt ''saving outbox checkpoint for %s'' [ArgStr consumer]))
        (update (\<lambda>t db. db\<lparr>Checkpoints := (Checkpoints db)(consumer \<mapsto> l)\<rparr>)))"

section \<open>Failed attempts\<close>

record failure =
  fl_Attempts :: int
  fl_Poisoned :: bool

definition failures_Get :: "uuid \<Rightarrow> (capture_db, failure) act" where
  "failures_Get i =
     andthen (on_err (Wrapped (Fmt ''reading publish failures of %s'' [ArgUuid i]))
                (query (\<lambda>db. PublishFailures db i)))
       (\<lambda>r. ret (case r of
                   None \<Rightarrow> \<lparr>fl_Attempts = 0, fl_Poisoned = False\<rparr>
                 | Some f \<Rightarrow> \<lparr>fl_Attempts = pf_Attempts f, fl_Poisoned = pf_PoisonedOnUtc f \<noteq> None\<rparr>))"

definition maxRecordedError :: nat where "maxRecordedError = 2000"

definition record_failure_stmt ::
  "sqlserver \<Rightarrow> uuid \<Rightarrow> string \<Rightarrow> time \<Rightarrow> capture_db \<Rightarrow> (go_error + int) \<times> capture_db" where
  "record_failure_stmt S i reason t db =
     (case column_text S 2000 reason of
        None \<Rightarrow> (Inl truncated, db)
      | Some why \<Rightarrow>
          (let f = (case PublishFailures db i of
                      Some old \<Rightarrow> old\<lparr>pf_Attempts := pf_Attempts old + 1, pf_LastError := why, pf_LastAttemptOnUtc := t\<rparr>
                    | None \<Rightarrow> \<lparr>pf_Attempts = 1, pf_LastError = why, pf_LastAttemptOnUtc = t, pf_PoisonedOnUtc = None\<rparr>)
           in if column_int (pf_Attempts f) = None then (Inl overflow, db)
              else (Inr (pf_Attempts f), db\<lparr>PublishFailures := (PublishFailures db)(i \<mapsto> f)\<rparr>)))"

definition failures_RecordFailure :: "sqlserver \<Rightarrow> uuid \<Rightarrow> string \<Rightarrow> (capture_db, int) act" where
  "failures_RecordFailure S i reason =
     (let reason = (if length reason > maxRecordedError then take maxRecordedError reason else reason) in
      on_err (Wrapped (Fmt ''recording a publish failure of %s'' [ArgUuid i]))
        (call (record_failure_stmt S i reason)))"

definition failures_MarkPoisoned :: "uuid \<Rightarrow> (capture_db, unit) act" where
  "failures_MarkPoisoned i =
     on_err (Wrapped (Fmt ''marking %s poisoned'' [ArgUuid i]))
       (update (\<lambda>t db. case PublishFailures db i of
                         Some f \<Rightarrow>
                           if pf_PoisonedOnUtc f = None
                           then db\<lparr>PublishFailures := (PublishFailures db)(i \<mapsto> f\<lparr>pf_PoisonedOnUtc := Some t\<rparr>)\<rparr>
                           else db
                       | None \<Rightarrow> db))"

section \<open>Readiness\<close>

definition readiness_state :: "capture_db \<Rightarrow> string" where
  "readiness_state db =
     (if \<not> CdcEnabled db then ''the database does not have change data capture enabled''
      else if \<not> CaptureExists db then ''the capture instance for the outbox table does not exist''
      else if MaxLsn db = []
        then ''the capture job has not recorded a position yet (is SQL Server Agent running?)''
      else ''ready'')"

definition readiness_Check :: "(capture_db, unit) act" where
  "readiness_Check =
     andthen (on_err (Wrapped (Fmt ''checking whether capture is ready'' [])) (query readiness_state))
       (\<lambda>state. if state \<noteq> ''ready'' then fail (NotReadyError (Fmt state [])) else ret ())"

text \<open>
  \<open>Wait\<close>: what the \<open>n\<close>-th check found, and whether the worker was stopped in the pause after it.
  A run that never gets ready and is never stopped has no result.
\<close>

partial_function (option) readiness_Wait ::
  "(nat \<Rightarrow> go_error option) \<Rightarrow> (nat \<Rightarrow> go_error option) \<Rightarrow> nat \<Rightarrow> go_error option option" where
  "readiness_Wait check stopped n =
     (case check n of
        None \<Rightarrow> Some None
      | Some err \<Rightarrow>
          (case stopped n of
             Some reason \<Rightarrow> Some (Some reason)
           | None \<Rightarrow> readiness_Wait check stopped (Suc n)))"

end
