(* ===== verification/Outbox_Worker.thy ===== *)
theory Outbox_Worker
  imports Outbox_Reader Publisher
begin

text \<open>
  The worker that publishes the Ordering outbox: \<open>internal/ordering/outbox\<close> (\<open>processor.go\<close>, \<open>worker.go\<close>,
  \<open>options.go\<close>). The processor works on any reader, checkpoint store, failure store and publisher;
  \<open>sql_ports\<close> are those of \<open>Outbox_Reader\<close>. Log lines are not modelled.
\<close>

section \<open>Options\<close>

record worker_options =
  wo_ConsumerName :: string
  wo_BatchSize :: int
  wo_PollInterval :: duration
  wo_MaxPublishAttempts :: int
  wo_RetryBaseDelay :: duration
  wo_RetryMaxDelay :: duration

definition worker_DefaultOptions :: worker_options where
  "worker_DefaultOptions =
     \<lparr>wo_ConsumerName = DefaultConsumerName, wo_BatchSize = 100, wo_PollInterval = 5 * 10 ^ 9,
      wo_MaxPublishAttempts = 10, wo_RetryBaseDelay = 10 ^ 9, wo_RetryMaxDelay = 60 * 10 ^ 9\<rparr>"

definition readInt :: "(string \<Rightarrow> string) \<Rightarrow> string \<Rightarrow> int \<Rightarrow> go_error + int" where
  "readInt getenv name old =
     (let raw = getenv name in
      if raw = '''' then Inr old
      else (case Atoi raw of
              None \<Rightarrow> Inl (Plain (Fmt ''%s is not a number'' [ArgStr name]))
            | Some value \<Rightarrow> Inr value))"

text \<open>\<open>time.ParseDuration\<close> is a parameter.\<close>

definition readDuration ::
  "(string \<Rightarrow> string) \<Rightarrow> (string \<Rightarrow> duration option) \<Rightarrow> string \<Rightarrow> duration \<Rightarrow> go_error + duration" where
  "readDuration getenv parse name old =
     (let raw = getenv name in
      if raw = '''' then Inr old
      else (case parse raw of
              None \<Rightarrow> Inl (Plain (Fmt ''%s is not a duration'' [ArgStr name]))
            | Some value \<Rightarrow> Inr value))"

definition OptionsFromEnv ::
  "(string \<Rightarrow> string) \<Rightarrow> (string \<Rightarrow> duration option) \<Rightarrow> go_error + worker_options" where
  "OptionsFromEnv getenv parse =
     (let d = worker_DefaultOptions;
          name = getenv ''OUTBOX_CONSUMER_NAME'';
          consumer = (if name \<noteq> '''' then name else wo_ConsumerName d) in
      try_res (readInt getenv ''OUTBOX_BATCH_SIZE'' (wo_BatchSize d)) (\<lambda>batch.
      try_res (readInt getenv ''OUTBOX_MAX_PUBLISH_ATTEMPTS'' (wo_MaxPublishAttempts d)) (\<lambda>attempts.
      try_res (readDuration getenv parse ''OUTBOX_POLL_INTERVAL'' (wo_PollInterval d)) (\<lambda>poll.
      try_res (readDuration getenv parse ''OUTBOX_RETRY_BASE_DELAY'' (wo_RetryBaseDelay d)) (\<lambda>base.
      try_res (readDuration getenv parse ''OUTBOX_RETRY_MAX_DELAY'' (wo_RetryMaxDelay d)) (\<lambda>ceiling.
      if batch \<le> 0 then Inl (Plain (Fmt ''OUTBOX_BATCH_SIZE must be positive, got %d'' [ArgInt batch]))
      else if attempts \<le> 0 then
        Inl (Plain (Fmt ''OUTBOX_MAX_PUBLISH_ATTEMPTS must be positive, got %d'' [ArgInt attempts]))
      else Inr \<lparr>wo_ConsumerName = consumer, wo_BatchSize = batch, wo_PollInterval = poll,
                wo_MaxPublishAttempts = attempts, wo_RetryBaseDelay = base, wo_RetryMaxDelay = ceiling\<rparr>))))))"

section \<open>One cycle\<close>

datatype status = StatusIdle | StatusProcessed | StatusFaulted

fun worker_status_String :: "status \<Rightarrow> string" where
  "worker_status_String StatusProcessed = ''processed''"
| "worker_status_String StatusFaulted = ''faulted''"
| "worker_status_String StatusIdle = ''idle''"

record result =
  rt_Status :: status
  rt_Published :: nat
  rt_Poisoned :: nat

definition result_zero :: result where
  "result_zero = \<lparr>rt_Status = StatusIdle, rt_Published = 0, rt_Poisoned = 0\<rparr>"

record 's ports =
  po_Read :: "lsn \<Rightarrow> int \<Rightarrow> ('s, lsn_group list) act"
  po_Load :: "('s, lsn) act"
  po_Save :: "lsn \<Rightarrow> ('s, unit) act"
  po_Get :: "uuid \<Rightarrow> ('s, failure) act"
  po_RecordFailure :: "uuid \<Rightarrow> string \<Rightarrow> ('s, int) act"
  po_MarkPoisoned :: "uuid \<Rightarrow> ('s, unit) act"
  po_Publish :: "envelope \<Rightarrow> ('s, unit) act"

text \<open>
  The result is a value the loops hand on. It is returned beside an error, so an error ends a loop as
  a value too.
\<close>

definition worker_recordFailure ::
  "worker_options \<Rightarrow> 's ports \<Rightarrow> (go_error \<Rightarrow> string) \<Rightarrow> envelope \<Rightarrow> go_error \<Rightarrow> result \<Rightarrow> ('s, bool \<times> result) act" where
  "worker_recordFailure opt po error_text m cause res =
     andthen (po_RecordFailure po (env_ID m) (error_text cause)) (\<lambda>attempts.
     if attempts \<ge> wo_MaxPublishAttempts opt then
       andthen (po_MarkPoisoned po (env_ID m)) (\<lambda>_.
       ret (True, res\<lparr>rt_Poisoned := rt_Poisoned res + 1\<rparr>))
     else ret (False, res))"

definition worker_publish ::
  "worker_options \<Rightarrow> 's ports \<Rightarrow> (go_error \<Rightarrow> string) \<Rightarrow> envelope \<Rightarrow> result \<Rightarrow> ('s, bool \<times> result) act" where
  "worker_publish opt po error_text m res =
     andthen (po_Get po (env_ID m)) (\<lambda>failure.
     if fl_Poisoned failure then ret (True, res)
     else
       andthen (attempt (po_Publish po m)) (\<lambda>r.
       case r of
         Inl err \<Rightarrow>
           if is_context_error err then fail err
           else worker_recordFailure opt po error_text m err res
       | Inr u \<Rightarrow> ret (True, res\<lparr>rt_Published := rt_Published res + 1\<rparr>)))"

text \<open>How a loop ended: all of it was handled, a message was not, or an error was returned.\<close>

datatype loop_end = Handled | NotHandled | Errored go_error

text \<open>
  The messages of a group; \<open>stopped n\<close> tells whether the worker has been asked to stop when it comes
  to the \<open>n\<close>-th message of the batch.
\<close>

fun messages_loop ::
  "worker_options \<Rightarrow> 's ports \<Rightarrow> (go_error \<Rightarrow> string) \<Rightarrow> (nat \<Rightarrow> bool) \<Rightarrow> nat \<Rightarrow> result \<Rightarrow> envelope list
     \<Rightarrow> ('s, loop_end \<times> nat \<times> result) act" where
  "messages_loop opt po etext stopped n res [] = ret (Handled, n, res)"
| "messages_loop opt po etext stopped n res (m # ms) =
     (if stopped n then ret (Errored (DriverError ContextCanceled), n, res)
      else
        andthen (attempt (worker_publish opt po etext m res)) (\<lambda>r.
        case r of
          Inl err \<Rightarrow> ret (Errored err, n, res)
        | Inr (handled, res') \<Rightarrow>
            if \<not> handled then ret (NotHandled, n, res'\<lparr>rt_Status := StatusFaulted\<rparr>)
            else messages_loop opt po etext stopped (Suc n) res' ms))"

fun groups_loop ::
  "worker_options \<Rightarrow> 's ports \<Rightarrow> (go_error \<Rightarrow> string) \<Rightarrow> (nat \<Rightarrow> bool) \<Rightarrow> nat \<Rightarrow> result \<Rightarrow> lsn_group list
     \<Rightarrow> ('s, result \<times> go_error option) act" where
  "groups_loop opt po etext stopped n res [] = ret (res, None)"
| "groups_loop opt po etext stopped n res (g # gs) =
     andthen (messages_loop opt po etext stopped n res (gr_Messages g)) (\<lambda>(ending, n', res').
     case ending of
       Errored err \<Rightarrow> ret (res', Some err)
     | NotHandled \<Rightarrow> ret (res', None)
     | Handled \<Rightarrow>
         andthen (attempt (po_Save po (gr_LSN g))) (\<lambda>r.
         case r of
           Inl err \<Rightarrow> ret (res', Some err)
         | Inr u \<Rightarrow> groups_loop opt po etext stopped n' res' gs))"

definition worker_ProcessOnce ::
  "worker_options \<Rightarrow> 's ports \<Rightarrow> (go_error \<Rightarrow> string) \<Rightarrow> (nat \<Rightarrow> bool) \<Rightarrow> ('s, result \<times> go_error option) act" where
  "worker_ProcessOnce opt po etext stopped =
     andthen (attempt (po_Load po)) (\<lambda>r.
     case r of
       Inl err \<Rightarrow> ret (result_zero, Some err)
     | Inr checkpoint \<Rightarrow>
         andthen (attempt (po_Read po checkpoint (wo_BatchSize opt))) (\<lambda>r.
         case r of
           Inl err \<Rightarrow> ret (result_zero, Some err)
         | Inr groups \<Rightarrow>
             if length groups = 0 then ret (result_zero, None)
             else groups_loop opt po etext stopped 0 (result_zero\<lparr>rt_Status := StatusProcessed\<rparr>) groups))"

section \<open>The loop\<close>

definition unhealthyAfter :: int where "unhealthyAfter = 5"

definition worker_Health :: "int \<Rightarrow> go_error + unit" where
  "worker_Health failures =
     (if failures \<ge> unhealthyAfter then Inl (Plain (Fmt ''the last %d outbox cycles failed'' [ArgInt failures]))
      else Inr ())"

text \<open>\<open>jitter\<close> is the random number drawn from 0 to 1; rounding of the product is not modelled.\<close>

definition worker_backoff :: "worker_options \<Rightarrow> int \<Rightarrow> rat \<Rightarrow> duration" where
  "worker_backoff opt failures jitter =
     (let delay = min (of_int (wo_RetryBaseDelay opt) * 2 ^ nat (min (failures - 1) 10))
                      (of_int (wo_RetryMaxDelay opt))
      in \<lfloor>delay + delay * (1 / 5) * jitter\<rfloor>)"

text \<open>The delay after a cycle and the new count of failures in a row.\<close>

definition worker_cycle ::
  "worker_options \<Rightarrow> rat \<Rightarrow> bool \<Rightarrow> result \<times> go_error option \<Rightarrow> int \<Rightarrow> duration \<times> int" where
  "worker_cycle opt jitter cancelled outcome failures =
     (case outcome of
        (res, Some err) \<Rightarrow>
          if cancelled then (0, failures)
          else (worker_backoff opt (failures + 1) jitter, failures + 1)
      | (res, None) \<Rightarrow>
          if rt_Status res = StatusFaulted then (worker_backoff opt (failures + 1) jitter, failures + 1)
          else if rt_Status res = StatusProcessed then (0, 0)
          else (wo_PollInterval opt, 0))"

text \<open>What surrounds the \<open>n\<close>-th cycle of \<open>Run\<close>.\<close>

record turn =
  tu_Env :: env
  tu_Stopped :: "nat \<Rightarrow> bool"
  tu_Cancelled :: bool
  tu_Jitter :: rat

text \<open>One turn of the loop: a cycle, and what it makes of the count of failures.\<close>

definition worker_turn ::
  "worker_options \<Rightarrow> 's ports \<Rightarrow> (go_error \<Rightarrow> string) \<Rightarrow> turn \<Rightarrow> int \<times> 's \<Rightarrow> int \<times> 's" where
  "worker_turn opt po etext tu w =
     (case w of (failures, s) \<Rightarrow>
       (case worker_ProcessOnce opt po etext (tu_Stopped tu) (tu_Env tu, s) of
          (r, E, s') \<Rightarrow>
            (let outcome = (case r of Inl err \<Rightarrow> (result_zero, Some err) | Inr x \<Rightarrow> x)
             in (snd (worker_cycle opt (tu_Jitter tu) (tu_Cancelled tu) outcome failures), s'))))"

text \<open>
  The loop of \<open>Run\<close>. Whether there is a pause or not, it ends after a cycle when the worker has been
  asked to stop; \<open>ended n\<close> says that it was by the end of the pause after the \<open>n\<close>-th cycle. A worker
  that is never stopped has no result.
\<close>

partial_function (option) worker_loop ::
  "worker_options \<Rightarrow> 's ports \<Rightarrow> (go_error \<Rightarrow> string) \<Rightarrow> (nat \<Rightarrow> turn) \<Rightarrow> (nat \<Rightarrow> bool) \<Rightarrow> nat \<Rightarrow> int \<times> 's
     \<Rightarrow> (int \<times> 's) option" where
  "worker_loop opt po etext turns ended n w =
     (let w' = worker_turn opt po etext (turns n) w
      in if ended n then Some w' else worker_loop opt po etext turns ended (Suc n) w')"

text \<open>
  \<open>Run\<close>: the wait for readiness ends with an error only when the worker is stopped meanwhile, which is
  a clean stop; \<open>stopped0\<close> says that it was stopped by the time the wait was over.
\<close>

definition worker_Run ::
  "worker_options \<Rightarrow> 's ports \<Rightarrow> (go_error \<Rightarrow> string) \<Rightarrow> (nat \<Rightarrow> go_error option) \<Rightarrow> (nat \<Rightarrow> go_error option) \<Rightarrow> bool
     \<Rightarrow> (nat \<Rightarrow> turn) \<Rightarrow> (nat \<Rightarrow> bool) \<Rightarrow> int \<times> 's \<Rightarrow> (int \<times> 's) option" where
  "worker_Run opt po etext check stopped stopped0 turns ended w =
     (case readiness_Wait check stopped 0 of
        None \<Rightarrow> None
      | Some (Some reason) \<Rightarrow> Some w
      | Some None \<Rightarrow> if stopped0 then Some w else worker_loop opt po etext turns ended 0 w)"

section \<open>The database and a broker\<close>

record 'b worker_world =
  ww_DB :: capture_db
  ww_Broker :: 'b

definition ww_db :: "(capture_db, 'a) act \<Rightarrow> ('b worker_world, 'a) act" where
  "ww_db = zoom ww_DB (\<lambda>t s. s\<lparr>ww_DB := t\<rparr>)"

definition ww_broker :: "('b, 'a) act \<Rightarrow> ('b worker_world, 'a) act" where
  "ww_broker = zoom ww_Broker (\<lambda>t s. s\<lparr>ww_Broker := t\<rparr>)"

definition sql_ports ::
  "sqlserver \<Rightarrow> increment \<Rightarrow> string \<Rightarrow> (envelope \<Rightarrow> ('b, unit) act) \<Rightarrow> 'b worker_world ports" where
  "sql_ports S increment consumer publish =
     \<lparr>po_Read = (\<lambda>after n. ww_db (reader_Read increment after n)),
      po_Load = ww_db (checkpoint_Load consumer),
      po_Save = (\<lambda>l. ww_db (checkpoint_Save consumer l)),
      po_Get = (\<lambda>i. ww_db (failures_Get i)),
      po_RecordFailure = (\<lambda>i why. ww_db (failures_RecordFailure S i why)),
      po_MarkPoisoned = (\<lambda>i. ww_db (failures_MarkPoisoned i)),
      po_Publish = (\<lambda>m. ww_broker (publish m))\<rparr>"

end
