(* ===== verification/Outbox_Facts.thy ===== *)
theory Outbox_Facts
  imports Outbox_Worker
begin

text \<open>
  Facts about the outbox worker: the order of positions, what a read returns, and what a cycle does to
  the tables and the broker.
\<close>

section \<open>Positions\<close>

lemma lsn_Compare_order: "lsn_Compare a b = (if a < b then -1 else if a = b then 0 else 1)"
  by (induction a b rule: lsn_Compare.induct) auto

lemma lsn_Compare_simps [simp]:
  "lsn_Compare a b < 0 \<longleftrightarrow> a < b" "lsn_Compare a b \<le> 0 \<longleftrightarrow> a \<le> b" "lsn_Compare a b = 0 \<longleftrightarrow> a = b"
  "lsn_Compare a b > 0 \<longleftrightarrow> b < a"
  by (auto simp: lsn_Compare_order)

text \<open>A position of the log: ten bytes, with a greater one after it.\<close>

definition position :: "lsn \<Rightarrow> bool" where
  "position l \<longleftrightarrow> length l = 10 \<and> \<not> lsn_IsZero l \<and> l < replicate 10 255"

text \<open>
  What SQL Server documents of \<open>sys.fn_cdc_increment_lsn\<close>: the next position, so no position lies
  between.
\<close>

definition increment_ok :: "increment \<Rightarrow> bool" where
  "increment_ok inc \<longleftrightarrow> (\<forall>c l. position c \<and> length l = 10 \<longrightarrow> (inc c \<le> l \<longleftrightarrow> c < l))"

section \<open>Grouping\<close>

function group_rec :: "scanned_row list \<Rightarrow> lsn_group list" where
  "group_rec [] = []"
| "group_rec (r # rs) =
     \<lparr>gr_LSN = sr_Lsn r, gr_Messages = sr_Message r # map sr_Message (takeWhile (\<lambda>x. sr_Lsn x = sr_Lsn r) rs)\<rparr>
       # group_rec (dropWhile (\<lambda>x. sr_Lsn x = sr_Lsn r) rs)"
  by pat_completeness auto
termination
  by (relation "measure length") (auto simp: less_Suc_eq_le length_dropWhile_le)

lemma group_row_front: "gs \<noteq> [] \<Longrightarrow> group_row (hs @ gs) r = hs @ group_row gs r"
  by (auto simp: group_row_def butlast_append)

lemma group_rows_front: "gs \<noteq> [] \<Longrightarrow> foldl group_row (hs @ gs) rs = hs @ foldl group_row gs rs"
proof (induction rs arbitrary: gs)
  case (Cons r rs)
  have "group_row gs r \<noteq> []" by (simp add: group_row_def)
  with Cons show ?case by (simp add: group_row_front)
qed simp

lemma group_rows_one:
  "foldl group_row [g] rs =
     g\<lparr>gr_Messages := gr_Messages g @ map sr_Message (takeWhile (\<lambda>x. sr_Lsn x = gr_LSN g) rs)\<rparr>
       # foldl group_row [] (dropWhile (\<lambda>x. sr_Lsn x = gr_LSN g) rs)"
proof (induction rs arbitrary: g)
  case (Cons r rs)
  show ?case
  proof (cases "sr_Lsn r = gr_LSN g")
    case True
    then show ?thesis
      using Cons.IH [of "g\<lparr>gr_Messages := gr_Messages g @ [sr_Message r]\<rparr>"]
      by (simp add: group_row_def)
  next
    case False
    then have "foldl group_row [g] (r # rs) = [g] @ foldl group_row [\<lparr>gr_LSN = sr_Lsn r, gr_Messages = [sr_Message r]\<rparr>] rs"
      using group_rows_front [of "[\<lparr>gr_LSN = sr_Lsn r, gr_Messages = [sr_Message r]\<rparr>]" "[g]" rs]
      by (simp add: group_row_def)
    also have "\<dots> = g # foldl group_row [] (r # rs)" by (simp add: group_row_def)
    finally show ?thesis using False by simp
  qed
qed simp

lemma groupByLSN_rec: "groupByLSN rs = group_rec rs"
proof (induction rs rule: group_rec.induct)
  case (2 r rs)
  have "groupByLSN (r # rs) = foldl group_row [\<lparr>gr_LSN = sr_Lsn r, gr_Messages = [sr_Message r]\<rparr>] rs"
    by (simp add: groupByLSN_def group_row_def)
  with 2 show ?case by (simp add: group_rows_one groupByLSN_def)
qed (simp add: groupByLSN_def)

lemma group_rec_messages: "concat (map gr_Messages (group_rec rs)) = map sr_Message rs"
proof (induction rs rule: group_rec.induct)
  case (2 r rs)
  have "map sr_Message rs = map sr_Message (takeWhile (\<lambda>x. sr_Lsn x = sr_Lsn r) rs)
      @ map sr_Message (dropWhile (\<lambda>x. sr_Lsn x = sr_Lsn r) rs)"
    by (metis map_append takeWhile_dropWhile_id)
  with 2 show ?case by simp
qed simp

lemma group_rec_Nil [simp]: "group_rec rs = [] \<longleftrightarrow> rs = []"
  by (cases rs) auto

section \<open>What a read returns\<close>

text \<open>The inserts a reader at a position has not been given yet; the empty slice is no position.\<close>

definition unread :: "lsn \<Rightarrow> capture_db \<Rightarrow> change_row list" where
  "unread c db = filter (\<lambda>r. ch_Operation r = 2 \<and> (lsn_IsZero c \<or> c < ch_StartLsn r)) (Changes db)"

definition capture_ok :: "capture_db \<Rightarrow> bool" where
  "capture_ok db \<longleftrightarrow>
     sorted (map ch_StartLsn (Changes db)) \<and>
     (\<forall>r \<in> set (Changes db). position (ch_StartLsn r) \<and> MinLsn db \<le> ch_StartLsn r \<and> ch_StartLsn r \<le> MaxLsn db)"

text \<open>\<open>P\<close> is a beginning of the rows that ends where a transaction ends.\<close>

definition whole_beginning :: "change_row list \<Rightarrow> change_row list \<Rightarrow> change_row list \<Rightarrow> bool" where
  "whole_beginning P Q rows \<longleftrightarrow>
     rows = P @ Q \<and> (\<forall>p \<in> set P. \<forall>q \<in> set Q. ch_StartLsn p < ch_StartLsn q) \<and> (P = [] \<longrightarrow> Q = [])"

lemma sorted_unread: "capture_ok db \<Longrightarrow> sorted (map ch_StartLsn (unread c db))"
  unfolding capture_ok_def unread_def by (auto intro: sorted_filter)

text \<open>Cutting a sorted list at a position.\<close>

lemma sorted_cut:
  assumes "sorted (map f xs)" "\<And>a b. a \<le> b \<Longrightarrow> P b \<Longrightarrow> P a"
  shows "xs = filter (\<lambda>y. P (f y)) xs @ filter (\<lambda>y. \<not> P (f y)) xs"
  using assms(1)
proof (induction xs)
  case (Cons x xs)
  show ?case
  proof (cases "P (f x)")
    case True
    with Cons show ?thesis by simp
  next
    case False
    then have "\<forall>y \<in> set xs. \<not> P (f y)" using Cons.prems assms(2) by auto
    with False show ?thesis by (simp add: filter_empty_conv filter_id_conv)
  qed
qed simp

lemma cut_whole:
  assumes "sorted (map ch_StartLsn rows)" "P = filter (\<lambda>r. ch_StartLsn r < l) rows" "P \<noteq> []"
  shows "\<exists>Q. whole_beginning P Q rows"
proof -
  have "rows = P @ filter (\<lambda>r. \<not> ch_StartLsn r < l) rows"
    unfolding assms(2) by (rule sorted_cut [OF assms(1), of "\<lambda>x. x < l"]) simp
  with assms(2,3) show ?thesis
    by (intro exI [of _ "filter (\<lambda>r. \<not> ch_StartLsn r < l) rows"]) (auto simp: whole_beginning_def)
qed

lemma cut_whole_le:
  assumes "sorted (map ch_StartLsn rows)" "P = filter (\<lambda>r. ch_StartLsn r \<le> l) rows" "P \<noteq> []"
  shows "\<exists>Q. whole_beginning P Q rows"
proof -
  have "rows = P @ filter (\<lambda>r. \<not> ch_StartLsn r \<le> l) rows"
    unfolding assms(2) by (rule sorted_cut [OF assms(1), of "\<lambda>x. x \<le> l"]) simp
  with assms(2,3) show ?thesis
    by (intro exI [of _ "filter (\<lambda>r. \<not> ch_StartLsn r \<le> l) rows"]) (auto simp: whole_beginning_def)
qed

text \<open>The two queries of a read, on the unread rows.\<close>

lemma changes_from:
  assumes "capture_ok db" "if lsn_IsZero c then from = MinLsn db else position c \<and> from = inc c" "increment_ok inc"
  shows "filter (\<lambda>r. from \<le> ch_StartLsn r \<and> ch_StartLsn r \<le> MaxLsn db \<and> ch_Operation r = 2) (Changes db)
    = unread c db"
  unfolding unread_def
proof (rule filter_cong [OF refl])
  fix r assume "r \<in> set (Changes db)"
  with assms(1) have r: "position (ch_StartLsn r)" "MinLsn db \<le> ch_StartLsn r" "ch_StartLsn r \<le> MaxLsn db"
    by (auto simp: capture_ok_def)
  then have "length (ch_StartLsn r) = 10" by (simp add: position_def)
  with assms(2,3) r show "(from \<le> ch_StartLsn r \<and> ch_StartLsn r \<le> MaxLsn db \<and> ch_Operation r = 2)
      \<longleftrightarrow> (ch_Operation r = 2 \<and> (lsn_IsZero c \<or> c < ch_StartLsn r))"
    by (auto simp: increment_ok_def split: if_splits)
qed

lemma changes_at:
  assumes "capture_ok db" "u \<in> set (unread c db)" "ch_StartLsn u = l"
  shows "filter (\<lambda>r. l \<le> ch_StartLsn r \<and> ch_StartLsn r \<le> l \<and> ch_Operation r = 2) (Changes db)
    = filter (\<lambda>r. ch_StartLsn r = l) (unread c db)"
  unfolding unread_def filter_filter
  using assms(2,3) by (intro filter_cong) (auto simp: unread_def)

lemma quiet_call: "(\<And>t s. snd (stmt t s) = s) \<Longrightarrow> quiet (call stmt)"
  by (rule quietI) (auto dest!: call_cases)

lemma quiet_reader_changes: "quiet (reader_changes from to limit)"
  unfolding reader_changes_def
  by (intro quiet_andthen) (auto simp: changes_stmt_def Let_def intro!: quiet_call)

lemma quiet_reader_Read: "quiet (reader_Read inc c n)"
proof -
  have [simp]: "quiet (andthen (reader_changes a b k) (\<lambda>rows. ret (f rows)))"
      for a b k and f :: "scanned_row list \<Rightarrow> lsn_group list"
    by (intro quiet_andthen quiet_reader_changes) simp
  show ?thesis
    unfolding reader_Read_def
    by (auto simp: reader_bounds_def Let_def split: prod.split
        intro!: quiet_andthen quiet_reader_changes)
qed

lemma reader_changes_run:
  assumes "reader_changes from to limit (E, db) = (Inr rows, E', db')"
  shows "rows = map scanChange (let xs = filter (\<lambda>r. from \<le> ch_StartLsn r \<and> ch_StartLsn r \<le> to \<and> ch_Operation r = 2)
      (Changes db) in if limit > 0 then take limit xs else xs)"
  using assms
  by (auto simp: reader_changes_def andthen_Inr on_err_Inr changes_stmt_def Let_def dest!: call_Inr split: if_splits)

lemma reader_bounds_run:
  assumes "reader_bounds inc c (E, db) = (Inr (lo, hi, next), E', db')"
  shows "lo = MinLsn db \<and> hi = MaxLsn db \<and> next = (if lsn_IsZero c then [] else inc c)"
  using assms by (auto simp: reader_bounds_def on_err_Inr dest!: query_Inr split: if_splits)

lemma sr_Lsn_scan [simp]: "sr_Lsn (scanChange r) = ch_StartLsn r"
  by (simp add: scanChange_def Let_def)

definition msg_of :: "change_row \<Rightarrow> envelope" where
  "msg_of r = sr_Message (scanChange r)"

text \<open>
  A batch: the rows of a read, whole transactions, none of them when there are none, and more than
  the limit only when one transaction alone wrote more.
\<close>

definition batch_of :: "int \<Rightarrow> change_row list \<Rightarrow> change_row list \<Rightarrow> change_row list \<Rightarrow> bool" where
  "batch_of n rows P Q \<longleftrightarrow>
     whole_beginning P Q rows \<and>
     (int (length P) \<le> n \<or> (\<forall>p \<in> set P. \<forall>q \<in> set P. ch_StartLsn p = ch_StartLsn q))"

lemma batch_cut:
  assumes "sorted (map ch_StartLsn rows)" "0 < n" "rs = take (nat (n + 1)) rows" "rs \<noteq> []"
  shows "int (length rs) \<le> n \<Longrightarrow> batch_of n rows rs []"
    and "n < int (length rs) \<Longrightarrow> l = ch_StartLsn (last rs) \<Longrightarrow> kept = filter (\<lambda>r. ch_StartLsn r \<noteq> l) rs \<Longrightarrow>
      kept \<noteq> [] \<Longrightarrow> \<exists>Q. batch_of n rows kept Q"
    and "n < int (length rs) \<Longrightarrow> l = ch_StartLsn (last rs) \<Longrightarrow> filter (\<lambda>r. ch_StartLsn r \<noteq> l) rs = [] \<Longrightarrow>
      \<exists>Q. batch_of n rows (filter (\<lambda>r. ch_StartLsn r = l) rows) Q"
proof -
  let ?later = "drop (nat (n + 1)) rows"
  have app: "rows = rs @ ?later" using assms(3) by simp
  have srt: "sorted (map ch_StartLsn (rs @ ?later))" using assms(1) app by simp
  have rs: "rs = butlast rs @ [last rs]" using assms(4) by simp
  have below: "\<forall>r \<in> set rs. ch_StartLsn r \<le> ch_StartLsn (last rs)"
  proof -
    have "sorted (map ch_StartLsn (butlast rs @ [last rs]))"
      using srt unfolding rs [symmetric] by (simp add: sorted_append)
    then have "\<forall>r \<in> set (butlast rs @ [last rs]). ch_StartLsn r \<le> ch_StartLsn (last rs)"
      by (simp add: sorted_append)
    then show ?thesis unfolding rs [symmetric] .
  qed
  have above: "\<forall>r \<in> set ?later. ch_StartLsn (last rs) \<le> ch_StartLsn r"
    using srt assms(4) by (auto simp: sorted_append)
  show "batch_of n rows rs []" if "int (length rs) \<le> n"
  proof -
    from that assms(2,3) have "?later = []" by (auto simp: min_def split: if_splits)
    with that app assms(4) show ?thesis by (simp add: batch_of_def whole_beginning_def)
  qed
  show "\<exists>Q. batch_of n rows kept Q"
    if "n < int (length rs)" "l = ch_StartLsn (last rs)" "kept = filter (\<lambda>r. ch_StartLsn r \<noteq> l) rs" "kept \<noteq> []"
  proof -
    have "filter (\<lambda>r. ch_StartLsn r < l) rows = filter (\<lambda>r. ch_StartLsn r < l) rs"
      using above that(2) by (subst app, simp only: filter_append) (auto simp: filter_empty_conv not_less)
    also have "\<dots> = kept"
      unfolding that(3) using below that(2) by (intro filter_cong) (auto simp: order_less_le)
    finally have k: "kept = filter (\<lambda>r. ch_StartLsn r < l) rows" ..
    obtain Q where "whole_beginning kept Q rows" using cut_whole [OF assms(1) k \<open>kept \<noteq> []\<close>] by blast
    moreover have "length kept < length rs"
    proof -
      have "last rs \<in> set rs" "\<not> ch_StartLsn (last rs) \<noteq> l" using assms(4) that(2) by simp_all
      then show ?thesis unfolding that(3) by (rule length_filter_less)
    qed
    then have "int (length kept) \<le> n" using assms(2,3) by auto
    ultimately show ?thesis unfolding batch_of_def by blast
  qed
  show "\<exists>Q. batch_of n rows (filter (\<lambda>r. ch_StartLsn r = l) rows) Q"
    if "n < int (length rs)" "l = ch_StartLsn (last rs)" "filter (\<lambda>r. ch_StartLsn r \<noteq> l) rs = []"
  proof -
    have all: "\<forall>r \<in> set rs. ch_StartLsn r = l" using that(3) by (auto simp: filter_empty_conv)
    have "\<forall>r \<in> set (rs @ ?later). l \<le> ch_StartLsn r" using all above that(2) by auto
    then have "\<forall>r \<in> set rows. l \<le> ch_StartLsn r" unfolding app [symmetric] .
    then have "filter (\<lambda>r. ch_StartLsn r = l) rows = filter (\<lambda>r. ch_StartLsn r \<le> l) rows"
      by (intro filter_cong) auto
    moreover have "\<exists>r \<in> set (rs @ ?later). ch_StartLsn r = l" using all assms(4) by (cases rs) auto
    then have "filter (\<lambda>r. ch_StartLsn r = l) rows \<noteq> []"
      unfolding app [symmetric] by (simp add: filter_empty_conv)
    ultimately obtain Q where "whole_beginning (filter (\<lambda>r. ch_StartLsn r = l) rows) Q rows"
      using cut_whole_le [OF assms(1)] by metis
    then show ?thesis unfolding batch_of_def by auto
  qed
qed

text \<open>A read that answers, in full: where it starts, and the batch it returns.\<close>

lemma reader_Read_run:
  assumes "reader_Read inc c n (E, db) = (Inr groups, E', db')" "capture_ok db" "increment_ok inc"
    and "lsn_IsZero c \<or> position c"
  shows "(lsn_IsZero c \<or> MinLsn db \<le> inc c) \<and>
    (\<exists>P Q. batch_of n (unread c db) P Q \<and> groups = groupByLSN (map scanChange P))"
proof -
  let ?from = "if lsn_IsZero c then MinLsn db else inc c"
  have n: "0 < n" using assms(1) by (auto simp: reader_Read_def split: if_splits)
  have unread: "filter (\<lambda>r. ?from \<le> ch_StartLsn r \<and> ch_StartLsn r \<le> MaxLsn db \<and> ch_Operation r = 2) (Changes db)
      = unread c db"
    using assms(2-4) by (intro changes_from) auto
  obtain lo hi nx E1 db1 where b: "reader_bounds inc c (E, db) = (Inr (lo, hi, nx), E1, db1)"
    using assms(1) n by (auto simp: reader_Read_def andthen_Inr)
  from reader_bounds_run [OF b] have v: "lo = MinLsn db" "hi = MaxLsn db" "nx = (if lsn_IsZero c then [] else inc c)" by auto
  have db1: "db1 = db" using b by (auto simp: reader_bounds_def on_err_Inr dest!: query_Inr)
  have ev: "andthen (reader_bounds inc c) f (E, db) = f (lo, hi, nx) (E1, db1)"
    for f :: "lsn \<times> lsn \<times> lsn \<Rightarrow> (capture_db, lsn_group list) act"
    by (simp add: andthen_def b)
  have rest: "\<not> (\<not> lsn_IsZero c \<and> inc c < MinLsn db)"
    "(if ?from > MaxLsn db then ret []
      else andthen (reader_changes ?from (MaxLsn db) (nat (n + 1))) (\<lambda>rows.
            if length rows = 0 then ret []
            else if int (length rows) > n then
              (let lastLSN = sr_Lsn (last rows);
                   kept = filter (\<lambda>row. sr_Lsn row \<noteq> lastLSN) rows
               in if length kept = 0
                  then andthen (reader_changes lastLSN lastLSN 0) (\<lambda>rows. ret (groupByLSN rows))
                  else ret (groupByLSN kept))
            else ret (groupByLSN rows))) (E1, db) = (Inr groups, E', db')"
    using assms(1) n unfolding reader_Read_def lsn_Compare_simps
    by (auto simp: ev db1 v Let_def split: if_splits)
  then have start: "lsn_IsZero c \<or> MinLsn db \<le> inc c" by auto
  have whole: "batch_of n [] [] []" using n by (simp add: batch_of_def whole_beginning_def)
  have "\<exists>P Q. batch_of n (unread c db) P Q \<and> groups = groupByLSN (map scanChange P)"
  proof (cases "MaxLsn db < ?from")
    case True
    then have "unread c db = []" unfolding unread [symmetric] by (auto simp: filter_empty_conv)
    with True rest(2) whole show ?thesis by (auto simp: groupByLSN_def intro: exI [of _ "[]"])
  next
    case False
    with rest(2) obtain rows E2 db2 where r: "reader_changes ?from (MaxLsn db) (nat (n + 1)) (E1, db) = (Inr rows, E2, db2)"
      and tail: "(if length rows = 0 then ret []
            else if int (length rows) > n then
              (let lastLSN = sr_Lsn (last rows); kept = filter (\<lambda>row. sr_Lsn row \<noteq> lastLSN) rows
               in if length kept = 0
                  then andthen (reader_changes lastLSN lastLSN 0) (\<lambda>rows. ret (groupByLSN rows))
                  else ret (groupByLSN kept))
            else ret (groupByLSN rows)) (E2, db2) = (Inr groups, E', db')"
      by (auto simp: andthen_Inr)
    have db2: "db2 = db" using quietD [OF quiet_reader_changes r] .
    define rs where rs_take: "rs = take (nat (n + 1)) (unread c db)"
    have rows: "rows = map scanChange rs"
      using reader_changes_run [OF r] n by (simp add: unread rs_take)
    show ?thesis
    proof (cases "rs = []")
      case True
      with n have "unread c db = []" by (simp add: rs_take)
      with True tail rows whole show ?thesis by (auto simp: groupByLSN_def intro: exI [of _ "[]"])
    next
      case ne: False
      note cut = batch_cut [OF sorted_unread [OF assms(2)] n rs_take ne]
      let ?l = "ch_StartLsn (last rs)"
      have l: "sr_Lsn (last rows) = ?l" using ne rows by (simp add: last_map)
      have k: "filter (\<lambda>row. sr_Lsn row \<noteq> ?l) rows = map scanChange (filter (\<lambda>r. ch_StartLsn r \<noteq> ?l) rs)"
        unfolding rows by (simp add: filter_map o_def)
      have lr: "length rows = length rs" "rows \<noteq> []" using rows ne by simp_all
      show ?thesis
      proof (cases "int (length rs) \<le> n")
        case True
        then have "groups = groupByLSN rows" using tail lr ne by simp
        with rows have "groups = groupByLSN (map scanChange rs)" by (simp only:)
        with cut(1) [OF True] show ?thesis by blast
      next
        case long: False
        show ?thesis
        proof (cases "filter (\<lambda>r. ch_StartLsn r \<noteq> ?l) rs = []")
          case False
          with tail lr ne long l k have "groups = groupByLSN (map scanChange (filter (\<lambda>r. ch_StartLsn r \<noteq> ?l) rs))"
            by (simp add: Let_def)
          with cut(2) [OF _ refl refl False] long show ?thesis by force
        next
          case True
          with tail lr ne long l k obtain rows2 E3 db3 where
            r2: "reader_changes ?l ?l 0 (E2, db) = (Inr rows2, E3, db3)" "groups = groupByLSN rows2"
            by (auto simp: Let_def db2 andthen_Inr)
          have "last rs \<in> set (unread c db)" using ne rs_take by (metis in_set_takeD last_in_set)
          with reader_changes_run [OF r2(1)] changes_at [OF assms(2) _ refl]
          have "rows2 = map scanChange (filter (\<lambda>r. ch_StartLsn r = ?l) (unread c db))" by simp
          with r2(2) cut(3) [OF _ refl True] long show ?thesis by force
        qed
      qed
    qed
  qed
  with start show ?thesis by blast
qed

end
