(* ===== verification/Outbox_Delivery.thy ===== *)
theory Outbox_Delivery
  imports Outbox_Facts
begin

text \<open>
  The delivery promise of the outbox worker: the capture and cleanup jobs of the server, the other
  transactions and the worker's cycles as steps of one relation, and what holds in every state they
  reach.
\<close>

section \<open>What a cycle does\<close>

definition given_up :: "capture_db \<Rightarrow> envelope \<Rightarrow> bool" where
  "given_up db m \<longleftrightarrow> (\<exists>f. PublishFailures db (env_ID m) = Some f \<and> pf_PoisonedOnUtc f \<noteq> None)"

definition handled :: "('b \<Rightarrow> envelope \<Rightarrow> bool) \<Rightarrow> 'b worker_world \<Rightarrow> envelope \<Rightarrow> bool" where
  "handled accepted w m \<longleftrightarrow> accepted (ww_Broker w) m \<or> given_up (ww_DB w) m"

text \<open>The capture tables stay, what is handled stays handled.\<close>

definition advances :: "('b \<Rightarrow> envelope \<Rightarrow> bool) \<Rightarrow> 'b worker_world \<Rightarrow> 'b worker_world \<Rightarrow> bool" where
  "advances accepted w w' \<longleftrightarrow>
     Changes (ww_DB w') = Changes (ww_DB w) \<and> MinLsn (ww_DB w') = MinLsn (ww_DB w) \<and>
     MaxLsn (ww_DB w') = MaxLsn (ww_DB w) \<and> (\<forall>m. handled accepted w m \<longrightarrow> handled accepted w' m)"

definition same_checkpoints :: "'b worker_world \<Rightarrow> 'b worker_world \<Rightarrow> bool" where
  "same_checkpoints w w' \<longleftrightarrow> Checkpoints (ww_DB w') = Checkpoints (ww_DB w)"

lemma advances_refl [simp]: "advances A w w"
  by (simp add: advances_def)

lemma advances_trans: "advances A w w' \<Longrightarrow> advances A w' w'' \<Longrightarrow> advances A w w''"
  by (auto simp: advances_def)

lemma ww_db_run: "ww_db m (E, w) = (r, E', w') \<longleftrightarrow>
    (\<exists>t. m (E, ww_DB w) = (r, E', t) \<and> w' = w\<lparr>ww_DB := t\<rparr>)"
  by (simp add: ww_db_def zoom_run)

lemma ww_broker_run: "ww_broker m (E, w) = (r, E', w') \<longleftrightarrow>
    (\<exists>t. m (E, ww_Broker w) = (r, E', t) \<and> w' = w\<lparr>ww_Broker := t\<rparr>)"
  by (simp add: ww_broker_def zoom_run)

lemma failures_Get_run:
  assumes "failures_Get i (E, db) = (r, E', db')"
  shows "db' = db" "r = Inr f \<Longrightarrow> fl_Poisoned f \<longleftrightarrow> (\<exists>x. PublishFailures db i = Some x \<and> pf_PoisonedOnUtc x \<noteq> None)"
proof -
  have q: "quiet (failures_Get i)"
    unfolding failures_Get_def by (intro quiet_andthen) (auto split: option.split)
  from quietD [OF q assms] show "db' = db" .
  assume "r = Inr f"
  with assms obtain p E1 db1 where
    q: "query (\<lambda>db. PublishFailures db i) (E, db) = (Inr p, E1, db1)"
    and f: "f = (case p of
                   None \<Rightarrow> \<lparr>fl_Attempts = 0, fl_Poisoned = False\<rparr>
                 | Some f \<Rightarrow> \<lparr>fl_Attempts = pf_Attempts f, fl_Poisoned = pf_PoisonedOnUtc f \<noteq> None\<rparr>)"
    by (auto simp: failures_Get_def andthen_Inr on_err_Inr)
  from query_Inr [OF q] f
  show "fl_Poisoned f \<longleftrightarrow> (\<exists>x. PublishFailures db i = Some x \<and> pf_PoisonedOnUtc x \<noteq> None)"
    by (auto split: option.splits)
qed

text \<open>Only the table of failures changes, and who was given up stays so.\<close>

definition only_failures :: "capture_db \<Rightarrow> capture_db \<Rightarrow> bool" where
  "only_failures db db' \<longleftrightarrow>
     db' = db\<lparr>PublishFailures := PublishFailures db'\<rparr> \<and> (\<forall>m. given_up db m \<longrightarrow> given_up db' m)"

lemma only_failures_refl [simp]: "only_failures db db"
  by (simp add: only_failures_def)

lemma only_failures_trans: "only_failures a b \<Longrightarrow> only_failures b c \<Longrightarrow> only_failures a c"
  unfolding only_failures_def by (cases a; cases b; cases c) auto

lemma record_failure_stmt_only: "only_failures db (snd (record_failure_stmt S i why t db))"
proof (cases "column_text S 2000 why")
  case (Some s)
  then show ?thesis
    by (auto simp: record_failure_stmt_def only_failures_def given_up_def Let_def split: option.splits)
qed (simp add: record_failure_stmt_def)

lemma failures_RecordFailure_run:
  assumes "failures_RecordFailure S i why (E, db) = (r, E', db')"
  shows "only_failures db db'" "r = Inr n \<Longrightarrow> PublishFailures db' i \<noteq> None"
proof -
  from assms obtain r' s where c: "call (record_failure_stmt S i s) (E, db) = (r', E', db')"
    and r: "\<And>n. r = Inr n \<Longrightarrow> r' = Inr n"
    by (auto simp: failures_RecordFailure_def Let_def on_err_def split: prod.splits if_splits)
  from call_cases [OF c] record_failure_stmt_only show "only_failures db db'" by auto
  assume "r = Inr n"
  with r c have "call (record_failure_stmt S i s) (E, db) = (Inr n, E', db')" by simp
  from call_Inr [OF this] show "PublishFailures db' i \<noteq> None"
    by (auto simp: record_failure_stmt_def Let_def split: option.splits if_splits)
qed

lemma failures_MarkPoisoned_run:
  assumes "failures_MarkPoisoned i (E, db) = (r, E', db')"
  shows "only_failures db db'" "r = Inr u \<Longrightarrow> PublishFailures db i \<noteq> None \<Longrightarrow> i = env_ID m \<Longrightarrow> given_up db' m"
proof -
  let ?f = "\<lambda>t db. case PublishFailures db i of
      Some f \<Rightarrow> if pf_PoisonedOnUtc f = None
        then db\<lparr>PublishFailures := (PublishFailures db)(i \<mapsto> f\<lparr>pf_PoisonedOnUtc := Some t\<rparr>)\<rparr> else db
    | None \<Rightarrow> db"
  from assms obtain r' where c: "update ?f (E, db) = (r', E', db')" and r: "\<And>n. r = Inr n \<Longrightarrow> r' = Inr n"
    by (auto simp: failures_MarkPoisoned_def on_err_def split: prod.splits)
  have "only_failures db (?f (now E) db)"
    by (auto simp: only_failures_def given_up_def split: option.splits)
  with update_cases [OF c] show "only_failures db db'" by auto
  assume "r = Inr u" "PublishFailures db i \<noteq> None" "i = env_ID m"
  with update_Inr [of ?f E db _ E' db'] r c show "given_up db' m"
    by (auto simp: given_up_def split: option.splits if_splits)
qed

lemma only_failures_advances:
  "only_failures (ww_DB w) db' \<Longrightarrow> advances A w (w\<lparr>ww_DB := db'\<rparr>) \<and> same_checkpoints w (w\<lparr>ww_DB := db'\<rparr>)"
  unfolding only_failures_def by (cases db') (auto simp: advances_def same_checkpoints_def handled_def)

context publisher
begin

abbreviation db_ports :: "sqlserver \<Rightarrow> increment \<Rightarrow> string \<Rightarrow> 'b worker_world ports" where
  "db_ports S inc consumer \<equiv> sql_ports S inc consumer publish"

abbreviation stays :: "'b worker_world \<Rightarrow> 'b worker_world \<Rightarrow> bool" where
  "stays w w' \<equiv> advances accepted w w' \<and> same_checkpoints w w'"

lemma stays_trans: "stays w w' \<Longrightarrow> stays w' w'' \<Longrightarrow> stays w w''"
  by (auto simp: same_checkpoints_def dest: advances_trans)

lemma recordFailure_run:
  assumes "worker_recordFailure opt (db_ports S inc c) etext m err res (E, w) = (r, E', w')"
  shows "stays w w' \<and> (\<forall>res'. r = Inr (True, res') \<longrightarrow> handled accepted w' m)"
proof -
  let ?rec = "failures_RecordFailure S (env_ID m) (etext err)"
  obtain q E1 db1 where 1: "?rec (E, ww_DB w) = (q, E1, db1)" by (cases "?rec (E, ww_DB w)") auto
  note d = worker_recordFailure_def andthen_def sql_ports_def ww_db_def zoom_def
  note s1 = only_failures_advances [OF failures_RecordFailure_run(1) [OF 1], of accepted]
  show ?thesis
  proof (cases q)
    case (Inl e)
    with assms 1 s1 show ?thesis by (auto simp: d)
  next
    case (Inr n)
    show ?thesis
    proof (cases "n \<ge> wo_MaxPublishAttempts opt")
      case False
      with assms 1 s1 Inr show ?thesis by (auto simp: d ret_def)
    next
      case True
      let ?mark = "failures_MarkPoisoned (env_ID m)"
      obtain q2 E2 db2 where 2: "?mark (E1, db1) = (q2, E2, db2)" by (cases "?mark (E1, db1)") auto
      have w': "w' = w\<lparr>ww_DB := db2\<rparr>" and r: "\<And>x. r = Inr x \<Longrightarrow> \<exists>u. q2 = Inr u"
        using assms 1 2 Inr True by (auto simp: d ret_def split: sum.splits)
      have "only_failures (ww_DB w) db2"
        using only_failures_trans failures_RecordFailure_run(1) [OF 1] failures_MarkPoisoned_run(1) [OF 2] by blast
      from only_failures_advances [OF this, of accepted] have s: "stays w w'" by (simp add: w')
      have "given_up db2 m" if u: "q2 = Inr u" for u
        by (rule failures_MarkPoisoned_run(2) [OF 2 u _ refl])
          (use failures_RecordFailure_run(2) [OF 1 Inr] in simp)
      with r w' have "r = Inr x \<Longrightarrow> handled accepted w' m" for x
        by (auto simp: handled_def)
      with s show ?thesis by blast
    qed
  qed
qed

lemma worker_publish_run:
  assumes "worker_publish opt (db_ports S inc c) etext m res (E, w) = (r, E', w')"
  shows "stays w w' \<and> (\<forall>res'. r = Inr (True, res') \<longrightarrow> handled accepted w' m)"
proof -
  obtain q E1 db1 where 1: "failures_Get (env_ID m) (E, ww_DB w) = (q, E1, db1)"
    by (cases "failures_Get (env_ID m) (E, ww_DB w)") auto
  have db1: "db1 = ww_DB w" by (rule failures_Get_run(1) [OF 1])
  have g: "po_Get (db_ports S inc c) (env_ID m) (E, w) = (q, E1, w)"
    using 1 db1 by (simp add: sql_ports_def ww_db_run)
  note d = worker_publish_def andthen_def g
  show ?thesis
  proof (cases q)
    case (Inl e)
    with assms show ?thesis by (auto simp: d same_checkpoints_def)
  next
    case (Inr f)
    show ?thesis
    proof (cases "fl_Poisoned f")
      case True
      with failures_Get_run(2) [OF 1 Inr] have "given_up (ww_DB w) m" by (simp add: given_up_def)
      with assms Inr True show ?thesis by (auto simp: d same_checkpoints_def handled_def)
    next
      case False
      obtain p E2 b where 2: "publish m (E1, ww_Broker w) = (p, E2, b)"
        by (cases "publish m (E1, ww_Broker w)") auto
      then have pp: "po_Publish (db_ports S inc c) m (E1, w) = (p, E2, w\<lparr>ww_Broker := b\<rparr>)"
        by (simp add: sql_ports_def ww_broker_run)
      have s: "stays w (w\<lparr>ww_Broker := b\<rparr>)"
        using keeps_accepted [OF 2] by (auto simp: advances_def same_checkpoints_def handled_def)
      show ?thesis
      proof (cases p)
        case (Inr u)
        with accepts 2 have "accepted b m" by blast
        with assms \<open>q = Inr f\<close> False pp Inr s show ?thesis
          by (auto simp: d attempt_def ret_def handled_def)
      next
        case (Inl err)
        show ?thesis
        proof (cases "is_context_error err")
          case True
          with assms \<open>q = Inr f\<close> False pp Inl s show ?thesis by (auto simp: d attempt_def)
        next
          case c: False
          with assms \<open>q = Inr f\<close> False pp Inl
          have "worker_recordFailure opt (db_ports S inc c) etext m err res (E2, w\<lparr>ww_Broker := b\<rparr>) = (r, E', w')"
            by (simp add: d attempt_def)
          from recordFailure_run [OF this] s show ?thesis using stays_trans by blast
        qed
      qed
    qed
  qed
qed

end

lemma group_rec_scan:
  "group_rec (map scanChange (p # ps)) =
     \<lparr>gr_LSN = ch_StartLsn p,
      gr_Messages = msg_of p # map msg_of (takeWhile (\<lambda>x. ch_StartLsn x = ch_StartLsn p) ps)\<rparr>
       # group_rec (map scanChange (dropWhile (\<lambda>x. ch_StartLsn x = ch_StartLsn p) ps))"
  by (simp add: takeWhile_map dropWhile_map o_def msg_of_def)

text \<open>No row at or before the checkpoint is open.\<close>

definition covered :: "('b \<Rightarrow> envelope \<Rightarrow> bool) \<Rightarrow> string \<Rightarrow> change_row set \<Rightarrow> 'b worker_world \<Rightarrow> bool" where
  "covered accepted c R w \<longleftrightarrow>
     (\<forall>x. Checkpoints (ww_DB w) c = Some x \<longrightarrow> (\<forall>r \<in> R. ch_StartLsn r \<le> x \<longrightarrow> handled accepted w (msg_of r)))"

lemma covered_stays:
  "covered A c R w \<Longrightarrow> advances A w w' \<Longrightarrow> same_checkpoints w w' \<Longrightarrow> covered A c R w'"
  by (auto simp: covered_def advances_def same_checkpoints_def)

text \<open>Where the checkpoint of a consumer can be after a cycle.\<close>

definition checkpoint_moves :: "string \<Rightarrow> change_row list \<Rightarrow> 'b worker_world \<Rightarrow> 'b worker_world \<Rightarrow> bool" where
  "checkpoint_moves c P w w' \<longleftrightarrow>
     (\<forall>c'. c' \<noteq> c \<longrightarrow> Checkpoints (ww_DB w') c' = Checkpoints (ww_DB w) c') \<and>
     (Checkpoints (ww_DB w') c = Checkpoints (ww_DB w) c \<or>
      (\<exists>p \<in> set P. Checkpoints (ww_DB w') c = Some (ch_StartLsn p)))"

lemma checkpoint_moves_trans:
  assumes "checkpoint_moves c P w w1" "checkpoint_moves c Q w1 w2" "set Q \<subseteq> set P"
  shows "checkpoint_moves c P w w2"
proof -
  have "\<forall>c'. c' \<noteq> c \<longrightarrow> Checkpoints (ww_DB w2) c' = Checkpoints (ww_DB w) c'"
    using assms(1,2) by (simp add: checkpoint_moves_def)
  moreover have "Checkpoints (ww_DB w2) c = Checkpoints (ww_DB w) c \<or>
      (\<exists>p \<in> set P. Checkpoints (ww_DB w2) c = Some (ch_StartLsn p))"
    using assms(2) unfolding checkpoint_moves_def
  proof (elim conjE disjE)
    assume "Checkpoints (ww_DB w2) c = Checkpoints (ww_DB w1) c"
    with assms(1) show ?thesis by (auto simp: checkpoint_moves_def)
  next
    assume "\<exists>p \<in> set Q. Checkpoints (ww_DB w2) c = Some (ch_StartLsn p)"
    with assms(3) show ?thesis by blast
  qed
  ultimately show ?thesis by (simp add: checkpoint_moves_def)
qed

lemma checkpoint_stays: "same_checkpoints w w' \<Longrightarrow> checkpoint_moves c P w w'"
  by (simp add: same_checkpoints_def checkpoint_moves_def)

lemma checkpoint_Save_run:
  assumes "checkpoint_Save c l (E, db) = (r, E', db')"
  shows "db' = db \<and> (\<exists>e. r = Inl e) \<or> db' = db\<lparr>Checkpoints := (Checkpoints db)(c \<mapsto> l)\<rparr>"
proof (cases "lsn_IsZero l")
  case True
  with assms show ?thesis by (auto simp: checkpoint_Save_def)
next
  case False
  with assms obtain r' where u: "update (\<lambda>t db. db\<lparr>Checkpoints := (Checkpoints db)(c \<mapsto> l)\<rparr>) (E, db) = (r', E', db')"
    and r: "r' = Inl e \<Longrightarrow> \<exists>e. r = Inl e" for e
    by (auto simp: checkpoint_Save_def on_err_def split: prod.splits)
  show ?thesis
  proof (cases r')
    case (Inl e)
    with r update_cases [OF u] show ?thesis by auto
  next
    case (Inr x)
    with update_Inr [of _ E db x E' db'] u show ?thesis by auto
  qed
qed

context publisher
begin

lemma messages_loop_run:
  assumes "messages_loop opt (db_ports S inc c) etext stopped n res ms (E, w) = (r, E', w')"
  shows "stays w w' \<and> (\<exists>ending n' res'. r = Inr (ending, n', res') \<and>
    (ending = Handled \<longrightarrow> (\<forall>m \<in> set ms. handled accepted w' m)))"
  using assms
proof (induction ms arbitrary: n res E w)
  case Nil
  then show ?case by (auto simp: same_checkpoints_def)
next
  case (Cons m ms)
  show ?case
  proof (cases "stopped n")
    case True
    with Cons.prems show ?thesis by (auto simp: same_checkpoints_def)
  next
    case False
    obtain q E1 w1 where p: "worker_publish opt (db_ports S inc c) etext m res (E, w) = (q, E1, w1)"
      by (cases "worker_publish opt (db_ports S inc c) etext m res (E, w)") auto
    note s = worker_publish_run [OF p]
    consider (err) e where "q = Inl e" | (left) res1 where "q = Inr (False, res1)"
      | (on) res1 where "q = Inr (True, res1)" by (cases q) auto
    then show ?thesis
    proof cases
      case err
      with Cons.prems False p s show ?thesis by (auto simp: andthen_def attempt_def)
    next
      case left
      with Cons.prems False p s show ?thesis by (auto simp: andthen_def attempt_def)
    next
      case on
      with Cons.prems False p
      have "messages_loop opt (db_ports S inc c) etext stopped (Suc n) res1 ms (E1, w1) = (r, E', w')"
        by (simp add: andthen_def attempt_def)
      from Cons.IH [OF this] s on show ?thesis
        by (auto simp: same_checkpoints_def advances_def)
    qed
  qed
qed

lemma groups_loop_run:
  assumes "groups_loop opt (db_ports S inc c) etext stopped n res (group_rec (map scanChange P)) (E, w) = (r, E', w')"
    and "sorted (map ch_StartLsn P)" "covered accepted c R w"
    and "\<forall>x \<in> R. handled accepted w (msg_of x) \<or> x \<in> set P \<or> (\<forall>p \<in> set P. ch_StartLsn p < ch_StartLsn x)"
  shows "advances accepted w w' \<and> checkpoint_moves c P w w' \<and> covered accepted c R w'"
  using assms
proof (induction P arbitrary: n res E w rule: length_induct)
  case (1 P)
  show ?case
  proof (cases P)
    case Nil
    with 1 show ?thesis by (auto simp: checkpoint_moves_def)
  next
    case (Cons p ps)
    let ?same = "\<lambda>x. ch_StartLsn x = ch_StartLsn p"
    let ?ms = "msg_of p # map msg_of (takeWhile ?same ps)" and ?rest = "dropWhile ?same ps"
    let ?l = "ch_StartLsn p"
    obtain q E1 w1 where m: "messages_loop opt (db_ports S inc c) etext stopped n res ?ms (E, w) = (q, E1, w1)"
      by (cases "messages_loop opt (db_ports S inc c) etext stopped n res ?ms (E, w)") auto
    from messages_loop_run [OF m] obtain ending n1 res1 where
      s: "stays w w1" and q: "q = Inr (ending, n1, res1)"
      and h: "ending = Handled \<Longrightarrow> \<forall>x \<in> set ?ms. handled accepted w1 x" by blast
    have cov1: "covered accepted c R w1" using covered_stays "1.prems"(3) s by blast
    note run = "1.prems"(1) [unfolded Cons group_rec_scan groups_loop.simps lsn_group.simps andthen_def m q]
    show ?thesis
    proof (cases "ending = Handled")
      case False
      with run have "w' = w1" by (cases ending) auto
      with s cov1 checkpoint_stays show ?thesis by blast
    next
      case True
      obtain v E2 db2 where sv: "checkpoint_Save c ?l (E1, ww_DB w1) = (v, E2, db2)"
        by (cases "checkpoint_Save c ?l (E1, ww_DB w1)") auto
      let ?w2 = "w1\<lparr>ww_DB := db2\<rparr>"
      have save: "attempt (po_Save (db_ports S inc c) ?l) (E1, w1) = (Inr v, E2, ?w2)"
        using sv by (simp add: attempt_def sql_ports_def ww_db_def zoom_def)
      have ad2: "advances accepted w1 ?w2"
        using checkpoint_Save_run [OF sv] by (auto simp: advances_def handled_def given_up_def)
      have split: "ps = takeWhile ?same ps @ ?rest" by simp
      have ps: "sorted (map ch_StartLsn ps)" "\<forall>x \<in> set ps. ?l \<le> ch_StartLsn x"
        using "1.prems"(2) Cons by simp_all
      have rest: "sorted (map ch_StartLsn ?rest)" "\<forall>x \<in> set ?rest. ?l < ch_StartLsn x"
      proof -
        show sr: "sorted (map ch_StartLsn ?rest)"
          using ps(1) by (subst (asm) split) (simp only: map_append sorted_append)
        have gt: "?l < ch_StartLsn (hd ?rest)" if "?rest \<noteq> []"
          using hd_dropWhile [OF that] ps(2) hd_in_set [OF that] set_dropWhileD [of "hd ?rest" ?same ps] by force
        show "\<forall>x \<in> set ?rest. ?l < ch_StartLsn x"
        proof
          fix x assume x: "x \<in> set ?rest"
          then have "ch_StartLsn (hd ?rest) \<le> ch_StartLsn x"
            using sr by (cases ?rest) auto
          with gt x show "?l < ch_StartLsn x" by (cases ?rest) auto
        qed
      qed
      have open_rows: "\<forall>x \<in> R. handled accepted w1 (msg_of x) \<or> x \<in> set ?rest \<or> (\<forall>p \<in> set ?rest. ch_StartLsn p < ch_StartLsn x)
          \<and> ?l < ch_StartLsn x"
      proof
        fix x assume "x \<in> R"
        with "1.prems"(4) consider "handled accepted w (msg_of x)" | "x \<in> set P"
          | "\<forall>p \<in> set P. ch_StartLsn p < ch_StartLsn x" by blast
        then show "handled accepted w1 (msg_of x) \<or> x \<in> set ?rest \<or> (\<forall>p \<in> set ?rest. ch_StartLsn p < ch_StartLsn x)
          \<and> ?l < ch_StartLsn x"
        proof cases
          case 1
          with s show ?thesis by (auto simp: advances_def)
        next
          case 2
          then have "x = p \<or> x \<in> set (takeWhile ?same ps) \<or> x \<in> set ?rest"
            using Cons split by (metis Un_iff set_ConsD set_append)
          with h [OF True] show ?thesis by auto
        next
          case 3
          with Cons set_dropWhileD [of _ ?same ps] show ?thesis by auto
        qed
      qed
      have moved: "db2 = ww_DB w1 \<and> (\<exists>e. v = Inl e) \<or>
          db2 = (ww_DB w1)\<lparr>Checkpoints := (Checkpoints (ww_DB w1))(c \<mapsto> ?l)\<rparr>"
        by (rule checkpoint_Save_run [OF sv])
      have cov2: "covered accepted c R ?w2"
      proof -
        have "\<forall>x \<in> R. ch_StartLsn x \<le> ?l \<longrightarrow> handled accepted w1 (msg_of x)"
          using open_rows rest(2) by fastforce
        with moved cov1 ad2 show ?thesis
          by (auto simp: covered_def advances_def)
      qed
      have mv2: "checkpoint_moves c P w ?w2"
        using moved s Cons by (auto simp: checkpoint_moves_def same_checkpoints_def)
      show ?thesis
      proof (cases v)
        case (Inl e)
        with run True save have "w' = ?w2" by auto
        with ad2 s cov2 mv2 show ?thesis using advances_trans by blast
      next
        case (Inr u)
        with run True save have next_run:
          "groups_loop opt (db_ports S inc c) etext stopped n1 res1 (group_rec (map scanChange ?rest)) (E2, ?w2) = (r, E', w')"
          by simp
        have "length ?rest < length P" using Cons length_dropWhile_le [of ?same ps] by simp
        moreover have "\<forall>x \<in> R. handled accepted ?w2 (msg_of x) \<or> x \<in> set ?rest \<or> (\<forall>p \<in> set ?rest. ch_StartLsn p < ch_StartLsn x)"
          using open_rows ad2 by (auto simp: advances_def)
        ultimately have ih: "advances accepted ?w2 w' \<and> checkpoint_moves c ?rest ?w2 w' \<and> covered accepted c R w'"
          using "1.IH" next_run rest(1) cov2 by blast
        have "set ?rest \<subseteq> set P" using Cons set_dropWhileD [of _ ?same ps] by auto
        with mv2 ih have "checkpoint_moves c P w w'" using checkpoint_moves_trans by blast
        with ih s ad2 show ?thesis using advances_trans by blast
      qed
    qed
  qed
qed

end

lemma checkpoint_Load_run:
  assumes "checkpoint_Load c (E, db) = (r, E', db')"
  shows "db' = db \<and> (\<forall>l. r = Inr l \<longrightarrow> l = (case Checkpoints db c of None \<Rightarrow> [] | Some x \<Rightarrow> x))"
proof -
  have "quiet (checkpoint_Load c)" unfolding checkpoint_Load_def by (intro quiet_andthen) auto
  from quietD [OF this assms] have "db' = db" .
  moreover have "l = (case Checkpoints db c of None \<Rightarrow> [] | Some x \<Rightarrow> x)" if "r = Inr l" for l
    using assms that by (auto simp: checkpoint_Load_def andthen_Inr on_err_Inr dest!: query_Inr)
  ultimately show ?thesis by blast
qed

text \<open>What a cycle relies on: the rows it must not pass are still in the change table.\<close>

definition cycle_ready :: "('b \<Rightarrow> envelope \<Rightarrow> bool) \<Rightarrow> string \<Rightarrow> change_row set \<Rightarrow> 'b worker_world \<Rightarrow> bool" where
  "cycle_ready accepted c R w \<longleftrightarrow>
     capture_ok (ww_DB w) \<and> covered accepted c R w \<and>
     (\<forall>x. Checkpoints (ww_DB w) c = Some x \<longrightarrow> position x) \<and>
     (\<forall>r \<in> R. ch_Operation r = 2 \<and> position (ch_StartLsn r) \<and>
        (MinLsn (ww_DB w) \<le> ch_StartLsn r \<or> Checkpoints (ww_DB w) c = None \<longrightarrow> r \<in> set (Changes (ww_DB w))))"

context publisher
begin

lemma process_run:
  assumes run: "worker_ProcessOnce opt (db_ports S inc c) etext stopped (E, w) = (r, E', w')"
    and ready: "cycle_ready accepted c R w" and inc: "increment_ok inc"
  shows "advances accepted w w' \<and> checkpoint_moves c (Changes (ww_DB w)) w w' \<and> covered accepted c R w'"
proof -
  have cov: "covered accepted c R w" and ok: "capture_ok (ww_DB w)"
    using ready by (auto simp: cycle_ready_def)
  have quiet_case: ?thesis if "w' = w"
    using that cov by (auto simp: checkpoint_moves_def)
  let ?c = "case Checkpoints (ww_DB w) c of None \<Rightarrow> [] | Some x \<Rightarrow> x"
  obtain q E1 db1 where "checkpoint_Load c (E, ww_DB w) = (q, E1, db1)"
    by (cases "checkpoint_Load c (E, ww_DB w)") auto
  with checkpoint_Load_run [OF this] have load: "po_Load (db_ports S inc c) (E, w) = (q, E1, w)"
    and q: "\<And>l. q = Inr l \<Longrightarrow> l = ?c" by (auto simp: sql_ports_def ww_db_run)
  show ?thesis
  proof (cases q)
    case (Inl e)
    with run load have "w' = w" by (auto simp: worker_ProcessOnce_def andthen_def attempt_def ret_def)
    then show ?thesis by (rule quiet_case)
  next
    case (Inr l)
    with q have l: "l = ?c" by blast
    obtain p E2 db2 where rd: "reader_Read inc l (wo_BatchSize opt) (E1, ww_DB w) = (p, E2, db2)"
      by (cases "reader_Read inc l (wo_BatchSize opt) (E1, ww_DB w)") auto
    have "db2 = ww_DB w" by (rule quietD [OF quiet_reader_Read rd])
    with rd have read: "po_Read (db_ports S inc c) l (wo_BatchSize opt) (E1, w) = (p, E2, w)"
      by (simp add: sql_ports_def ww_db_run)
    note step = run [unfolded worker_ProcessOnce_def andthen_def attempt_def load, simplified, unfolded Inr, simplified,
        unfolded andthen_def attempt_def read, simplified]
    show ?thesis
    proof (cases p)
      case (Inl e)
      with step have "w' = w" by (auto simp: ret_def)
      then show ?thesis by (rule quiet_case)
    next
      case p: (Inr groups)
      have pos: "lsn_IsZero l \<or> position l"
        using ready l by (auto simp: cycle_ready_def lsn_IsZero_def split: option.splits)
      from reader_Read_run [OF rd [unfolded p] ok inc pos] obtain P Q where
        start: "lsn_IsZero l \<or> MinLsn (ww_DB w) \<le> inc l"
        and PQ: "batch_of (wo_BatchSize opt) (unread l (ww_DB w)) P Q" "groups = groupByLSN (map scanChange P)"
        by blast
      show ?thesis
      proof (cases "groups = []")
        case True
        with step p have "w' = w" by (auto simp: ret_def)
        then show ?thesis by (rule quiet_case)
      next
        case False
        with step p PQ(2) have loop: "groups_loop opt (db_ports S inc c) etext stopped 0 (result_zero\<lparr>rt_Status := StatusProcessed\<rparr>)
            (group_rec (map scanChange P)) (E2, w) = (r, E', w')"
          by (auto simp: groupByLSN_rec)
        have un: "unread l (ww_DB w) = P @ Q" "\<forall>p \<in> set P. \<forall>x \<in> set Q. ch_StartLsn p < ch_StartLsn x"
          using PQ(1) by (auto simp: batch_of_def whole_beginning_def)
        have sorted: "sorted (map ch_StartLsn P)"
          using sorted_unread [OF ok, of l] un(1) by (simp add: sorted_append)
        have rows: "\<forall>x \<in> R. handled accepted w (msg_of x) \<or> x \<in> set P \<or> (\<forall>p \<in> set P. ch_StartLsn p < ch_StartLsn x)"
        proof
          fix x assume x: "x \<in> R"
          then have x2: "ch_Operation x = 2" "length (ch_StartLsn x) = 10"
            and kept: "MinLsn (ww_DB w) \<le> ch_StartLsn x \<or> Checkpoints (ww_DB w) c = None \<Longrightarrow> x \<in> set (Changes (ww_DB w))"
            using ready by (auto simp: cycle_ready_def position_def)
          show "handled accepted w (msg_of x) \<or> x \<in> set P \<or> (\<forall>p \<in> set P. ch_StartLsn p < ch_StartLsn x)"
          proof (cases "lsn_IsZero l \<or> l < ch_StartLsn x")
            case later: True
            have "x \<in> set (Changes (ww_DB w))"
            proof (rule kept, cases "Checkpoints (ww_DB w) c")
              case (Some y)
              then have y: "position y" "l = y" using ready l by (auto simp: cycle_ready_def)
              then have "\<not> lsn_IsZero l" by (simp add: position_def)
              moreover from this later y(1) y(2) inc x2(2) have "inc l \<le> ch_StartLsn x" by (simp add: increment_ok_def)
              ultimately show "MinLsn (ww_DB w) \<le> ch_StartLsn x \<or> Checkpoints (ww_DB w) c = None"
                using start by auto
            qed simp
            with later x2 have "x \<in> set (unread l (ww_DB w))" by (simp add: unread_def)
            with un show ?thesis by auto
          next
            case False
            with l have "Checkpoints (ww_DB w) c = Some l" "ch_StartLsn x \<le> l"
              by (auto simp: lsn_IsZero_def split: option.splits)
            with cov x show ?thesis by (auto simp: covered_def)
          qed
        qed
        have "advances accepted w w' \<and> checkpoint_moves c P w w' \<and> covered accepted c R w'"
          by (rule groups_loop_run [OF loop sorted cov rows])
        moreover have "set P \<subseteq> set (Changes (ww_DB w))" using un(1) unfolding unread_def
          by (metis filter_is_subset le_sup_iff set_append)
        moreover have "checkpoint_moves c (Changes (ww_DB w)) w w" by (simp add: checkpoint_moves_def)
        ultimately show ?thesis using checkpoint_moves_trans by blast
      qed
    qed
  qed
qed

end

section \<open>The steps of the server and the worker\<close>

text \<open>
  Beside the world, the state remembers every row that was ever captured, and those that were cleaned
  up before the worker had a checkpoint at all.
\<close>

record 'b outbox_state =
  os_World :: "'b worker_world"
  os_Captured :: "change_row set"
  os_Skipped :: "change_row set"

abbreviation os_db :: "'b outbox_state \<Rightarrow> capture_db" where
  "os_db s \<equiv> ww_DB (os_World s)"

definition capture_rows :: "lsn \<Rightarrow> change_row list \<Rightarrow> 'b outbox_state \<Rightarrow> 'b outbox_state" where
  "capture_rows l rows s =
     s\<lparr>os_World := (os_World s)\<lparr>ww_DB := (os_db s)\<lparr>Changes := Changes (os_db s) @ rows, MaxLsn := l\<rparr>\<rparr>,
       os_Captured := os_Captured s \<union> set rows\<rparr>"

definition clean_up :: "string \<Rightarrow> lsn \<Rightarrow> 'b outbox_state \<Rightarrow> 'b outbox_state" where
  "clean_up c l s =
     s\<lparr>os_World := (os_World s)\<lparr>ww_DB := (os_db s)\<lparr>MinLsn := l,
                     Changes := filter (\<lambda>r. l \<le> ch_StartLsn r) (Changes (os_db s))\<rparr>\<rparr>,
       os_Skipped := os_Skipped s \<union>
         (if Checkpoints (os_db s) c = None then {r \<in> set (Changes (os_db s)). \<not> l \<le> ch_StartLsn r} else {})\<rparr>"

text \<open>
  The capture job adds the rows of the next transaction, or none when the transaction wrote no outbox
  row; the cleanup job raises the oldest position it keeps; the worker runs one cycle, in any
  environment and asked to stop at any message.
\<close>

inductive outbox_step ::
  "worker_options \<Rightarrow> sqlserver \<Rightarrow> increment \<Rightarrow> string \<Rightarrow> (envelope \<Rightarrow> ('b, unit) act) \<Rightarrow> (go_error \<Rightarrow> string)
     \<Rightarrow> 'b outbox_state \<Rightarrow> 'b outbox_state \<Rightarrow> bool"
  for opt S inc c publish etext where
  capture: "\<lbrakk>position l; MaxLsn (os_db s) < l; MinLsn (os_db s) \<le> l; \<forall>r \<in> set rows. ch_StartLsn r = l\<rbrakk>
    \<Longrightarrow> outbox_step opt S inc c publish etext s (capture_rows l rows s)"
| cleanup: "\<lbrakk>MinLsn (os_db s) \<le> l; l \<le> MaxLsn (os_db s)\<rbrakk>
    \<Longrightarrow> outbox_step opt S inc c publish etext s (clean_up c l s)"
| cycle: "worker_ProcessOnce opt (sql_ports S inc c publish) etext stopped (E, os_World s) = (r, E', w)
    \<Longrightarrow> outbox_step opt S inc c publish etext s (s\<lparr>os_World := w\<rparr>)"

inductive_cases outbox_stepE: "outbox_step opt S inc c publish etext s s'"

definition outbox_initial :: "string \<Rightarrow> 'b outbox_state \<Rightarrow> bool" where
  "outbox_initial c s \<longleftrightarrow>
     Changes (os_db s) = [] \<and> Checkpoints (os_db s) c = None \<and> os_Captured s = {} \<and> os_Skipped s = {}"

definition kept_rows :: "'b outbox_state \<Rightarrow> change_row set" where
  "kept_rows s = {r \<in> os_Captured s - os_Skipped s. ch_Operation r = 2}"

definition outbox_inv :: "('b \<Rightarrow> envelope \<Rightarrow> bool) \<Rightarrow> string \<Rightarrow> 'b outbox_state \<Rightarrow> bool" where
  "outbox_inv accepted c s \<longleftrightarrow>
     cycle_ready accepted c (kept_rows s) (os_World s) \<and>
     (\<forall>x. Checkpoints (os_db s) c = Some x \<longrightarrow> x \<le> MaxLsn (os_db s))"

lemma outbox_initial_inv: "outbox_initial c s \<Longrightarrow> outbox_inv A c s"
  by (simp add: outbox_initial_def outbox_inv_def cycle_ready_def capture_ok_def covered_def kept_rows_def)

lemma capture_inv:
  assumes "outbox_inv A c s" "position l" "MaxLsn (os_db s) < l" "MinLsn (os_db s) \<le> l"
    and "\<forall>r \<in> set rows. ch_StartLsn r = l"
  shows "outbox_inv A c (capture_rows l rows s)"
proof -
  let ?s = "capture_rows l rows s"
  have le: "\<forall>r \<in> set (Changes (os_db s)). ch_StartLsn r < l"
    using assms(1,3) by (auto simp: outbox_inv_def cycle_ready_def capture_ok_def)
  have srt: "sorted (map ch_StartLsn rows)"
    using assms(5) by (induction rows) auto
  have ok: "capture_ok (os_db ?s)"
    using assms srt le by (auto simp: outbox_inv_def cycle_ready_def capture_ok_def capture_rows_def sorted_append)
  have kept: "kept_rows ?s \<subseteq> kept_rows s \<union> {r \<in> set rows. ch_Operation r = 2}"
    by (auto simp: kept_rows_def capture_rows_def)
  have cov: "covered A c (kept_rows ?s) (os_World ?s)"
    unfolding covered_def
  proof (intro allI impI ballI)
    fix x r assume x: "Checkpoints (os_db ?s) c = Some x" and r: "r \<in> kept_rows ?s" "ch_StartLsn r \<le> x"
    then have x2: "Checkpoints (os_db s) c = Some x" by (simp add: capture_rows_def)
    with assms(1,3) have "x < l" by (auto simp: outbox_inv_def)
    with r assms(5) kept have "r \<in> kept_rows s" by auto
    with assms(1) x2 r(2) show "handled A (os_World ?s) (msg_of r)"
      by (auto simp: outbox_inv_def cycle_ready_def covered_def capture_rows_def handled_def given_up_def)
  qed
  have rows: "ch_Operation r = 2 \<and> position (ch_StartLsn r) \<and>
      (MinLsn (os_db ?s) \<le> ch_StartLsn r \<or> Checkpoints (os_db ?s) c = None \<longrightarrow> r \<in> set (Changes (os_db ?s)))"
    if "r \<in> kept_rows ?s" for r
  proof (cases "r \<in> set rows")
    case True
    with that assms(2,5) show ?thesis by (auto simp: kept_rows_def capture_rows_def)
  next
    case False
    with that kept assms(1) show ?thesis
      by (auto simp: outbox_inv_def cycle_ready_def capture_rows_def)
  qed
  have same: "Checkpoints (os_db ?s) = Checkpoints (os_db s)" "MaxLsn (os_db ?s) = l"
    by (simp_all add: capture_rows_def)
  have cp: "\<forall>x. Checkpoints (os_db s) c = Some x \<longrightarrow> position x \<and> x \<le> MaxLsn (os_db s)"
    using assms(1) by (simp add: outbox_inv_def cycle_ready_def)
  have "cycle_ready A c (kept_rows ?s) (os_World ?s)"
    unfolding cycle_ready_def using ok cov cp rows same by simp
  with cp same assms(3) show ?thesis by (auto simp: outbox_inv_def)
qed

lemma cleanup_inv:
  assumes "outbox_inv A c s" "MinLsn (os_db s) \<le> l"
  shows "outbox_inv A c (clean_up c l s)"
proof -
  let ?s = "clean_up c l s"
  have ok: "capture_ok (os_db ?s)"
    using assms by (auto simp: outbox_inv_def cycle_ready_def capture_ok_def clean_up_def sorted_filter)
  have kept: "kept_rows ?s \<subseteq> kept_rows s"
    by (auto simp: kept_rows_def clean_up_def)
  have cov: "covered A c (kept_rows ?s) (os_World ?s)"
  proof -
    have "handled A (os_World ?s) m = handled A (os_World s) m" for m
      by (simp add: clean_up_def handled_def given_up_def)
    moreover have "Checkpoints (os_db ?s) = Checkpoints (os_db s)" by (simp add: clean_up_def)
    moreover have "covered A c (kept_rows s) (os_World s)"
      using assms(1) by (simp add: outbox_inv_def cycle_ready_def)
    ultimately show ?thesis using kept unfolding covered_def by (metis subsetD)
  qed
  have rows: "MinLsn (os_db ?s) \<le> ch_StartLsn r \<or> Checkpoints (os_db ?s) c = None \<longrightarrow> r \<in> set (Changes (os_db ?s))"
    if r: "r \<in> kept_rows ?s" for r
  proof (cases "Checkpoints (os_db s) c")
    case None
    with r kept assms(1) have "r \<in> set (Changes (os_db s))" by (auto simp: outbox_inv_def cycle_ready_def)
    with r None show ?thesis by (auto simp: kept_rows_def clean_up_def)
  next
    case (Some x)
    with r kept assms show ?thesis
      by (auto simp: outbox_inv_def cycle_ready_def clean_up_def)
  qed
  have same: "Checkpoints (os_db ?s) = Checkpoints (os_db s)" "MaxLsn (os_db ?s) = MaxLsn (os_db s)"
    by (simp_all add: clean_up_def)
  have ins: "\<forall>r \<in> kept_rows s. ch_Operation r = 2 \<and> position (ch_StartLsn r)"
    and cp: "\<forall>x. Checkpoints (os_db s) c = Some x \<longrightarrow> position x \<and> x \<le> MaxLsn (os_db s)"
    using assms(1) by (simp_all add: outbox_inv_def cycle_ready_def)
  have "cycle_ready A c (kept_rows ?s) (os_World ?s)"
    unfolding cycle_ready_def using ok cov ins cp kept rows same by (simp add: subset_iff)
  with cp same show ?thesis by (simp add: outbox_inv_def)
qed

context publisher
begin

lemma step_inv:
  assumes "outbox_step opt S inc c publish etext s s'" "outbox_inv accepted c s" "increment_ok inc"
  shows "outbox_inv accepted c s'"
  using assms(1)
proof (cases rule: outbox_step.cases)
  case (capture l rows)
  with capture_inv assms(2) show ?thesis by blast
next
  case (cleanup l)
  with cleanup_inv assms(2) show ?thesis by blast
next
  case 3: (cycle stopped E r E' w)
  have ready: "cycle_ready accepted c (kept_rows s) (os_World s)"
    and le: "\<forall>x. Checkpoints (os_db s) c = Some x \<longrightarrow> x \<le> MaxLsn (os_db s)"
    using assms(2) by (auto simp: outbox_inv_def)
  have ok: "capture_ok (os_db s)" using ready by (simp add: cycle_ready_def)
  from process_run [OF 3(2) ready assms(3)]
  have p: "advances accepted (os_World s) w" "checkpoint_moves c (Changes (os_db s)) (os_World s) w"
    "covered accepted c (kept_rows s) w" by auto
  have kept: "kept_rows s' = kept_rows s" by (simp add: kept_rows_def 3)
  have cp: "position x \<and> x \<le> MaxLsn (ww_DB w)" if x: "Checkpoints (ww_DB w) c = Some x" for x
  proof -
    from p(2) x consider "Checkpoints (os_db s) c = Some x"
      | q where "q \<in> set (Changes (os_db s))" "x = ch_StartLsn q" by (auto simp: checkpoint_moves_def)
    then show ?thesis
    proof cases
      case 1
      with ready le p(1) show ?thesis by (simp add: cycle_ready_def advances_def)
    next
      case 2
      with ok p(1) show ?thesis by (simp add: capture_ok_def advances_def)
    qed
  qed
  have none: "Checkpoints (os_db s) c = None" if "Checkpoints (ww_DB w) c = None"
    using p(2) that by (auto simp: checkpoint_moves_def)
  show ?thesis
    unfolding outbox_inv_def cycle_ready_def kept
    using ready p(1,3) cp none
    by (auto simp: 3 advances_def cycle_ready_def capture_ok_def)
qed

lemma steps_inv:
  assumes "(outbox_step opt S inc c publish etext)\<^sup>*\<^sup>* s s'" "outbox_inv accepted c s" "increment_ok inc"
  shows "outbox_inv accepted c s'"
  using assms by (induction rule: rtranclp_induct) (auto intro: step_inv)

end

end
