(* ===== verification/Outbox_Properties.thy ===== *)
theory Outbox_Properties
  imports Outbox_Delivery Ordering_Store_Facts
begin

text \<open>
  The promises of the outbox worker: what a read returns, that the checkpoint never passes a message
  that was neither published nor given up, that the worker stops when it is asked to, and when it
  stops for good.
\<close>

section \<open>A server\<close>

text \<open>The next position, as the next number of as many bytes.\<close>

fun lsn_next :: "lsn \<Rightarrow> lsn" where
  "lsn_next [] = []"
| "lsn_next (b # bs) =
     (if list_all (\<lambda>x. x = 255) bs then (b + 1) # replicate (length bs) 0 else b # lsn_next bs)"

lemma byte_max: "(x :: 8 word) \<le> 255"
proof -
  have "unat x < 2 ^ LENGTH(8)" by (rule unsigned_less)
  then show ?thesis by (simp add: word_le_nat_alt)
qed

lemma all_255_top: "list_all (\<lambda>x. x = (255 :: 8 word)) bs \<Longrightarrow> length xs = length bs \<Longrightarrow> \<not> bs < xs"
proof (induction bs arbitrary: xs)
  case (Cons b bs)
  then show ?case using byte_max by (cases xs) (auto simp: not_less)
qed simp

lemma zeros_bottom: "length xs = n \<Longrightarrow> replicate n 0 \<le> (xs :: lsn)"
  by (induction n arbitrary: xs) (auto simp: length_Suc_conv order_less_le)

lemma byte_next: "b \<noteq> 255 \<Longrightarrow> b + 1 \<le> x \<longleftrightarrow> b < (x :: 8 word)"
proof -
  assume "b \<noteq> 255"
  then have "unat b \<noteq> 255" by (simp add: word_unat_eq_iff)
  moreover have "unat b < 2 ^ LENGTH(8)" by (rule unsigned_less)
  ultimately have "unat (b + 1) = unat b + 1" by (simp add: unat_word_ariths)
  then show ?thesis by (simp add: word_le_nat_alt word_less_nat_alt Suc_le_eq)
qed

lemma lsn_next_le:
  "length l = length c \<Longrightarrow> \<not> list_all (\<lambda>x. x = 255) c \<Longrightarrow> lsn_next c \<le> l \<longleftrightarrow> c < l"
proof (induction c arbitrary: l)
  case (Cons b bs)
  then obtain x xs where l: "l = x # xs" "length xs = length bs" by (cases l) auto
  show ?case
  proof (cases "list_all (\<lambda>x. x = 255) bs")
    case True
    with Cons.prems have "b \<noteq> 255" by auto
    with True l all_255_top [OF True l(2)] zeros_bottom [OF l(2)] byte_next [of b x] show ?thesis
      by (auto simp: order_le_less)
  next
    case False
    with Cons.IH [OF l(2) False] l show ?thesis by simp
  qed
qed simp

lemma lsn_next_ok: "increment_ok lsn_next"
  unfolding increment_ok_def
proof (intro allI impI)
  fix c l :: lsn
  assume p: "position c \<and> length l = 10"
  have "\<not> list_all (\<lambda>x. x = 255) c"
  proof
    assume "list_all (\<lambda>x. x = 255) c"
    moreover have "length c = 10" using p by (simp add: position_def)
    ultimately have "c = replicate 10 255" by (auto simp: list_all_iff intro: replicate_eqI)
    with p show False by (simp add: position_def)
  qed
  with p show "lsn_next c \<le> l \<longleftrightarrow> c < l" by (intro lsn_next_le) (simp_all add: position_def)
qed

section \<open>A concrete worker\<close>

definition lsn_at :: "8 word \<Rightarrow> lsn" where
  "lsn_at b = replicate 9 0 @ [b]"

definition change_at :: "8 word \<Rightarrow> uuid \<Rightarrow> change_row" where
  "change_at b i =
     \<lparr>ch_StartLsn = lsn_at b, ch_Operation = 2,
      ch_Columns = \<lparr>ob_Id = i, ob_EventType = ''OrderUpdated'', ob_SchemaVersion = 2, ob_AggregateId = ''7'',
        ob_CorrelationId = None, ob_OccurredOnUtc = 5, ob_Payload = JsonText (JObj [])\<rparr>\<rparr>"

definition sample_outbox :: "envelope list outbox_state" where
  "sample_outbox =
     \<lparr>os_World =
        \<lparr>ww_DB = \<lparr>CdcEnabled = True, CaptureExists = True, Changes = [], MinLsn = lsn_at 1, MaxLsn = [],
                  Checkpoints = Map.empty, PublishFailures = Map.empty\<rparr>,
         ww_Broker = []\<rparr>,
      os_Captured = {}, os_Skipped = {}\<rparr>"

abbreviation sample_step :: "envelope list outbox_state \<Rightarrow> envelope list outbox_state \<Rightarrow> bool" where
  "sample_step \<equiv> outbox_step worker_DefaultOptions sample_sql lsn_next DefaultConsumerName log_publish (\<lambda>e. '''')"

text \<open>One row is captured and one cycle is run.\<close>

definition sample_captured :: "envelope list outbox_state" where
  "sample_captured = capture_rows (lsn_at 1) [change_at 1 9] sample_outbox"

definition captured_db :: capture_db where
  "captured_db = os_db sample_captured"

definition sample_published :: "envelope list outbox_state" where
  "sample_published = sample_captured\<lparr>os_World :=
     \<lparr>ww_DB = captured_db\<lparr>Checkpoints := [DefaultConsumerName \<mapsto> lsn_at 1]\<rparr>,
      ww_Broker = [msg_of (change_at 1 9)]\<rparr>\<rparr>"

lemma lsn_at_facts:
  "position (lsn_at 1)" "position (lsn_at 2)" "\<not> lsn_IsZero (lsn_at 1)" "\<not> lsn_IsZero (lsn_at 2)"
  "lsn_at 1 < lsn_at 2" "lsn_next (lsn_at 1) = lsn_at 2" "lsn_next (lsn_at 2) = lsn_at 3" "[] < lsn_at 1"
  "lsn_at 2 < lsn_at 3" "position (lsn_at 3)"
  by code_simp+

lemma no_position [simp]: "lsn_IsZero []"
  by (simp add: lsn_IsZero_def)

lemma sample_outbox_read:
  "reader_Read lsn_next [] 100 (sample_env, captured_db)
     = (Inr [\<lparr>gr_LSN = lsn_at 1, gr_Messages = [msg_of (change_at 1 9)]\<rparr>], sample_env, captured_db)"
  unfolding captured_db_def
  by (simp add: reader_Read_def reader_bounds_def reader_changes_def changes_stmt_def andthen_def on_err_def
      query_ok call_ok sample_env_ok sample_captured_def capture_rows_def sample_outbox_def lsn_at_facts Let_def
      change_at_def scanChange_def groupByLSN_def group_row_def msg_of_def ret_def)

lemma sample_cycle_run:
  "worker_ProcessOnce worker_DefaultOptions (sql_ports sample_sql lsn_next DefaultConsumerName log_publish) (\<lambda>e. '''')
     (\<lambda>n. False) (sample_env, os_World sample_captured)
     = (Inr (\<lparr>rt_Status = StatusProcessed, rt_Published = 1, rt_Poisoned = 0\<rparr>, None), sample_env, os_World sample_published)"
proof -
  have e: "os_World sample_captured = \<lparr>ww_DB = captured_db, ww_Broker = []\<rparr>"
    "Checkpoints captured_db = Map.empty" "PublishFailures captured_db = Map.empty"
    by (simp_all add: captured_db_def sample_captured_def capture_rows_def sample_outbox_def)
  show ?thesis
    by (simp add: worker_ProcessOnce_def andthen_def attempt_def sql_ports_def ww_db_def ww_broker_def zoom_def e
        checkpoint_Load_def on_err_def query_ok sample_env_ok ret_def worker_DefaultOptions_def sample_outbox_read
        worker_publish_def failures_Get_def log_publish_def update_ok checkpoint_Save_def lsn_at_facts
        sample_published_def result_zero_def)
qed

lemma sample_steps: "sample_step\<^sup>*\<^sup>* sample_outbox sample_published"
proof -
  have "sample_step sample_outbox sample_captured"
    unfolding sample_captured_def
    by (rule outbox_step.capture) (simp_all add: sample_outbox_def lsn_at_facts change_at_def)
  moreover have "sample_step sample_captured (sample_captured\<lparr>os_World := os_World sample_published\<rparr>)"
    by (rule outbox_step.cycle [OF sample_cycle_run])
  then have "sample_step sample_captured sample_published" by (simp add: sample_published_def)
  ultimately show ?thesis by (meson converse_rtranclp_into_rtranclp rtranclp.rtrancl_refl)
qed

section \<open>Properties\<close>

text \<open>
  C28. No message is passed over: in every state that captures, cleanups and cycles of the worker reach,
  with any failures of the database and the broker and any stops, a captured message at or before the
  checkpoint has been accepted by the broker or given up with its row as the record - unless it was
  cleaned up before the worker had its first checkpoint.
\<close>

theorem outbox_passes_no_message:
  assumes "publisher publish accepted" "increment_ok inc" "outbox_initial c s0"
    and "(outbox_step opt S inc c publish etext)\<^sup>*\<^sup>* s0 s"
    and "r \<in> os_Captured s" "ch_Operation r = 2"
    and "Checkpoints (os_db s) c = Some x" "lsn_Compare (ch_StartLsn r) x \<le> 0"
  shows "accepted (ww_Broker (os_World s)) (msg_of r) \<or> given_up (os_db s) (msg_of r) \<or> r \<in> os_Skipped s"
proof -
  have "outbox_inv accepted c s"
    by (rule publisher.steps_inv [OF assms(1) assms(4) outbox_initial_inv [OF assms(3)] assms(2)])
  then have "covered accepted c (kept_rows s) (os_World s)"
    by (simp add: outbox_inv_def cycle_ready_def)
  with assms(5-8) show ?thesis by (auto simp: covered_def kept_rows_def handled_def)
qed

theorem outbox_passes_no_message_witness:
  "sample_step\<^sup>*\<^sup>* sample_outbox sample_published \<and>
   msg_of (change_at 1 9) \<in> set (ww_Broker (os_World sample_published))"
proof -
  have "outbox_initial DefaultConsumerName sample_outbox" by (simp add: outbox_initial_def sample_outbox_def)
  moreover have "change_at 1 9 \<in> os_Captured sample_published" "ch_Operation (change_at 1 9) = 2"
    "Checkpoints (os_db sample_published) DefaultConsumerName = Some (lsn_at 1)"
    "lsn_Compare (ch_StartLsn (change_at 1 9)) (lsn_at 1) \<le> 0"
    by (simp_all add: sample_published_def sample_captured_def capture_rows_def change_at_def)
  ultimately have "msg_of (change_at 1 9) \<in> set (ww_Broker (os_World sample_published)) \<or>
      given_up (os_db sample_published) (msg_of (change_at 1 9)) \<or> change_at 1 9 \<in> os_Skipped sample_published"
    by (rule outbox_passes_no_message [OF log_broker.publisher_axioms lsn_next_ok _ sample_steps])
  moreover have "\<not> given_up (os_db sample_published) (msg_of (change_at 1 9))" "change_at 1 9 \<notin> os_Skipped sample_published"
    by (simp_all add: sample_published_def sample_captured_def capture_rows_def captured_db_def sample_outbox_def
        given_up_def)
  ultimately show ?thesis using sample_steps by blast
qed

text \<open>
  C29. A read that answers returns whole transactions: a beginning of the inserts after the position, in
  order, that ends where a transaction ends; nothing only when there is nothing to read; and more
  messages than the batch size only when one transaction alone wrote more.
\<close>

theorem read_returns_whole_transactions:
  assumes "reader_Read inc c n (E, db) = (Inr groups, E', db')" "capture_ok db" "increment_ok inc"
    and "lsn_IsZero c \<or> position c"
  shows "db' = db \<and> (\<exists>P Q. unread c db = P @ Q \<and> (\<forall>p \<in> set P. \<forall>q \<in> set Q. ch_StartLsn p < ch_StartLsn q) \<and>
      (groups = [] \<longleftrightarrow> unread c db = []) \<and> concat (map gr_Messages groups) = map msg_of P \<and>
      (int (MessageCount groups) \<le> n \<or> length groups = 1))"
proof -
  from reader_Read_run [OF assms] obtain P Q where
    b: "batch_of n (unread c db) P Q" and g: "groups = group_rec (map scanChange P)"
    by (auto simp: groupByLSN_rec)
  have pq: "unread c db = P @ Q" "\<forall>p \<in> set P. \<forall>q \<in> set Q. ch_StartLsn p < ch_StartLsn q" "P = [] \<Longrightarrow> Q = []"
    using b by (auto simp: batch_of_def whole_beginning_def)
  have n: "0 < n" using assms(1) by (auto simp: reader_Read_def split: if_splits)
  have msgs: "concat (map gr_Messages groups) = map msg_of P"
    by (simp add: g group_rec_messages o_def msg_of_def)
  have "MessageCount groups = length (concat (map gr_Messages groups))"
    by (simp add: MessageCount_def length_concat o_def)
  then have count: "MessageCount groups = length P" by (simp add: msgs)
  have one: "length groups = 1" if same: "\<forall>p \<in> set P. \<forall>q \<in> set P. ch_StartLsn p = ch_StartLsn q" and "P \<noteq> []"
  proof (cases P)
    case (Cons p ps)
    then have "p \<in> set P" "set ps \<subseteq> set P" by auto
    with same have "\<forall>x \<in> set ps. ch_StartLsn x = ch_StartLsn p" by blast
    then have "dropWhile (\<lambda>x. ch_StartLsn x = ch_StartLsn p) ps = []" by (simp only: dropWhile_eq_Nil_conv)
    then show ?thesis unfolding g Cons group_rec_scan by simp
  qed (use that in simp)
  have "int (MessageCount groups) \<le> n \<or> length groups = 1"
    using b count one n by (cases "P = []") (auto simp: batch_of_def)
  moreover have "groups = [] \<longleftrightarrow> unread c db = []" using pq g by auto
  moreover have "db' = db" by (rule quietD [OF quiet_reader_Read assms(1)])
  ultimately show ?thesis using pq msgs by blast
qed

text \<open>Two transactions of two messages each and a batch of three: the second one waits.\<close>

definition two_transactions :: capture_db where
  "two_transactions = captured_db\<lparr>Changes := [change_at 1 1, change_at 1 2, change_at 2 3, change_at 2 4],
     MaxLsn := lsn_at 2\<rparr>"

theorem read_returns_whole_transactions_witness:
  "\<exists>groups E'. reader_Read lsn_next [] 3 (sample_env, two_transactions) = (Inr groups, E', two_transactions) \<and>
     concat (map gr_Messages groups) = [msg_of (change_at 1 1), msg_of (change_at 1 2)]"
proof -
  have r: "reader_Read lsn_next [] 3 (sample_env, two_transactions)
      = (Inr [\<lparr>gr_LSN = lsn_at 1, gr_Messages = [msg_of (change_at 1 1), msg_of (change_at 1 2)]\<rparr>], sample_env, two_transactions)"
    unfolding two_transactions_def captured_db_def
    by (simp add: reader_Read_def reader_bounds_def reader_changes_def changes_stmt_def andthen_def on_err_def
      query_ok call_ok sample_env_ok sample_captured_def capture_rows_def sample_outbox_def lsn_at_facts Let_def
      change_at_def scanChange_def groupByLSN_def group_row_def msg_of_def ret_def order_less_imp_le order_less_imp_not_less
      less_imp_neq lsn_at_facts(5) [THEN less_imp_neq] lsn_at_facts(5) [THEN less_imp_neq, symmetric])
  have u: "unread [] two_transactions = [change_at 1 1, change_at 1 2, change_at 2 3, change_at 2 4]"
    by (simp add: unread_def two_transactions_def change_at_def)
  have ok: "capture_ok two_transactions"
    using lsn_at_facts by (simp add: capture_ok_def two_transactions_def captured_db_def sample_captured_def
        capture_rows_def sample_outbox_def change_at_def order_less_imp_le)
  from read_returns_whole_transactions [OF r ok lsn_next_ok] r show ?thesis by auto
qed

text \<open>
  C30. Once the checkpoint is older than what the server keeps, the worker never publishes and never
  moves again, whatever is captured or cleaned up afterwards - also when every message before the gap
  was published and nothing was lost, as after a quiet time longer than the retention.
\<close>

theorem expired_checkpoint_is_final:
  assumes "(outbox_step opt S inc c publish etext)\<^sup>*\<^sup>* s s'"
    and "Checkpoints (os_db s) c = Some x" "\<not> lsn_IsZero x" "lsn_Compare (inc x) (MinLsn (os_db s)) < 0"
  shows "ww_Broker (os_World s') = ww_Broker (os_World s) \<and> Checkpoints (os_db s') c = Some x \<and>
    lsn_Compare (inc x) (MinLsn (os_db s')) < 0"
  using assms(1)
proof (induction rule: rtranclp_induct)
  case base
  with assms show ?case by simp
next
  case (step s1 s2)
  from step(2) show ?case
  proof (cases rule: outbox_step.cases)
    case (capture l rows)
    with step(3) show ?thesis by (simp add: capture_rows_def)
  next
    case (cleanup l)
    with step(3) show ?thesis by (auto simp: clean_up_def)
  next
    case (cycle stopped E r E' w)
    let ?db = "os_db s1"
    obtain q E1 db1 where l: "checkpoint_Load c (E, ?db) = (q, E1, db1)"
      by (cases "checkpoint_Load c (E, ?db)") auto
    from checkpoint_Load_run [OF l] step(3) have q: "db1 = ?db" "\<And>y. q = Inr y \<Longrightarrow> y = x" by auto
    have load: "po_Load (sql_ports S inc c publish) (E, os_World s1) = (q, E1, os_World s1)"
      using l q(1) by (simp add: sql_ports_def ww_db_run)
    obtain p E2 db2 where rd: "reader_Read inc x (wo_BatchSize opt) (E1, ?db) = (p, E2, db2)"
      by (cases "reader_Read inc x (wo_BatchSize opt) (E1, ?db)") auto
    have db2: "db2 = ?db" by (rule quietD [OF quiet_reader_Read rd])
    have "\<exists>e. p = Inl e"
    proof (cases p)
      case (Inr gs)
      with rd step(3) assms(3) show ?thesis
        by (auto simp: reader_Read_def andthen_Inr dest!: reader_bounds_run split: if_splits)
    qed simp
    then obtain e where "po_Read (sql_ports S inc c publish) x (wo_BatchSize opt) (E1, os_World s1) = (Inl e, E2, os_World s1)"
      using rd db2 by (auto simp: sql_ports_def ww_db_run)
    with cycle(2) load q(2) have "w = os_World s1"
      by (cases q) (auto simp: worker_ProcessOnce_def andthen_def attempt_def ret_def)
    with cycle(1) step(3) show ?thesis by simp
  qed
qed

text \<open>
  One message, published and acknowledged; then time passes without an order, the server raises its
  oldest position past the checkpoint; the next order is captured.
\<close>

theorem expired_checkpoint_is_final_witness:
  "os_Captured sample_published = {change_at 1 9} \<and> msg_of (change_at 1 9) \<in> set (ww_Broker (os_World sample_published)) \<and>
   {s'. sample_step\<^sup>*\<^sup>* (clean_up DefaultConsumerName (lsn_at 3) (capture_rows (lsn_at 3) [] sample_published)) s'}
     \<subseteq> {s'. ww_Broker (os_World s') = [msg_of (change_at 1 9)]}"
proof -
  let ?s = "clean_up DefaultConsumerName (lsn_at 3) (capture_rows (lsn_at 3) [] sample_published)"
  have "ww_Broker (os_World s') = ww_Broker (os_World ?s)" if "sample_step\<^sup>*\<^sup>* ?s s'" for s'
    using expired_checkpoint_is_final [OF that, of "lsn_at 1"] lsn_at_facts
    by (simp add: clean_up_def capture_rows_def sample_published_def)
  then show ?thesis
    by (auto simp: clean_up_def capture_rows_def sample_published_def sample_captured_def sample_outbox_def)
qed

section \<open>When the worker stops\<close>

lemma readiness_Wait_Some:
  "readiness_Wait check stopped n = Some r \<Longrightarrow> \<exists>k\<ge>n. check k = None \<or> stopped k \<noteq> None"
proof (erule readiness_Wait.raw_induct [rotated], goal_cases)
  case (1 wait check stopped n r)
  show ?case
  proof (cases "check n = None \<or> stopped n \<noteq> None")
    case False
    then have "wait check stopped (Suc n) = Some r" using 1(2) by auto
    from 1(1) [OF this] show ?thesis using Suc_leD by blast
  qed auto
qed

lemma worker_loop_Some: "worker_loop opt po etext turns ended n w = Some y \<Longrightarrow> \<exists>k\<ge>n. ended k"
proof (erule worker_loop.raw_induct [rotated], goal_cases)
  case (1 loop opt po etext turns ended n w y)
  show ?case
  proof (cases "ended n")
    case False
    then have "loop opt po etext turns ended (Suc n) (worker_turn opt po etext (turns n) w) = Some y"
      using 1(2) by (simp add: Let_def)
    from 1(1) [OF this] show ?thesis using Suc_leD by blast
  qed auto
qed

lemma readiness_Wait_unfolds:
  assumes "check m = None \<or> stopped m \<noteq> None" "n \<le> m"
    and "\<And>k. n \<le> k \<Longrightarrow> k < m \<Longrightarrow> check k \<noteq> None \<and> stopped k = None"
  shows "readiness_Wait check stopped n = Some (if check m = None then None else stopped m)"
  using assms(2-)
proof (induction "m - n" arbitrary: n)
  case 0
  then have "n = m" by simp
  with assms(1) readiness_Wait.simps [of check stopped n] show ?case
    by (cases "check m"; cases "stopped m") auto
next
  case (Suc d)
  then have n: "check n \<noteq> None" "stopped n = None" "Suc n \<le> m" by auto
  then have "readiness_Wait check stopped n = readiness_Wait check stopped (Suc n)"
    using readiness_Wait.simps [of check stopped n] by auto
  also have "\<dots> = Some (if check m = None then None else stopped m)" using Suc n by simp
  finally show ?case .
qed

lemma readiness_Wait_first:
  "readiness_Wait check stopped 0 =
     (if \<exists>n. check n = None \<or> stopped n \<noteq> None
      then let m = LEAST n. check n = None \<or> stopped n \<noteq> None in Some (if check m = None then None else stopped m)
      else None)"
proof (cases "\<exists>n. check n = None \<or> stopped n \<noteq> None")
  case True
  let ?m = "LEAST n. check n = None \<or> stopped n \<noteq> None"
  have l: "check ?m = None \<or> stopped ?m \<noteq> None" by (rule LeastI_ex [OF True])
  have "check k \<noteq> None \<and> stopped k = None" if "k < ?m" for k
    using not_less_Least [OF that] by (simp only: de_Morgan_disj not_not simp_thms)
  then have "readiness_Wait check stopped 0 = Some (if check ?m = None then None else stopped ?m)"
    by (intro readiness_Wait_unfolds [of check ?m stopped 0, OF l le0])
  with True show ?thesis by (simp only: Let_def if_True)
next
  case False
  then have "readiness_Wait check stopped 0 = None"
    using readiness_Wait_Some [of check stopped 0] by (cases "readiness_Wait check stopped 0") blast+
  with False show ?thesis by (simp only: if_False)
qed


end
