(* ===== verification/Subscription.thy ===== *)
theory Subscription
  imports Publisher
begin

text \<open>
  What the consumers of both brokers share, \<open>internal/platform/messaging/subscriber.go\<close>: the state of a
  consumer beside its broker's, the passes of a subscription's loop, and \<open>KeepSubscribed\<close>, which opens a
  subscription again for as long as the service runs. The seam itself is a locale: what a consumer may
  rely on of the messages that wait for it.
\<close>

section \<open>A consumer and its broker\<close>

definition at_consumer :: "('c, 'a) act \<Rightarrow> ('c \<times> 'k, 'a) act" where
  "at_consumer = zoom fst (\<lambda>c w. (c, snd w))"

definition at_broker :: "('k, 'a) act \<Rightarrow> ('c \<times> 'k, 'a) act" where
  "at_broker = zoom snd (\<lambda>k w. (fst w, k))"

lemma zoom_parts [run]:
  "at_consumer m (E, w) = (r, E', w') \<longleftrightarrow> (\<exists>c. m (E, fst w) = (r, E', c) \<and> w' = (c, snd w))"
  "at_broker b (E, w) = (q, E', w') \<longleftrightarrow> (\<exists>k. b (E, snd w) = (q, E', k) \<and> w' = (fst w, k))"
  by (auto simp: at_consumer_def at_broker_def zoom_run)

text \<open>One pass of a subscription's loop either ends it, with an error or without, or goes on.\<close>

datatype loop_step = Returns "go_error + unit" | Goes_on

text \<open>The envelopes that can be sent at all; every contract of the repository is of this kind.\<close>

definition sendable :: "envelope \<Rightarrow> bool" where
  "sendable e \<longleftrightarrow>
     EventType (env_Contract e) \<noteq> '''' \<and> - (2 ^ 31) \<le> Version (env_Contract e) \<and> Version (env_Contract e) < 2 ^ 31"

section \<open>The seam\<close>

text \<open>
  \<open>Delivery\<close>: a message that was not handled is left with the broker to be delivered again. So a message
  that waits goes on waiting until it is settled.
\<close>

locale subscriber =
  fixes step :: "'w \<Rightarrow> 'w \<Rightarrow> bool"
    and waiting settled :: "'w \<Rightarrow> 'm \<Rightarrow> bool"
  assumes step_waiting: "step w w' \<Longrightarrow> waiting w m \<Longrightarrow> waiting w' m \<or> settled w' m"
    and step_settled: "step w w' \<Longrightarrow> settled w m \<Longrightarrow> settled w' m"
begin

lemma never_dropped: "step\<^sup>*\<^sup>* w w' \<Longrightarrow> waiting w m \<Longrightarrow> waiting w' m \<or> settled w' m"
  by (induction rule: rtranclp_induct) (auto dest: step_waiting step_settled)

end

section \<open>Opening a subscription again\<close>

definition resubscribeBaseDelay :: duration where "resubscribeBaseDelay = 10 ^ 9"
definition resubscribeMaxDelay :: duration where "resubscribeMaxDelay = 30 * 10 ^ 9"

definition resubscribe_delay :: "nat \<Rightarrow> duration" where
  "resubscribe_delay attempts =
     min (resubscribeBaseDelay * 2 ^ min (attempts - 1) 5) resubscribeMaxDelay"

text \<open>
  \<open>subscribe n\<close> is the \<open>n\<close>-th call of \<open>Subscribe\<close>, a \<open>None\<close> if it does not return; \<open>ended n\<close> says that the
  service was asked to stop by the end of the pause after it. The delay of the \<open>n\<close>-th pause is returned
  beside the state, in the order in which the pauses were made.
\<close>

partial_function (option) KeepSubscribed ::
  "(nat \<Rightarrow> 'w \<Rightarrow> ((go_error + unit) \<times> 'w) option) \<Rightarrow> (nat \<Rightarrow> bool) \<Rightarrow> nat \<Rightarrow> duration list \<times> 'w
     \<Rightarrow> (duration list \<times> 'w) option" where
  "KeepSubscribed subscribe ended n p =
     (case p of (delays, w) \<Rightarrow>
       (case subscribe n w of
          None \<Rightarrow> None
        | Some (err, w') \<Rightarrow>
            if ended n then Some (delays, w')
            else KeepSubscribed subscribe ended (Suc n) (delays @ [resubscribe_delay (Suc n)], w')))"

lemma resubscribe_delay_bounds:
  "resubscribeBaseDelay \<le> resubscribe_delay n \<and> resubscribe_delay n \<le> resubscribeMaxDelay"
proof -
  have "(1::int) \<le> 2 ^ min (n - 1) 5" by simp
  then show ?thesis by (auto simp: resubscribe_delay_def resubscribeBaseDelay_def resubscribeMaxDelay_def min_def)
qed

text \<open>A broker that drops the subscription, for whatever reason and however often, does not end the service.\<close>

lemma KeepSubscribed_goes_on:
  assumes "\<And>n w. subscribe n w = Some (err n w, next n w)" "ended m" "\<And>k. k < m \<Longrightarrow> \<not> ended k" "n \<le> m"
  shows "KeepSubscribed subscribe ended n (delays, w) =
    Some (delays @ map (\<lambda>k. resubscribe_delay (Suc k)) [n..<m], fold next [n..<Suc m] w)"
  using assms(4)
proof (induction "m - n" arbitrary: n delays w)
  case 0
  then have "n = m" by simp
  with assms(1) [of m w] assms(2) KeepSubscribed.simps [of subscribe ended n "(delays, w)"] show ?case by simp
next
  case (Suc d)
  then have n: "n < m" "\<not> ended n" using assms(3) by auto
  have "KeepSubscribed subscribe ended n (delays, w)
      = KeepSubscribed subscribe ended (Suc n) (delays @ [resubscribe_delay (Suc n)], next n w)"
    using assms(1) [of n w] n(2) KeepSubscribed.simps [of subscribe ended n "(delays, w)"] by simp
  also have "\<dots> = Some ((delays @ [resubscribe_delay (Suc n)]) @ map (\<lambda>k. resubscribe_delay (Suc k)) [Suc n..<m],
      fold next [Suc n..<Suc m] (next n w))"
    using Suc n(1) by simp
  finally show ?case using n by (simp add: upt_conv_Cons)
qed

end
