(* ===== verification/Kafka.thy ===== *)
theory Kafka
  imports Subscription
begin

text \<open>
  Kafka as a broker: \<open>internal/platform/messaging/kafka\<close> (\<open>kafka.go\<close>, \<open>subscriber.go\<close>). The client
  library is a parameter, the record \<open>kafka_client\<close>; what it documents is the locale \<open>kafka_cluster\<close>:
  a log per partition, a position per partition that the reader keeps in memory, and the offsets the
  group has committed. Log lines and the waits themselves are not modelled.
\<close>

section \<open>Messages\<close>

definition MessageIDHeader :: string where "MessageIDHeader = ''message-id''"
definition EventTypeHeader :: string where "EventTypeHeader = ''event-type''"
definition SchemaVersionHeader :: string where "SchemaVersionHeader = ''schema-version''"
definition CorrelationIDHeader :: string where "CorrelationIDHeader = ''correlation-id''"
definition OccurredOnHeader :: string where "OccurredOnHeader = ''occurred-on-utc''"
definition RejectionReasonHeader :: string where "RejectionReasonHeader = ''rejection-reason''"

lemmas kafka_headers = MessageIDHeader_def EventTypeHeader_def SchemaVersionHeader_def CorrelationIDHeader_def
  OccurredOnHeader_def RejectionReasonHeader_def

record kafka_config =
  kf_Brokers :: "string list"
  kf_TopicPrefix :: string
  kf_WriteTimeout :: duration

definition kafka_Topic :: "kafka_config \<Rightarrow> string \<Rightarrow> string" where
  "kafka_Topic c eventType = kf_TopicPrefix c @ eventType"

record kafka_message =
  km_Topic :: string
  km_Key :: string
  km_Value :: payload
  km_Headers :: "(string \<times> string) list"

text \<open>A message as it is read, with its partition and its offset there.\<close>

record fetched =
  ft_Message :: kafka_message
  ft_Partition :: nat
  ft_Offset :: nat

text \<open>The writer and the reader of the library: \<open>WriteMessages\<close>, \<open>FetchMessage\<close>, \<open>CommitMessages\<close>.\<close>

record 'k kafka_client =
  kc_Write :: "kafka_message \<Rightarrow> ('k, unit) act"
  kc_Fetch :: "('k, fetched) act"
  kc_Commit :: "fetched \<Rightarrow> ('k, unit) act"

section \<open>Publishing\<close>

text \<open>The configuration that \<open>New\<close> hands to the writer.\<close>

definition kafka_New :: "kafka_config \<Rightarrow> kafka_config" where
  "kafka_New c = (if kf_WriteTimeout c \<le> 0 then c\<lparr>kf_WriteTimeout := 30 * 10 ^ 9\<rparr> else c)"

definition kafka_message_of :: "texts \<Rightarrow> kafka_config \<Rightarrow> envelope \<Rightarrow> kafka_message" where
  "kafka_message_of T c e =
     (let headers =
            [(MessageIDHeader, uuid_text T (env_ID e)),
             (EventTypeHeader, EventType (env_Contract e)),
             (SchemaVersionHeader, Itoa (Version (env_Contract e))),
             (OccurredOnHeader, time_text T (env_OccurredOnUTC e))] @
            (if env_CorrelationID e \<noteq> '''' then [(CorrelationIDHeader, env_CorrelationID e)] else [])
      in \<lparr>km_Topic = kafka_Topic c (EventType (env_Contract e)), km_Key = env_AggregateID e,
          km_Value = env_Payload e, km_Headers = headers\<rparr>)"

definition kafka_Publish ::
  "texts \<Rightarrow> kafka_config \<Rightarrow> registry \<Rightarrow> 'k kafka_client \<Rightarrow> envelope \<Rightarrow> ('k, unit) act" where
  "kafka_Publish T c registry client e =
     (if \<not> Knows registry (env_Contract e)
      then fail (Plain (contract_msg ''refusing to publish unknown contract '' (env_Contract e) ''''))
      else on_err (Wrapped (Fmt ''publishing %s to kafka'' [ArgUuid (env_ID e)]))
             (kc_Write client (kafka_message_of T c e)))"

section \<open>Reading a message\<close>

fun kafka_header :: "(string \<times> string) list \<Rightarrow> string \<Rightarrow> string" where
  "kafka_header [] key = ''''"
| "kafka_header ((k, v) # hs) key = (if k = key then v else kafka_header hs key)"

definition kafka_envelopeFrom :: "texts \<Rightarrow> kafka_message \<Rightarrow> go_error + envelope" where
  "kafka_envelopeFrom T m =
     (let header = kafka_header (km_Headers m) in
      case uuid_parse T (header MessageIDHeader) of
        None \<Rightarrow> Inl (Plain (Fmt ''the %s header is not a uuid'' [ArgStr MessageIDHeader]))
      | Some i \<Rightarrow>
          if header EventTypeHeader = ''''
          then Inl (Plain (Fmt ''the message carries no %s header'' [ArgStr EventTypeHeader]))
          else (case Atoi (header SchemaVersionHeader) of
                  None \<Rightarrow> Inl (Plain (Fmt ''the %s header is not a number'' [ArgStr SchemaVersionHeader]))
                | Some version \<Rightarrow>
                    (case time_parse T (header OccurredOnHeader) of
                       None \<Rightarrow> Inl (Plain (Fmt ''the %s header is not a timestamp'' [ArgStr OccurredOnHeader]))
                     | Some occurredOn \<Rightarrow>
                         Inr \<lparr>env_ID = i,
                              env_Contract = \<lparr>EventType = header EventTypeHeader, Version = version\<rparr>,
                              env_AggregateID = km_Key m, env_CorrelationID = header CorrelationIDHeader,
                              env_OccurredOnUTC = occurredOn, env_Payload = km_Value m\<rparr>)))"

section \<open>Consuming\<close>

definition RejectedTopic :: "string \<Rightarrow> string" where
  "RejectedTopic topic = topic @ ''.rejected''"

definition kafka_setAside ::
  "'k kafka_client \<Rightarrow> (go_error \<Rightarrow> string) \<Rightarrow> kafka_message \<Rightarrow> go_error \<Rightarrow> ('k, unit) act" where
  "kafka_setAside client error_text m reason =
     (let topic = RejectedTopic (km_Topic m) in
      on_err (Wrapped (Fmt ''writing to %s'' [ArgStr topic]))
        (kc_Write client \<lparr>km_Topic = topic, km_Key = km_Key m, km_Value = km_Value m,
           km_Headers = km_Headers m @ [(RejectionReasonHeader, error_text reason)]\<rparr>))"

text \<open>
  Where the service may find that it was asked to stop: when the fetch returns, in the pause after a
  failure, when the commit returns.
\<close>

record stops =
  st_Fetch :: bool
  st_Pause :: bool
  st_Commit :: bool

definition kafka_commit :: "'k kafka_client \<Rightarrow> stops \<Rightarrow> fetched \<Rightarrow> ('c \<times> 'k, loop_step) act" where
  "kafka_commit client st f =
     andthen (attempt (at_broker (kc_Commit client f))) (\<lambda>r.
     ret (if st_Commit st then Returns (Inr ()) else Goes_on))"

definition kafka_pause :: "stops \<Rightarrow> ('c \<times> 'k, loop_step) act" where
  "kafka_pause st = ret (if st_Pause st then Returns (Inr ()) else Goes_on)"

text \<open>What \<open>Subscribe\<close> does with a message that it fetched.\<close>

definition kafka_handle ::
  "'k kafka_client \<Rightarrow> (go_error \<Rightarrow> string) \<Rightarrow> texts \<Rightarrow> (envelope \<Rightarrow> ('c, unit) act) \<Rightarrow> stops \<Rightarrow> fetched
     \<Rightarrow> ('c \<times> 'k, loop_step) act" where
  "kafka_handle client error_text T deliver st f =
     (case kafka_envelopeFrom T (ft_Message f) of
        Inl err \<Rightarrow> kafka_commit client st f
      | Inr e \<Rightarrow>
          andthen (attempt (at_consumer (deliver e))) (\<lambda>r.
          case r of
            Inr u \<Rightarrow> kafka_commit client st f
          | Inl err \<Rightarrow>
              if IsRejected err then
                andthen (attempt (at_broker (kafka_setAside client error_text (ft_Message f) err))) (\<lambda>r.
                case r of Inl err' \<Rightarrow> kafka_pause st | Inr u \<Rightarrow> kafka_commit client st f)
              else kafka_pause st))"

text \<open>
  One pass through the loop, from the moment its fetch returns. A failed fetch of a service that was
  stopped is a clean stop.
\<close>

definition kafka_iteration ::
  "'k kafka_client \<Rightarrow> (go_error \<Rightarrow> string) \<Rightarrow> texts \<Rightarrow> (envelope \<Rightarrow> ('c, unit) act) \<Rightarrow> stops
     \<Rightarrow> ('c \<times> 'k, loop_step) act" where
  "kafka_iteration client error_text T deliver st =
     andthen (attempt (at_broker (kc_Fetch client))) (\<lambda>r.
     if st_Fetch st then ret (Returns (Inr ()))
     else case r of
       Inl err \<Rightarrow> ret (Returns (Inl (Wrapped (Fmt ''reading from kafka'' []) err)))
     | Inr f \<Rightarrow> kafka_handle client error_text T deliver st f)"

text \<open>
  \<open>Subscribe\<close>: \<open>turns n\<close> is what surrounds the \<open>n\<close>-th pass. A subscription that nothing ends has no
  result.
\<close>

partial_function (option) kafka_loop ::
  "'k kafka_client \<Rightarrow> (go_error \<Rightarrow> string) \<Rightarrow> texts \<Rightarrow> (envelope \<Rightarrow> ('c, unit) act) \<Rightarrow> (nat \<Rightarrow> env \<times> stops) \<Rightarrow> nat
     \<Rightarrow> 'c \<times> 'k \<Rightarrow> ((go_error + unit) \<times> 'c \<times> 'k) option" where
  "kafka_loop client error_text T deliver turns n w =
     (case kafka_iteration client error_text T deliver (snd (turns n)) (fst (turns n), w) of
        (r, E, w') \<Rightarrow>
          (case r of
             Inr (Returns q) \<Rightarrow> Some (q, w')
           | Inr Goes_on \<Rightarrow> kafka_loop client error_text T deliver turns (Suc n) w'
           | Inl err \<Rightarrow> Some (Inl err, w')))"

definition kafka_Subscribe ::
  "string \<Rightarrow> contract list \<Rightarrow> 'k kafka_client \<Rightarrow> (go_error \<Rightarrow> string) \<Rightarrow> texts \<Rightarrow> (envelope \<Rightarrow> ('c, unit) act)
     \<Rightarrow> (nat \<Rightarrow> env \<times> stops) \<Rightarrow> 'c \<times> 'k \<Rightarrow> ((go_error + unit) \<times> 'c \<times> 'k) option" where
  "kafka_Subscribe consumer_group contracts client error_text T deliver turns w =
     (if consumer_group = '''' then Some (Inl (Plain (Fmt ''a subscriber needs a consumer group'' [])), w)
      else if length contracts = 0 then
        Some (Inl (Plain (Fmt ''a subscriber needs at least one contract to read'' [])), w)
      else kafka_loop client error_text T deliver turns 0 w)"

text \<open>The topics that the reader of \<open>NewSubscriber\<close> is given.\<close>

definition kafka_topics :: "kafka_config \<Rightarrow> contract list \<Rightarrow> string list" where
  "kafka_topics c contracts = map (\<lambda>x. kafka_Topic c (EventType x)) contracts"

section \<open>What the client promises\<close>

definition partition_of :: "fetched \<Rightarrow> string \<times> nat" where
  "partition_of f = (km_Topic (ft_Message f), ft_Partition f)"

text \<open>
  A write that answers has appended the message to a partition of its topic. A fetch reads at the
  reader's position and moves it on. A commit records the offset after the message's; if it fails it may
  have happened. Nothing shortens a log.
\<close>

locale kafka_cluster =
  fixes client :: "'k kafka_client"
    and log :: "'k \<Rightarrow> string \<times> nat \<Rightarrow> kafka_message list"
    and position committed :: "'k \<Rightarrow> string \<times> nat \<Rightarrow> nat"
  assumes write_takes: "kc_Write client m (E, k) = (Inr u, E', k') \<Longrightarrow> \<exists>p. m \<in> set (log k' (km_Topic m, p))"
    and write_keeps: "kc_Write client m (E, k) = (r, E', k') \<Longrightarrow> prefix (log k q) (log k' q)"
    and write_frame: "kc_Write client m (E, k) = (r, E', k') \<Longrightarrow>
        position k' = position k \<and> committed k' = committed k"
    and fetch_answer: "kc_Fetch client (E, k) = (Inr f, E', k') \<Longrightarrow>
        ft_Offset f = position k (partition_of f) \<and> ft_Offset f < length (log k (partition_of f)) \<and>
        log k (partition_of f) ! ft_Offset f = ft_Message f \<and>
        position k' = (position k)(partition_of f := Suc (ft_Offset f))"
    and fetch_frame: "kc_Fetch client (E, k) = (g, E', k') \<Longrightarrow>
        log k' = log k \<and> committed k' = committed k \<and> position k q \<le> position k' q"
    and commit_answer: "kc_Commit client f (E, k) = (Inr u, E', k') \<Longrightarrow>
        committed k' = (committed k)(partition_of f := Suc (ft_Offset f))"
    and commit_frame: "kc_Commit client f (E, k) = (r, E', k') \<Longrightarrow>
        log k' = log k \<and> position k' = position k \<and>
        (committed k' = committed k \<or> committed k' = (committed k)(partition_of f := Suc (ft_Offset f)))"

text \<open>The cluster as a list for each partition; the balancer and the order of fetches are parameters.\<close>

record kafka_logs =
  kl_Log :: "string \<times> nat \<Rightarrow> kafka_message list"
  kl_Position :: "string \<times> nat \<Rightarrow> nat"
  kl_Committed :: "string \<times> nat \<Rightarrow> nat"

definition log_kafka ::
  "(kafka_message \<Rightarrow> nat) \<Rightarrow> (kafka_logs \<Rightarrow> string \<times> nat) \<Rightarrow> kafka_logs kafka_client" where
  "log_kafka balance pick =
     \<lparr>kc_Write = (\<lambda>m. update (\<lambda>t k.
        k\<lparr>kl_Log := (kl_Log k)((km_Topic m, balance m) := kl_Log k (km_Topic m, balance m) @ [m])\<rparr>)),
      kc_Fetch = call (\<lambda>t k.
        let q = pick k; n = kl_Position k q in
        if n < length (kl_Log k q) \<and> km_Topic (kl_Log k q ! n) = fst q
        then (Inr \<lparr>ft_Message = kl_Log k q ! n, ft_Partition = snd q, ft_Offset = n\<rparr>,
              k\<lparr>kl_Position := (kl_Position k)(q := Suc n)\<rparr>)
        else (Inl (DriverError ContextCanceled), k)),
      kc_Commit = (\<lambda>f. update (\<lambda>t k. k\<lparr>kl_Committed := (kl_Committed k)(partition_of f := Suc (ft_Offset f))\<rparr>))\<rparr>"

interpretation logs: kafka_cluster "log_kafka balance pick" kl_Log kl_Position kl_Committed for balance pick
proof (unfold_locales, goal_cases)
  case (1 m E k u E' k')
  then show ?case by (auto simp: log_kafka_def dest!: update_Inr)
next
  case (2 m E k r E' k' q)
  then show ?case by (auto simp: log_kafka_def dest!: update_cases)
next
  case (3 m E k r E' k')
  then show ?case by (auto simp: log_kafka_def dest!: update_cases)
next
  case (4 E k f E' k')
  then show ?case
    by (auto simp: log_kafka_def Let_def partition_of_def dest!: call_Inr split: if_splits prod.splits)
next
  case (5 E k r E' k' q)
  then show ?case by (auto simp: log_kafka_def Let_def dest!: call_cases split: if_splits)
next
  case (6 f E k u E' k')
  then show ?case by (auto simp: log_kafka_def dest!: update_Inr)
next
  case (7 f E k r E' k')
  then show ?case by (auto simp: log_kafka_def dest!: update_cases)
qed

end
