(* ===== verification/Kafka_Facts.thy ===== *)
theory Kafka_Facts
  imports Kafka
begin

text \<open>
  Facts about the Kafka broker: what is published is held and read back, and which messages a consumer
  is still given. A message whose handling failed is not among them.
\<close>

section \<open>Publishing\<close>

sublocale kafka_cluster \<subseteq> publishes: publisher "kafka_Publish T c registry client"
    "\<lambda>k e. \<exists>p. kafka_message_of T c e \<in> set (log k (km_Topic (kafka_message_of T c e), p))" for T c registry
proof (unfold_locales, goal_cases)
  case (1 e E b u E' b')
  then show ?case by (auto simp: kafka_Publish_def on_err_Inr dest: write_takes split: if_splits)
next
  case (2 e E b r E' b' e')
  then obtain p where p: "kafka_message_of T c e' \<in> set (log b (km_Topic (kafka_message_of T c e'), p))" by blast
  show ?case
  proof (cases "Knows registry (env_Contract e)")
    case True
    with 2(1) obtain q where "kc_Write client (kafka_message_of T c e) (E, b) = (q, E', b')"
      by (auto simp: kafka_Publish_def dest: on_err_state)
    from p set_mono_prefix [OF write_keeps [OF this]] show ?thesis by blast
  next
    case False
    with 2(1) p show ?thesis by (auto simp: kafka_Publish_def)
  qed
qed

text \<open>What is sent is what is read, and so is a copy that was set aside.\<close>

lemma kafka_reads_what_was_sent:
  assumes "texts_ok T" "sendable e"
  shows "kafka_envelopeFrom T (kafka_message_of T c e) = Inr e"
  using assms
  by (simp add: kafka_envelopeFrom_def kafka_message_of_def sendable_def int64_def kafka_headers Let_def texts_okD Atoi_Itoa)

text \<open>A header added behind the others changes nothing that is read.\<close>

lemma kafka_reads_the_copy:
  assumes "k \<notin> {MessageIDHeader, EventTypeHeader, SchemaVersionHeader, OccurredOnHeader, CorrelationIDHeader}"
  shows "kafka_envelopeFrom T (m\<lparr>km_Topic := t, km_Headers := km_Headers m @ [(k, v)]\<rparr>) = kafka_envelopeFrom T m"
proof -
  have "kafka_header (hs @ [(k, v)]) key = kafka_header hs key" if "k \<noteq> key" for hs key
    using that by (induction hs) auto
  with assms show ?thesis unfolding kafka_envelopeFrom_def Let_def by (simp split: option.split)
qed

context kafka_cluster
begin

lemma setAside_written:
  assumes "kafka_setAside client etext m why (E, k) = (Inr u, E', k')"
  shows "\<exists>p. \<exists>m' \<in> set (log k' (RejectedTopic (km_Topic m), p)). kafka_envelopeFrom T m' = kafka_envelopeFrom T m \<and>
    last (km_Headers m') = (RejectionReasonHeader, etext why)"
proof -
  let ?copy = "m\<lparr>km_Topic := RejectedTopic (km_Topic m), km_Headers := km_Headers m @ [(RejectionReasonHeader, etext why)]\<rparr>"
  have copy: "?copy = \<lparr>km_Topic = RejectedTopic (km_Topic m), km_Key = km_Key m, km_Value = km_Value m,
      km_Headers = km_Headers m @ [(RejectionReasonHeader, etext why)]\<rparr>"
    by (cases m) simp
  from assms have "kc_Write client ?copy (E, k) = (Inr u, E', k')"
    unfolding copy by (simp add: kafka_setAside_def Let_def on_err_Inr)
  from write_takes [OF this] obtain p where "?copy \<in> set (log k' (RejectedTopic (km_Topic m), p))" by auto
  moreover have "kafka_envelopeFrom T ?copy = kafka_envelopeFrom T m"
    by (rule kafka_reads_the_copy) (simp add: kafka_headers)
  ultimately show ?thesis by (intro exI [of _ p] bexI [of _ ?copy]) simp_all
qed

lemma Publish_written:
  assumes "kafka_Publish T c registry client e (E, k) = (Inr u, E', k')"
  shows "\<exists>p. kafka_message_of T c e \<in> set (log k' (kafka_Topic c (EventType (env_Contract e)), p))"
  using publishes.accepts [OF assms] by (simp add: kafka_message_of_def Let_def)

end

section \<open>What a consumer is still given\<close>

text \<open>
  The steps of a group with one consumer: a pass of its loop, messages that others publish, and a
  restart, after which the reader is where the group committed.
\<close>

inductive kafka_step ::
  "'k kafka_client \<Rightarrow> ('k \<Rightarrow> string \<times> nat \<Rightarrow> kafka_message list) \<Rightarrow> ('k \<Rightarrow> string \<times> nat \<Rightarrow> nat)
     \<Rightarrow> ('k \<Rightarrow> string \<times> nat \<Rightarrow> nat) \<Rightarrow> (go_error \<Rightarrow> string) \<Rightarrow> texts \<Rightarrow> (envelope \<Rightarrow> ('c, unit) act)
     \<Rightarrow> 'c \<times> 'k \<Rightarrow> 'c \<times> 'k \<Rightarrow> bool"
  for client log position committed error_text T deliver where
  pass: "kafka_iteration client error_text T deliver st (E, w) = (r, E', w')
    \<Longrightarrow> kafka_step client log position committed error_text T deliver w w'"
| produce: "(\<And>q. prefix (log k q) (log k' q)) \<Longrightarrow> position k' = position k \<Longrightarrow> committed k' = committed k
    \<Longrightarrow> kafka_step client log position committed error_text T deliver (c, k) (c, k')"
| restart: "log k' = log k \<Longrightarrow> committed k' = committed k \<Longrightarrow> position k' = committed k
    \<Longrightarrow> kafka_step client log position committed error_text T deliver (c, k) (c', k')"

text \<open>The reader and the group are both past the first \<open>n\<close> messages of a partition.\<close>

definition past ::
  "('k \<Rightarrow> string \<times> nat \<Rightarrow> nat) \<Rightarrow> ('k \<Rightarrow> string \<times> nat \<Rightarrow> nat) \<Rightarrow> string \<times> nat \<Rightarrow> nat \<Rightarrow> 'k \<Rightarrow> bool" where
  "past position committed q n k \<longleftrightarrow> n \<le> committed k q \<and> n \<le> position k q"

context kafka_cluster
begin

lemma setAside_frame:
  "kafka_setAside client etext m err (E, k) = (r, E', k') \<Longrightarrow> position k' = position k \<and> committed k' = committed k"
  by (auto simp: kafka_setAside_def Let_def dest!: on_err_state dest: write_frame)

lemma commit_past:
  assumes "kafka_commit client st f (E, w) = (r, E', w')" "past position committed q n (snd w)"
    and "partition_of f = q \<Longrightarrow> n \<le> Suc (ft_Offset f)"
  shows "past position committed q n (snd w')"
  using assms by (auto simp: kafka_commit_def andthen_Inr andthen_def past_def zoom_parts split: prod.splits
      dest!: commit_frame)

lemma handle_past:
  assumes "partition_of f = q \<Longrightarrow> n \<le> Suc (ft_Offset f)"
  shows "keeps (\<lambda>w. past position committed q n (snd w)) (kafka_handle client etext T deliver st f)"
proof -
  let ?done = "\<lambda>w. past position committed q n (snd w)"
  have d: "keeps ?done (kafka_commit client st f :: ('c \<times> 'k, loop_step) act)"
    by (rule keepsI) (rule commit_past [OF _ _ assms])
  have p: "keeps ?done (kafka_pause st :: ('c \<times> 'k, loop_step) act)"
    by (rule keepsI) (auto simp: kafka_pause_def)
  have s: "keeps ?done (at_broker (kafka_setAside client etext (ft_Message f) err) :: ('c \<times> 'k, unit) act)" for err
    by (rule keepsI) (auto simp: zoom_parts past_def dest: setAside_frame)
  have v: "keeps ?done (at_consumer (deliver e))" for e
    by (rule keepsI) (auto simp: zoom_parts)
  show ?thesis
    unfolding kafka_handle_def by (auto intro!: wf_intro d p s v split: sum.split)
qed

text \<open>A pass never goes back behind a point that both the reader and the group are past.\<close>

lemma iteration_fetched:
  assumes "kc_Fetch client (E, k) = (Inr f, E1, k1)" "\<not> st_Fetch st"
  shows "kafka_iteration client etext T deliver st (E, c, k) = kafka_handle client etext T deliver st f (E1, c, k1)"
proof -
  have "at_broker (kc_Fetch client) (E, c, k) = (Inr f, E1, c, k1)"
    using assms(1) by (simp add: zoom_parts)
  then show ?thesis using assms(2) by (simp add: kafka_iteration_def attempt_eval)
qed

lemma iteration_past:
  assumes "kafka_iteration client etext T deliver st (E, w) = (r, E', w')" "past position committed q n (snd w)"
  shows "past position committed q n (snd w')"
proof -
  obtain c k where w: "w = (c, k)" by (cases w)
  obtain g E1 k1 where g: "kc_Fetch client (E, k) = (g, E1, k1)" by (cases "kc_Fetch client (E, k)") auto
  have p1: "past position committed q n k1"
    using fetch_frame [OF g, of q] assms(2) w by (simp add: past_def)
  show ?thesis
  proof (cases "st_Fetch st \<or> (\<exists>x. g = Inl x)")
    case True
    have "at_broker (kc_Fetch client) (E, c, k) = (g, E1, c, k1)"
      using g by (simp add: zoom_parts)
    with assms(1) p1 True w show ?thesis
      by (auto simp: kafka_iteration_def attempt_eval split: if_splits)
  next
    case False
    then obtain f where f: "g = Inr f" by (cases g) auto
    have n: "n \<le> Suc (ft_Offset f)" if "partition_of f = q"
      using fetch_answer [OF g [unfolded f]] assms(2) that w by (auto simp: past_def)
    from assms(1) w have "kafka_handle client etext T deliver st f (E1, c, k1) = (r, E', w')"
      using False by (simp add: iteration_fetched [OF g [unfolded f]])
    from keepsD [OF handle_past [OF n] this] p1 show ?thesis by simp
  qed
qed

lemma step_past:
  assumes "kafka_step client log position committed etext T deliver w w'" "past position committed q n (snd w)"
  shows "past position committed q n (snd w')"
  using assms(1)
proof cases
  case (pass st E r E')
  then show ?thesis using iteration_past assms(2) by blast
qed (use assms(2) in \<open>auto simp: past_def\<close>)

lemma steps_past:
  "(kafka_step client log position committed etext T deliver)\<^sup>*\<^sup>* w w' \<Longrightarrow> past position committed q n (snd w) \<Longrightarrow>
     past position committed q n (snd w')"
  by (induction rule: rtranclp_induct) (auto dest: step_past)

end

section \<open>A message whose handling failed\<close>

context kafka_cluster
begin

lemma handle_commits:
  "keeps (\<lambda>w. position (snd w) = P \<and> (committed (snd w) = M \<or> committed (snd w) = M(partition_of f := Suc (ft_Offset f))))
     (kafka_handle client etext T deliver st f)"
proof -
  let ?kept = "\<lambda>w :: 'c \<times> 'k. position (snd w) = P \<and>
      (committed (snd w) = M \<or> committed (snd w) = M(partition_of f := Suc (ft_Offset f)))"
  have d: "keeps ?kept (kafka_commit client st f)"
    by (rule keepsI) (auto simp: kafka_commit_def attempt_eval zoom_parts andthen_def split: prod.splits dest!: commit_frame)
  have p: "keeps ?kept (kafka_pause st)"
    by (rule keepsI) (auto simp: kafka_pause_def)
  have s: "keeps ?kept (at_broker (kafka_setAside client etext (ft_Message f) err))" for err
    by (rule keepsI) (auto simp: zoom_parts dest: setAside_frame)
  have v: "keeps ?kept (at_consumer (deliver e))" for e
    by (rule keepsI) (auto simp: zoom_parts)
  show ?thesis
    unfolding kafka_handle_def by (auto intro!: wf_intro d p s v split: sum.split)
qed

text \<open>A pass that commits to a partition leaves the reader and the group past where the reader was.\<close>

lemma commit_passes:
  assumes "kafka_iteration client etext T deliver st (E, c, k) = (r, E', c', k')" "committed k' q \<noteq> committed k q"
  shows "past position committed q (position k q) k'"
proof -
  obtain g E1 k1 where g: "kc_Fetch client (E, k) = (g, E1, k1)" by (cases "kc_Fetch client (E, k)") auto
  have k1: "committed k1 = committed k" using fetch_frame [OF g] by blast
  show ?thesis
  proof (cases "st_Fetch st \<or> (\<exists>x. g = Inl x)")
    case True
    have "at_broker (kc_Fetch client) (E, c, k) = (g, E1, c, k1)" using g by (simp add: zoom_parts)
    with assms k1 True show ?thesis
      by (auto simp: kafka_iteration_def attempt_eval split: if_splits)
  next
    case False
    then obtain f where f: "g = Inr f" by (cases g) auto
    note a = fetch_answer [OF g [unfolded f]]
    from assms(1) have "kafka_handle client etext T deliver st f (E1, c, k1) = (r, E', c', k')"
      using False by (simp add: iteration_fetched [OF g [unfolded f]])
    from keepsD [OF handle_commits [of "position k1" "committed k1"] this]
    have "position k' = position k1"
      "committed k' = committed k1 \<or> committed k' = (committed k1)(partition_of f := Suc (ft_Offset f))" by auto
    with assms(2) k1 a show ?thesis by (auto simp: past_def split: if_splits)
  qed
qed

end

text \<open>
  C33. A message whose handling fails is lost to the consumer as soon as a later message of its partition is
  handled: the reader goes on with the next message, and its commit covers the failed one. From then on,
  whatever is published and however often the service restarts, no fetch returns it again.
\<close>

theorem kafka_loses_a_failed_message:
  assumes "kafka_cluster client parts position committed"
    and "kc_Fetch client (E, k) = (Inr f, E1, k1)" "kafka_envelopeFrom T (ft_Message f) = Inr e"
    and "deliver e (E1, c) = (Inl err, E2, c2)" "\<not> IsRejected err" "\<not> st_Fetch st" "\<not> st_Pause st"
    and "kafka_iteration client etext T deliver st' (E3, c2, k1) = (r, E4, c4, k4)"
    and "committed k4 (partition_of f) \<noteq> committed k1 (partition_of f)"
    and "(kafka_step client parts position committed etext T deliver)\<^sup>*\<^sup>* (c4, k4) (c5, k5)"
    and "kc_Fetch client (E5, k5) = (Inr g, E6, k6)" "partition_of g = partition_of f"
  shows "kafka_iteration client etext T deliver st (E, c, k) = (Inr Goes_on, E2, c2, k1) \<and>
    ft_Offset f < committed k5 (partition_of f) \<and> ft_Offset f < ft_Offset g"
proof -
  note fetch_answer = kafka_cluster.fetch_answer [OF assms(1)]
  have "at_consumer (deliver e) (E1, c, k1) = (Inl err, E2, c2, k1)"
    using assms(4) by (simp add: zoom_parts)
  then have "kafka_handle client etext T deliver st f (E1, c, k1) = (Inr Goes_on, E2, c2, k1)"
    using assms(3,5,7) by (simp add: kafka_handle_def attempt_eval kafka_pause_def)
  then have 1: "kafka_iteration client etext T deliver st (E, c, k) = (Inr Goes_on, E2, c2, k1)"
    by (simp add: kafka_cluster.iteration_fetched [OF assms(1,2,6)])
  have "position k1 (partition_of f) = Suc (ft_Offset f)" using fetch_answer [OF assms(2)] by simp
  with kafka_cluster.commit_passes [OF assms(1,8,9)]
  have "past position committed (partition_of f) (Suc (ft_Offset f)) (snd (c4, k4))" by simp
  from kafka_cluster.steps_past [OF assms(1,10) this]
  have p: "past position committed (partition_of f) (Suc (ft_Offset f)) k5" by simp
  with fetch_answer [OF assms(11)] assms(12) have "ft_Offset f < ft_Offset g" by (simp add: past_def)
  with 1 p show ?thesis by (simp add: past_def)
qed

section \<open>A partition of three messages\<close>

definition kafka_sample_config :: kafka_config where
  "kafka_sample_config = \<lparr>kf_Brokers = [''b:9092''], kf_TopicPrefix = '''', kf_WriteTimeout = 1\<rparr>"

definition sample_sent :: "nat \<Rightarrow> envelope" where
  "sample_sent n = \<lparr>env_ID = of_nat n, env_Contract = checkout_contract, env_AggregateID = ''swn01'',
     env_CorrelationID = '''', env_OccurredOnUTC = int n, env_Payload = OtherBytes []\<rparr>"

lemma sample_sent_ok: "sendable (sample_sent n)"
  by (simp add: sendable_def sample_sent_def checkout_contract_def)

abbreviation sample_partition :: "string \<times> nat" where
  "sample_partition \<equiv> (''basket.checkout-submitted'', 0)"

definition sample_kafka :: "kafka_logs kafka_client" where
  "sample_kafka = log_kafka (\<lambda>m. 0) (\<lambda>k. sample_partition)"

definition sample_log :: "kafka_message list" where
  "sample_log = map (\<lambda>n. kafka_message_of sample_texts kafka_sample_config (sample_sent n)) [0..<3]"

definition sample_logs :: "nat \<Rightarrow> nat \<Rightarrow> kafka_logs" where
  "sample_logs p m = \<lparr>kl_Log = (\<lambda>q. []) (sample_partition := sample_log),
     kl_Position = (\<lambda>q. 0) (sample_partition := p), kl_Committed = (\<lambda>q. 0) (sample_partition := m)\<rparr>"

definition going_on :: stops where
  "going_on = \<lparr>st_Fetch = False, st_Pause = False, st_Commit = False\<rparr>"

definition fetched_at :: "nat \<Rightarrow> fetched" where
  "fetched_at n = \<lparr>ft_Message = sample_log ! n, ft_Partition = 0, ft_Offset = n\<rparr>"

lemma sample_log_nth:
  "n < 3 \<Longrightarrow> sample_log ! n = kafka_message_of sample_texts kafka_sample_config (sample_sent n)"
  by (simp add: sample_log_def)

lemma fetched_at_topic: "n < 3 \<Longrightarrow> partition_of (fetched_at n) = sample_partition"
  by (simp add: sample_log_nth kafka_message_of_def Let_def kafka_Topic_def kafka_sample_config_def
      sample_sent_def checkout_contract_def partition_of_def fetched_at_def)

lemma fetched_at_read:
  "n < 3 \<Longrightarrow> kafka_envelopeFrom sample_texts (ft_Message (fetched_at n)) = Inr (sample_sent n)"
  by (simp add: fetched_at_def sample_log_nth kafka_reads_what_was_sent [OF sample_texts_ok sample_sent_ok])

lemma sample_fetch:
  assumes "n < 3" "next_outcome E = (Succeeds, E')"
  shows "kc_Fetch sample_kafka (E, sample_logs n m) = (Inr (fetched_at n), E', sample_logs (Suc n) m)"
proof -
  have "km_Topic (sample_log ! n) = ''basket.checkout-submitted''" "length sample_log = 3"
    using fetched_at_topic [OF assms(1)] by (simp_all add: partition_of_def fetched_at_def sample_log_def)
  with assms show ?thesis
    by (simp add: sample_kafka_def log_kafka_def call_def Let_def sample_logs_def fetched_at_def)
qed

text \<open>
  The first delivery fails because the consumer's database cannot be reached, the second succeeds.
\<close>

definition one_failure :: env where
  "one_failure = sample_env\<lparr>outcomes := [Succeeds, FailsBefore ConnectionLost]\<rparr>"

lemma sample_env_next: "next_outcome sample_env = (Succeeds, sample_env)"
  by (simp add: next_outcome_def)

lemma second_pass:
  "kafka_iteration sample_kafka (\<lambda>e. '''') sample_texts log_publish going_on (sample_env, [], sample_logs 1 0)
     = (Inr Goes_on, sample_env, [sample_sent 1], sample_logs 2 2)"
proof -
  have f: "at_broker (kc_Fetch sample_kafka) (sample_env, [], sample_logs 1 0)
      = (Inr (fetched_at 1), sample_env, [], sample_logs 2 0)"
    by (simp add: zoom_parts sample_fetch [OF _ sample_env_next] numeral_2_eq_2)
  have d: "at_consumer (log_publish (sample_sent 1)) (sample_env, [], sample_logs 2 0)
      = (Inr (), sample_env, [sample_sent 1], sample_logs 2 0)"
    by (simp add: zoom_parts log_publish_def update_ok)
  have "kc_Commit sample_kafka (fetched_at 1) (sample_env, sample_logs 2 0) = (Inr (), sample_env, sample_logs 2 2)"
    by (simp add: sample_kafka_def log_kafka_def update_ok sample_logs_def fetched_at_topic)
      (simp add: fetched_at_def numeral_2_eq_2)
  then have m: "at_broker (kc_Commit sample_kafka (fetched_at 1)) (sample_env, [sample_sent 1], sample_logs 2 0)
      = (Inr (), sample_env, [sample_sent 1], sample_logs 2 2)"
    by (simp add: zoom_parts)
  have r: "kafka_envelopeFrom sample_texts (ft_Message (fetched_at 1)) = Inr (sample_sent 1)"
    by (rule fetched_at_read) simp
  show ?thesis
    by (simp add: kafka_iteration_def attempt_eval kafka_handle_def kafka_commit_def f d m r going_on_def
        del: One_nat_def)
qed

theorem kafka_loses_a_failed_message_witness:
  "kafka_iteration sample_kafka (\<lambda>e. '''') sample_texts log_publish going_on (one_failure, [], sample_logs 0 0)
     = (Inr Goes_on, sample_env, [], sample_logs 1 0) \<and>
   kafka_iteration sample_kafka (\<lambda>e. '''') sample_texts log_publish going_on (sample_env, [], sample_logs 1 0)
     = (Inr Goes_on, sample_env, [sample_sent 1], sample_logs 2 2)"
proof -
  let ?E = "one_failure\<lparr>outcomes := [FailsBefore ConnectionLost]\<rparr>"
  have c: "kafka_cluster sample_kafka kl_Log kl_Position kl_Committed"
    unfolding sample_kafka_def by (rule logs.kafka_cluster_axioms)
  have f: "kc_Fetch sample_kafka (one_failure, sample_logs 0 0) = (Inr (fetched_at 0), ?E, sample_logs 1 0)"
    by (simp add: sample_fetch [of 0 _ ?E] one_failure_def next_outcome_def)
  have g: "kc_Fetch sample_kafka (sample_env, sample_logs 2 2) = (Inr (fetched_at 2), sample_env, sample_logs 3 2)"
    by (simp add: sample_fetch [OF _ sample_env_next] numeral_3_eq_3)
  have d: "log_publish (sample_sent 0) (?E, []) = (Inl (DriverError ConnectionLost), sample_env, [])"
    by (simp add: log_publish_def update_def call_def next_outcome_def one_failure_def sample_env_def)
  have p: "partition_of (fetched_at 0) = sample_partition" "partition_of (fetched_at 2) = partition_of (fetched_at 0)"
    by (simp_all add: fetched_at_topic)
  have n: "kl_Committed (sample_logs 2 2) (partition_of (fetched_at 0))
      \<noteq> kl_Committed (sample_logs 1 0) (partition_of (fetched_at 0))"
    by (simp add: p(1) sample_logs_def)
  from kafka_loses_a_failed_message [OF c f fetched_at_read d _ _ _ second_pass n rtranclp.rtrancl_refl g p(2), of going_on]
  show ?thesis using second_pass by (simp add: going_on_def)
qed

end
