(* ===== verification/RabbitMQ.thy ===== *)
theory RabbitMQ
  imports Subscription
begin

text \<open>
  RabbitMQ as a broker: \<open>internal/platform/messaging/rabbitmq\<close> (\<open>rabbitmq.go\<close>, \<open>subscriber.go\<close>). The AMQP
  client and the broker behind it are a parameter, the record \<open>amqp_client\<close>. Log lines, the mutex and the
  sleeps are not modelled.
\<close>

section \<open>Messages\<close>

text \<open>
  The values of a header table that the code distinguishes; a Go \<open>int\<close> is 64 bits wide. The value of a
  float is kept as the rational number it is.
\<close>

datatype amqp_value =
    VInt int | VInt8 int | VInt16 int | VInt32 int | VInt64 int | VFloat64 rat | VString string | VOther

record publishing =
  pb_MessageId :: string
  pb_CorrelationId :: string
  pb_Type :: string
  pb_Timestamp :: time
  pb_ContentType :: string
  pb_DeliveryMode :: nat
  pb_Headers :: "string \<rightharpoonup> amqp_value"
  pb_Body :: payload

definition Persistent :: nat where "Persistent = 2"

record amqp_delivery =
  dl_Message :: publishing
  dl_Tag :: nat

definition rabbit_message :: "texts \<Rightarrow> envelope \<Rightarrow> publishing" where
  "rabbit_message T e =
     \<lparr>pb_MessageId = uuid_text T (env_ID e), pb_CorrelationId = env_CorrelationID e,
      pb_Type = EventType (env_Contract e), pb_Timestamp = env_OccurredOnUTC e,
      pb_ContentType = ''application/json'', pb_DeliveryMode = Persistent,
      pb_Headers = [''schema-version'' \<mapsto> VInt (Version (env_Contract e)), ''aggregate-id'' \<mapsto> VString (env_AggregateID e)],
      pb_Body = env_Payload e\<rparr>"

text \<open>
  \<open>int(f)\<close> drops the fraction. What it makes of a float beyond the integers is up to the machine; here it is
  what amd64 does.
\<close>

definition int_of_float :: "rat \<Rightarrow> int" where
  "int_of_float f =
     (let i = (if f < 0 then \<lceil>f\<rceil> else \<lfloor>f\<rfloor>) in if int64 i then i else - (2 ^ 63))"

fun intHeader :: "amqp_value option \<Rightarrow> int option" where
  "intHeader (Some (VInt i)) = Some i"
| "intHeader (Some (VInt8 i)) = Some i"
| "intHeader (Some (VInt16 i)) = Some i"
| "intHeader (Some (VInt32 i)) = Some i"
| "intHeader (Some (VInt64 i)) = Some i"
| "intHeader (Some (VFloat64 f)) = Some (int_of_float f)"
| "intHeader (Some (VString s)) = Atoi s"
| "intHeader (Some VOther) = None"
| "intHeader None = None"

fun stringHeader :: "amqp_value option \<Rightarrow> string" where
  "stringHeader (Some (VString s)) = s"
| "stringHeader _ = ''''"

definition rabbit_envelopeFrom :: "texts \<Rightarrow> publishing \<Rightarrow> go_error + envelope" where
  "rabbit_envelopeFrom T m =
     (case uuid_parse T (pb_MessageId m) of
        None \<Rightarrow> Inl (Plain (Fmt ''message id %q is not a uuid'' [ArgStr (pb_MessageId m)]))
      | Some i \<Rightarrow>
          if pb_Type m = '''' then Inl (Plain (Fmt ''the message carries no event type'' []))
          else (case intHeader (pb_Headers m ''schema-version'') of
                  None \<Rightarrow> Inl (Plain (Fmt ''the message carries no schema version'' []))
                | Some version \<Rightarrow>
                    Inr \<lparr>env_ID = i, env_Contract = \<lparr>EventType = pb_Type m, Version = version\<rparr>,
                         env_AggregateID = stringHeader (pb_Headers m ''aggregate-id''),
                         env_CorrelationID = pb_CorrelationId m, env_OccurredOnUTC = pb_Timestamp m,
                         env_Payload = pb_Body m\<rparr>))"

section \<open>The client\<close>

text \<open>
  The calls the code makes: \<open>amqp.Dial\<close>, \<open>Connection.Close\<close>, \<open>Connection.Channel\<close>, and on a channel
  \<open>ExchangeDeclare\<close>, \<open>Confirm\<close>, \<open>QueueDeclare\<close>, \<open>QueueBind\<close>, \<open>Qos\<close>, \<open>Consume\<close>,
  \<open>PublishWithDeferredConfirmWithContext\<close> and the confirmation's \<open>WaitContext\<close>, \<open>Ack\<close>, \<open>Nack\<close> and
  \<open>IsClosed\<close>. \<open>ac_Next\<close> receives from the channel of deliveries; nothing when it was closed.
\<close>

record 'r amqp_client =
  ac_Dial :: "('r, unit) act"
  ac_Close :: "('r, unit) act"
  ac_Channel :: "('r, unit) act"
  ac_ExchangeDeclare :: "string \<Rightarrow> ('r, unit) act"
  ac_Confirm :: "('r, unit) act"
  ac_QueueDeclare :: "string \<Rightarrow> ('r, unit) act"
  ac_QueueBind :: "string \<Rightarrow> string \<Rightarrow> string \<Rightarrow> ('r, unit) act"
  ac_Qos :: "nat \<Rightarrow> ('r, unit) act"
  ac_Consume :: "string \<Rightarrow> ('r, unit) act"
  ac_Publish :: "string \<Rightarrow> string \<Rightarrow> publishing \<Rightarrow> ('r, nat) act"
  ac_Wait :: "nat \<Rightarrow> ('r, bool) act"
  ac_Ack :: "amqp_delivery \<Rightarrow> ('r, unit) act"
  ac_Nack :: "amqp_delivery \<Rightarrow> bool \<Rightarrow> ('r, unit) act"
  ac_IsClosed :: "'r \<Rightarrow> bool"
  ac_Next :: "'r \<Rightarrow> amqp_delivery option \<times> 'r"

section \<open>Publishing\<close>

definition DefaultExchange :: string where "DefaultExchange = ''integration-events''"

record rabbit_config =
  rc_URL :: string
  rc_Exchange :: string

text \<open>\<open>New\<close> and \<open>NewSubscriber\<close> complete the configuration in the same way.\<close>

definition rabbit_New :: "rabbit_config \<Rightarrow> rabbit_config" where
  "rabbit_New c = (if rc_Exchange c = '''' then c\<lparr>rc_Exchange := DefaultExchange\<rparr> else c)"

text \<open>
  A publisher: whether it holds a connection and a channel (it sets and drops both together), and the
  broker.
\<close>

record 'r rabbit =
  rb_Connected :: bool
  rb_Broker :: 'r

definition rb_broker :: "('r, 'a) act \<Rightarrow> ('r rabbit, 'a) act" where
  "rb_broker = zoom rb_Broker (\<lambda>t s. s\<lparr>rb_Broker := t\<rparr>)"

definition rb_set :: "bool \<Rightarrow> ('r rabbit, unit) act" where
  "rb_set b w = (Inr (), fst w, (snd w)\<lparr>rb_Connected := b\<rparr>)"

text \<open>A step of opening a connection: when it fails, the connection is closed again.\<close>

definition or_close :: "('r, unit) act \<Rightarrow> msg \<Rightarrow> ('r, 'a) act \<Rightarrow> ('r, 'a) act" where
  "or_close close m a =
     andthen (attempt a) (\<lambda>r.
     case r of
       Inl err \<Rightarrow> andthen (attempt close) (\<lambda>_. fail (Wrapped m err))
     | Inr x \<Rightarrow> ret x)"

definition discardConnection :: "'r amqp_client \<Rightarrow> ('r rabbit, unit) act" where
  "discardConnection client =
     on_state (\<lambda>s.
       if rb_Connected s then andthen (attempt (rb_broker (ac_Close client))) (\<lambda>_. rb_set False)
       else rb_set False)"

definition openChannel :: "rabbit_config \<Rightarrow> 'r amqp_client \<Rightarrow> ('r rabbit, unit) act" where
  "openChannel c client =
     on_state (\<lambda>s.
       if rb_Connected s \<and> \<not> ac_IsClosed client (rb_Broker s) then ret ()
       else
         andthen (discardConnection client) (\<lambda>_.
         andthen (on_err (Wrapped (Fmt ''connecting to rabbitmq'' [])) (rb_broker (ac_Dial client))) (\<lambda>_.
         andthen (rb_broker (or_close (ac_Close client) (Fmt ''opening rabbitmq channel'' []) (ac_Channel client))) (\<lambda>_.
         andthen (rb_broker (or_close (ac_Close client) (Fmt ''declaring exchange %s'' [ArgStr (rc_Exchange c)])
           (ac_ExchangeDeclare client (rc_Exchange c)))) (\<lambda>_.
         andthen (rb_broker (or_close (ac_Close client) (Fmt ''enabling publisher confirms'' []) (ac_Confirm client))) (\<lambda>_.
         rb_set True))))))"

definition rabbit_confirm :: "'r amqp_client \<Rightarrow> envelope \<Rightarrow> nat \<Rightarrow> ('r rabbit, unit) act" where
  "rabbit_confirm client e confirmation =
     andthen (attempt (rb_broker (ac_Wait client confirmation))) (\<lambda>r.
     case r of
       Inl err \<Rightarrow>
         andthen (discardConnection client) (\<lambda>_.
         fail (Wrapped (Fmt ''waiting for rabbitmq to confirm %s'' [ArgUuid (env_ID e)]) err))
     | Inr acked \<Rightarrow>
         if acked then ret ()
         else fail (Plain (Fmt ''rabbitmq rejected message %s'' [ArgUuid (env_ID e)])))"

definition rabbit_send :: "texts \<Rightarrow> rabbit_config \<Rightarrow> 'r amqp_client \<Rightarrow> envelope \<Rightarrow> ('r rabbit, unit) act" where
  "rabbit_send T c client e =
     andthen (attempt (rb_broker
       (ac_Publish client (rc_Exchange c) (EventType (env_Contract e)) (rabbit_message T e)))) (\<lambda>r.
     case r of
       Inl err \<Rightarrow>
         andthen (discardConnection client) (\<lambda>_.
         fail (Wrapped (Fmt ''publishing %s to rabbitmq'' [ArgUuid (env_ID e)]) err))
     | Inr confirmation \<Rightarrow> rabbit_confirm client e confirmation)"

definition rabbit_Publish ::
  "texts \<Rightarrow> rabbit_config \<Rightarrow> registry \<Rightarrow> 'r amqp_client \<Rightarrow> envelope \<Rightarrow> ('r rabbit, unit) act" where
  "rabbit_Publish T c registry client e =
     (if \<not> Knows registry (env_Contract e)
      then fail (Plain (contract_msg ''refusing to publish unknown contract '' (env_Contract e) ''''))
      else andthen (openChannel c client) (\<lambda>_. rabbit_send T c client e))"

section \<open>Consuming\<close>

definition prefetch :: nat where "prefetch = 16"

definition ErrorQueue :: "string \<Rightarrow> string" where
  "ErrorQueue queue = queue @ ''_error''"

text \<open>\<open>open\<close>: the queues are declared and bound before anything is consumed.\<close>

definition rabbit_open :: "rabbit_config \<Rightarrow> string \<Rightarrow> contract list \<Rightarrow> 'r amqp_client \<Rightarrow> ('r, unit) act" where
  "rabbit_open c queue contracts client =
     (let oc = or_close (ac_Close client) in
      if queue = '''' then fail (Plain (Fmt ''a subscriber needs a queue name'' []))
      else if length contracts = 0 then fail (Plain (Fmt ''a subscriber needs at least one contract to bind to'' []))
      else
        andthen (on_err (Wrapped (Fmt ''connecting to rabbitmq'' [])) (ac_Dial client)) (\<lambda>_.
        andthen (oc (Fmt ''opening rabbitmq channel'' []) (ac_Channel client)) (\<lambda>_.
        andthen (oc (Fmt ''declaring exchange %s'' [ArgStr (rc_Exchange c)]) (ac_ExchangeDeclare client (rc_Exchange c))) (\<lambda>_.
        andthen (oc (Fmt ''declaring queue %s'' [ArgStr queue]) (ac_QueueDeclare client queue)) (\<lambda>_.
        andthen (oc (Fmt ''declaring queue %s'' [ArgStr (ErrorQueue queue)]) (ac_QueueDeclare client (ErrorQueue queue))) (\<lambda>_.
        andthen (oc (Fmt ''opening rabbitmq channel for rejected messages'' []) (ac_Channel client)) (\<lambda>_.
        andthen (oc (Fmt ''enabling confirms for rejected messages'' []) (ac_Confirm client)) (\<lambda>_.
        andthen (for_each (\<lambda>x. oc (Fmt ''binding queue %s to %s'' [ArgStr queue, ArgStr (EventType x)])
          (ac_QueueBind client queue (EventType x) (rc_Exchange c))) contracts) (\<lambda>_.
        andthen (oc (Fmt ''setting prefetch'' []) (ac_Qos client prefetch)) (\<lambda>_.
        oc (Fmt ''consuming from %s'' [ArgStr queue]) (ac_Consume client queue)))))))))))"

text \<open>The copy of a rejected message; the body and everything else of it is the same.\<close>

definition rejected_copy :: "(go_error \<Rightarrow> string) \<Rightarrow> publishing \<Rightarrow> go_error \<Rightarrow> publishing" where
  "rejected_copy error_text m reason =
     m\<lparr>pb_DeliveryMode := Persistent, pb_Headers := (pb_Headers m)(''rejection-reason'' \<mapsto> VString (error_text reason))\<rparr>"

definition publishRejected ::
  "'r amqp_client \<Rightarrow> (go_error \<Rightarrow> string) \<Rightarrow> string \<Rightarrow> publishing \<Rightarrow> go_error \<Rightarrow> ('r, unit) act" where
  "publishRejected client error_text errorQueue m reason =
     andthen (on_err (Wrapped (Fmt ''publishing to %s'' [ArgStr errorQueue]))
       (ac_Publish client '''' errorQueue (rejected_copy error_text m reason))) (\<lambda>confirmation.
     andthen (on_err (Wrapped (Fmt ''waiting for %s to confirm'' [ArgStr errorQueue])) (ac_Wait client confirmation)) (\<lambda>acked.
     if acked then ret () else fail (Plain (Fmt ''rabbitmq refused the copy for %s'' [ArgStr errorQueue]))))"

text \<open>An answer to the broker whose own failure is ignored.\<close>

definition ignoring :: "('r, unit) act \<Rightarrow> ('r, unit) act" where
  "ignoring a = andthen (attempt a) (\<lambda>_. ret ())"

definition rabbit_setAside ::
  "'r amqp_client \<Rightarrow> (go_error \<Rightarrow> string) \<Rightarrow> string \<Rightarrow> amqp_delivery \<Rightarrow> go_error \<Rightarrow> ('r, unit) act" where
  "rabbit_setAside client error_text queue d reason =
     andthen (attempt (publishRejected client error_text (ErrorQueue queue) (dl_Message d) reason)) (\<lambda>r.
     case r of
       Inl err \<Rightarrow> ignoring (ac_Nack client d True)
     | Inr u \<Rightarrow> ignoring (ac_Ack client d))"

definition rabbit_handle ::
  "'r amqp_client \<Rightarrow> (go_error \<Rightarrow> string) \<Rightarrow> texts \<Rightarrow> string \<Rightarrow> (envelope \<Rightarrow> ('c, unit) act) \<Rightarrow> amqp_delivery
     \<Rightarrow> ('c \<times> 'r, unit) act" where
  "rabbit_handle client error_text T queue deliver d =
     (case rabbit_envelopeFrom T (dl_Message d) of
        Inl err \<Rightarrow> at_broker (ignoring (ac_Nack client d False))
      | Inr e \<Rightarrow>
          andthen (attempt (at_consumer (deliver e))) (\<lambda>r.
          case r of
            Inl err \<Rightarrow>
              if IsRejected err then at_broker (rabbit_setAside client error_text queue d err)
              else at_broker (ignoring (ac_Nack client d True))
          | Inr u \<Rightarrow> at_broker (ignoring (ac_Ack client d))))"

definition receive :: "'r amqp_client \<Rightarrow> ('r, amqp_delivery option) act" where
  "receive client w = (Inr (fst (ac_Next client (snd w))), fst w, snd (ac_Next client (snd w)))"

definition rabbit_iteration ::
  "'r amqp_client \<Rightarrow> (go_error \<Rightarrow> string) \<Rightarrow> texts \<Rightarrow> string \<Rightarrow> (envelope \<Rightarrow> ('c, unit) act) \<Rightarrow> bool
     \<Rightarrow> ('c \<times> 'r, loop_step) act" where
  "rabbit_iteration client error_text T queue deliver cancelled =
     (if cancelled then ret (Returns (Inr ()))
      else
        andthen (at_broker (receive client)) (\<lambda>delivered.
        case delivered of
          None \<Rightarrow> ret (Returns (Inl (Plain (Fmt ''the rabbitmq consumer was closed by the broker'' []))))
        | Some d \<Rightarrow> andthen (rabbit_handle client error_text T queue deliver d) (\<lambda>_. ret Goes_on)))"

partial_function (option) rabbit_loop ::
  "'r amqp_client \<Rightarrow> (go_error \<Rightarrow> string) \<Rightarrow> texts \<Rightarrow> string \<Rightarrow> (envelope \<Rightarrow> ('c, unit) act) \<Rightarrow> (nat \<Rightarrow> env \<times> bool) \<Rightarrow> nat
     \<Rightarrow> 'c \<times> 'r \<Rightarrow> ((go_error + unit) \<times> 'c \<times> 'r) option" where
  "rabbit_loop client error_text T queue deliver turns n w =
     (case rabbit_iteration client error_text T queue deliver (snd (turns n)) (fst (turns n), w) of
        (r, E, w') \<Rightarrow>
          (case r of
             Inr (Returns q) \<Rightarrow> Some (q, w')
           | Inr Goes_on \<Rightarrow> rabbit_loop client error_text T queue deliver turns (Suc n) w'
           | Inl err \<Rightarrow> Some (Inl err, w')))"

definition rabbit_Subscribe ::
  "rabbit_config \<Rightarrow> string \<Rightarrow> contract list \<Rightarrow> 'r amqp_client \<Rightarrow> (go_error \<Rightarrow> string) \<Rightarrow> texts
     \<Rightarrow> (envelope \<Rightarrow> ('c, unit) act) \<Rightarrow> env \<Rightarrow> (nat \<Rightarrow> env \<times> bool) \<Rightarrow> 'c \<times> 'r
     \<Rightarrow> ((go_error + unit) \<times> 'c \<times> 'r) option" where
  "rabbit_Subscribe c queue contracts client error_text T deliver E turns w =
     (case at_broker (rabbit_open c queue contracts client) (E, w) of
        (Inl err, E', w') \<Rightarrow> Some (Inl err, w')
      | (Inr u, E', w') \<Rightarrow> rabbit_loop client error_text T queue deliver turns 0 w')"

end
