(* ===== verification/RabbitMQ_Facts.thy ===== *)
theory RabbitMQ_Facts
  imports RabbitMQ
begin

text \<open>
  Facts about the RabbitMQ broker: what the client promises, as locales; what is published is held; and a
  message in a consumer's queue stays there until it is settled.
\<close>

section \<open>What the client promises\<close>

text \<open>
  \<open>held r x k m\<close>: the broker has taken \<open>m\<close> under the routing key \<open>k\<close> of the exchange \<open>x\<close>. A confirmed
  message is held, and no call makes the broker forget one.
\<close>

locale amqp_broker =
  fixes client :: "'r amqp_client"
    and held :: "'r \<Rightarrow> string \<Rightarrow> string \<Rightarrow> publishing \<Rightarrow> bool"
  assumes confirmed: "ac_Publish client x k m (E, r) = (Inr tag, E1, r1) \<Longrightarrow>
        ac_Wait client tag (E1, r1) = (Inr True, E2, r2) \<Longrightarrow> held r2 x k m"
    and held_publish: "keeps (\<lambda>r. held r x k m) (ac_Publish client x' k' m')"
    and held_wait: "keeps (\<lambda>r. held r x k m) (ac_Wait client tag)"
    and held_connection: "keeps (\<lambda>r. held r x k m) (ac_Dial client)" "keeps (\<lambda>r. held r x k m) (ac_Close client)"
        "keeps (\<lambda>r. held r x k m) (ac_Channel client)" "keeps (\<lambda>r. held r x k m) (ac_ExchangeDeclare client ex)"
        "keeps (\<lambda>r. held r x k m) (ac_Confirm client)"

text \<open>
  \<open>pending r m\<close>: \<open>m\<close> is in the consumer's queue, or delivered to it and neither acknowledged nor refused.
  Only the acknowledgement of a delivery and a refusal without requeueing take its message away; a closed
  connection gives unacknowledged messages back.
\<close>

locale amqp_consumer = amqp_broker client held
  for client :: "'r amqp_client" and held +
  fixes pending :: "'r \<Rightarrow> publishing \<Rightarrow> bool"
  assumes pending_publish: "keeps (\<lambda>r. pending r m) (ac_Publish client x k m')"
    and pending_wait: "keeps (\<lambda>r. pending r m) (ac_Wait client tag)"
    and pending_ack: "m \<noteq> dl_Message d \<Longrightarrow> keeps (\<lambda>r. pending r m) (ac_Ack client d)"
    and pending_drop: "m \<noteq> dl_Message d \<Longrightarrow> keeps (\<lambda>r. pending r m) (ac_Nack client d False)"
    and pending_requeue: "keeps (\<lambda>r. pending r m) (ac_Nack client d True)"
    and pending_connection: "keeps (\<lambda>r. pending r m) (ac_Dial client)" "keeps (\<lambda>r. pending r m) (ac_Close client)"
        "keeps (\<lambda>r. pending r m) (ac_Channel client)" "keeps (\<lambda>r. pending r m) (ac_ExchangeDeclare client ex)"
        "keeps (\<lambda>r. pending r m) (ac_Confirm client)"
    and pending_queues: "keeps (\<lambda>r. pending r m) (ac_QueueDeclare client q)"
        "keeps (\<lambda>r. pending r m) (ac_QueueBind client q key ex)" "keeps (\<lambda>r. pending r m) (ac_Qos client n)"
        "keeps (\<lambda>r. pending r m) (ac_Consume client q)"
    and held_queues: "keeps (\<lambda>r. held r x k m) (ac_QueueDeclare client q)"
        "keeps (\<lambda>r. held r x k m) (ac_QueueBind client q key ex)" "keeps (\<lambda>r. held r x k m) (ac_Qos client n)"
        "keeps (\<lambda>r. held r x k m) (ac_Consume client q)"
    and held_answers: "keeps (\<lambda>r. held r x k m) (ac_Ack client d)" "keeps (\<lambda>r. held r x k m) (ac_Nack client d b)"
    and next_keeps: "pending r m \<Longrightarrow> pending (snd (ac_Next client r)) m"
        "held r x k m \<Longrightarrow> held (snd (ac_Next client r)) x k m"

section \<open>What is kept along the calls\<close>

lemma keeps_or_close [wf_intro]: "keeps P close \<Longrightarrow> keeps P a \<Longrightarrow> keeps P (or_close close m a)"
  unfolding or_close_def by (auto intro!: wf_intro split: sum.split)

lemma keeps_ignoring [wf_intro]: "keeps P a \<Longrightarrow> keeps P (ignoring a)"
  unfolding ignoring_def by (auto intro!: wf_intro)

lemma keeps_rb_broker: "keeps P a \<Longrightarrow> keeps (\<lambda>s. P (rb_Broker s)) (rb_broker a)"
  unfolding rb_broker_def by (rule keeps_zoom) auto

lemma keeps_rb_set: "keeps (\<lambda>s. P (rb_Broker s)) (rb_set b)"
  by (auto simp: keeps_def rb_set_def)

lemma keeps_at_broker: "keeps P a \<Longrightarrow> keeps (\<lambda>w. P (snd w)) (at_broker a)"
  by (rule keepsI) (auto simp: zoom_parts dest: keepsD)

section \<open>Publishing\<close>

context amqp_broker
begin

lemma held_discard: "keeps (\<lambda>s. held (rb_Broker s) x k m) (discardConnection client)"
  unfolding discardConnection_def
  by (auto intro!: wf_intro keeps_rb_broker keeps_rb_set held_connection)

lemma held_open: "keeps (\<lambda>s. held (rb_Broker s) x k m) (openChannel c client)"
  unfolding openChannel_def
  by (auto intro!: wf_intro keeps_rb_broker keeps_rb_set held_connection held_discard)

lemma held_Publish: "keeps (\<lambda>s. held (rb_Broker s) x k m) (rabbit_Publish T c registry client e)"
  unfolding rabbit_Publish_def rabbit_send_def rabbit_confirm_def
  by (auto intro!: wf_intro held_open held_discard keeps_rb_broker held_publish held_wait split: sum.split)

lemma rb_broker_run: "rb_broker a (E, s) = (q, E', s') \<longleftrightarrow> (\<exists>b. a (E, rb_Broker s) = (q, E', b) \<and> s' = s\<lparr>rb_Broker := b\<rparr>)"
  by (auto simp: rb_broker_def zoom_run)

lemma confirm_True:
  assumes "rabbit_confirm client e n (E, s) = (Inr u, E', s')"
  shows "rb_broker (ac_Wait client n) (E, s) = (Inr True, E', s')"
proof -
  obtain r E1 s1 where r: "rb_broker (ac_Wait client n) (E, s) = (r, E1, s1)"
    by (cases "rb_broker (ac_Wait client n) (E, s)") auto
  with assms show ?thesis
    by (cases r) (auto simp: rabbit_confirm_def attempt_eval andthen_Inr split: if_splits)
qed

lemma send_confirmed:
  assumes "rabbit_send T c client e (E, s) = (Inr u, E', s')"
  shows "\<exists>n E1 s1. rb_broker (ac_Publish client (rc_Exchange c) (EventType (env_Contract e)) (rabbit_message T e)) (E, s)
      = (Inr n, E1, s1) \<and> rabbit_confirm client e n (E1, s1) = (Inr u, E', s')"
proof -
  let ?send = "rb_broker (ac_Publish client (rc_Exchange c) (EventType (env_Contract e)) (rabbit_message T e))"
  obtain r E1 s1 where r: "?send (E, s) = (r, E1, s1)" by (cases "?send (E, s)") auto
  with assms show ?thesis
    by (cases r) (auto simp: rabbit_send_def attempt_eval andthen_Inr)
qed

lemma Publish_held:
  assumes "rabbit_Publish T c registry client e (E, s) = (Inr u, E', s')"
  shows "held (rb_Broker s') (rc_Exchange c) (EventType (env_Contract e)) (rabbit_message T e)"
proof -
  from assms obtain E1 s1 where "rabbit_send T c client e (E1, s1) = (Inr u, E', s')"
    by (auto simp: rabbit_Publish_def andthen_Inr split: if_splits)
  from send_confirmed [OF this] obtain n E2 s2 where
    1: "rb_broker (ac_Publish client (rc_Exchange c) (EventType (env_Contract e)) (rabbit_message T e)) (E1, s1)
      = (Inr n, E2, s2)" and 2: "rabbit_confirm client e n (E2, s2) = (Inr u, E', s')" by blast
  from 1 confirm_True [OF 2] show ?thesis by (auto simp: rb_broker_run intro: confirmed)
qed

lemma reject_held:
  assumes "publishRejected client etext q m why (E, r) = (Inr u, E', r')"
  shows "held r' '''' q (rejected_copy etext m why)"
  using assms by (auto simp: publishRejected_def andthen_Inr on_err_Inr split: if_splits intro: confirmed)

end

sublocale amqp_broker \<subseteq> publishes: publisher "rabbit_Publish T c registry client"
    "\<lambda>s e. held (rb_Broker s) (rc_Exchange c) (EventType (env_Contract e)) (rabbit_message T e)" for T c registry
  by unfold_locales (auto dest: Publish_held keepsD [OF held_Publish])

section \<open>Consuming\<close>

text \<open>
  What becomes of a message: it cannot be read, it was handled, or it was given up with a copy in the
  consumer's error queue. \<open>handled c e\<close> is what the consumer's own state records of a delivery.
\<close>

definition settled_message ::
  "('r \<Rightarrow> string \<Rightarrow> string \<Rightarrow> publishing \<Rightarrow> bool) \<Rightarrow> ('c \<Rightarrow> envelope \<Rightarrow> bool) \<Rightarrow> (go_error \<Rightarrow> string) \<Rightarrow> texts \<Rightarrow> string
     \<Rightarrow> 'c \<times> 'r \<Rightarrow> publishing \<Rightarrow> bool" where
  "settled_message held handled etext T queue w m \<longleftrightarrow>
     (\<exists>err. rabbit_envelopeFrom T m = Inl err) \<or>
     (\<exists>e. rabbit_envelopeFrom T m = Inr e \<and> handled (fst w) e) \<or>
     (\<exists>why. held (snd w) '''' (ErrorQueue queue) (rejected_copy etext m why))"

text \<open>
  The steps of a consumer: a pass of its loop, opening the subscription, and whatever else happens at the
  broker and in the consumer's own state without taking messages or records away: other publishers, other
  work, a connection that drops and gives the unacknowledged messages back.
\<close>

inductive rabbit_step ::
  "'r amqp_client \<Rightarrow> ('r \<Rightarrow> string \<Rightarrow> string \<Rightarrow> publishing \<Rightarrow> bool) \<Rightarrow> ('r \<Rightarrow> publishing \<Rightarrow> bool) \<Rightarrow> ('c \<Rightarrow> envelope \<Rightarrow> bool)
     \<Rightarrow> rabbit_config \<Rightarrow> (go_error \<Rightarrow> string) \<Rightarrow> texts \<Rightarrow> string \<Rightarrow> (envelope \<Rightarrow> ('c, unit) act)
     \<Rightarrow> 'c \<times> 'r \<Rightarrow> 'c \<times> 'r \<Rightarrow> bool"
  for client held pending handled cfg etext T queue deliver where
  pass: "rabbit_iteration client etext T queue deliver cancelled (E, w) = (q, E', w')
    \<Longrightarrow> rabbit_step client held pending handled cfg etext T queue deliver w w'"
| reopen: "at_broker (rabbit_open cfg queue contracts client) (E, w) = (u, E', w')
    \<Longrightarrow> rabbit_step client held pending handled cfg etext T queue deliver w w'"
| elsewhere: "(\<And>m. pending r m \<Longrightarrow> pending r' m) \<Longrightarrow> (\<And>x k m. held r x k m \<Longrightarrow> held r' x k m)
    \<Longrightarrow> (\<And>e. handled c e \<Longrightarrow> handled c' e)
    \<Longrightarrow> rabbit_step client held pending handled cfg etext T queue deliver (c, r) (c', r')"

lemma keeps_for_each_oc:
  "(\<And>x. keeps P (f x)) \<Longrightarrow> keeps P (for_each f xs)"
  by (rule keeps_for_each) blast

context amqp_consumer
begin

lemma open_keeps:
  assumes "keeps P (ac_Dial client)" "keeps P (ac_Close client)" "keeps P (ac_Channel client)"
    "\<And>ex. keeps P (ac_ExchangeDeclare client ex)" "keeps P (ac_Confirm client)" "\<And>q. keeps P (ac_QueueDeclare client q)"
    "\<And>q key ex. keeps P (ac_QueueBind client q key ex)" "\<And>n. keeps P (ac_Qos client n)" "\<And>q. keeps P (ac_Consume client q)"
  shows "keeps P (rabbit_open c queue contracts client)"
  unfolding rabbit_open_def Let_def by (auto intro!: wf_intro assms keeps_for_each_oc)

lemma held_reject: "keeps (\<lambda>r. held r x k m) (publishRejected client etext q m' why)"
  unfolding publishRejected_def by (auto intro!: wf_intro held_publish held_wait)

lemma pending_reject: "keeps (\<lambda>r. pending r m) (publishRejected client etext q m' why)"
  unfolding publishRejected_def by (auto intro!: wf_intro pending_publish pending_wait)

lemma held_setAside: "keeps (\<lambda>r. held r x k m) (rabbit_setAside client etext queue d why)"
  unfolding rabbit_setAside_def
  by (auto intro!: wf_intro held_reject held_answers split: sum.split)

lemma setAside_settles:
  assumes "rabbit_setAside client etext queue d why (E, r) = (u, E', r')" "pending r m"
  shows "pending r' m \<or> (\<exists>why. held r' '''' (ErrorQueue queue) (rejected_copy etext m why))"
proof (cases "m = dl_Message d")
  case False
  have "keeps (\<lambda>r. pending r m) (rabbit_setAside client etext queue d why)"
    unfolding rabbit_setAside_def
    by (auto intro!: wf_intro pending_reject pending_requeue pending_ack [OF False] split: sum.split)
  from keepsD [OF this assms] show ?thesis by blast
next
  case True
  let ?copy = "publishRejected client etext (ErrorQueue queue) (dl_Message d) why"
  obtain q E1 r1 where q: "?copy (E, r) = (q, E1, r1)" by (cases "?copy (E, r)") auto
  show ?thesis
  proof (cases q)
    case (Inl err)
    have "pending r1 m" using keepsD [OF pending_reject q assms(2)] .
    moreover from assms(1) q Inl have "ignoring (ac_Nack client d True) (E1, r1) = (u, E', r')"
      by (simp add: rabbit_setAside_def attempt_eval)
    ultimately show ?thesis using keepsD [OF keeps_ignoring [OF pending_requeue]] by blast
  next
    case (Inr v)
    have "held r1 '''' (ErrorQueue queue) (rejected_copy etext m why)"
      using reject_held q Inr True by auto
    moreover from assms(1) q Inr have "ignoring (ac_Ack client d) (E1, r1) = (u, E', r')"
      by (simp add: rabbit_setAside_def attempt_eval)
    ultimately show ?thesis using keepsD [OF keeps_ignoring [OF held_answers(1)]] by blast
  qed
qed

lemma held_handle: "keeps (\<lambda>w. held (snd w) x k m) (rabbit_handle client etext T queue deliver d)"
proof -
  have d: "keeps (\<lambda>w. held (snd w) x k m) (at_consumer (deliver e))" for e
    by (rule keepsI) (auto simp: zoom_parts)
  show ?thesis
    unfolding rabbit_handle_def
    by (auto intro!: wf_intro keeps_at_broker held_setAside held_answers d split: sum.split)
qed

text \<open>Handling a delivery leaves every message pending or settles it.\<close>

lemma handle_settles:
  assumes "publisher deliver handled"
    and "rabbit_handle client etext T queue deliver d (E, c, r) = (u, E', c', r')" "pending r m"
  shows "pending r' m \<or> settled_message held handled etext T queue (c', r') m"
proof (cases "rabbit_envelopeFrom T (dl_Message d)")
  case (Inl err)
  with assms(2) have n: "ignoring (ac_Nack client d False) (E, r) = (u, E', r')"
    by (auto simp: rabbit_handle_def zoom_parts)
  show ?thesis
  proof (cases "m = dl_Message d")
    case True
    with Inl show ?thesis by (simp add: settled_message_def)
  next
    case False
    from keepsD [OF keeps_ignoring [OF pending_drop [OF False]] n assms(3)] show ?thesis by blast
  qed
next
  case (Inr e)
  obtain q E1 c1 where q: "deliver e (E, c) = (q, E1, c1)" by (cases "deliver e (E, c)") auto
  then have q': "at_consumer (deliver e) (E, c, r) = (q, E1, c1, r)" by (simp add: zoom_parts)
  show ?thesis
  proof (cases q)
    case (Inl err)
    show ?thesis
    proof (cases "IsRejected err")
      case True
      with assms(2) q' Inr Inl have "rabbit_setAside client etext queue d err (E1, r) = (u, E', r')" "c' = c1"
        by (auto simp: rabbit_handle_def attempt_eval zoom_parts)
      from setAside_settles [OF this(1) assms(3)] show ?thesis by (auto simp: settled_message_def)
    next
      case False
      with assms(2) q' Inr Inl have "ignoring (ac_Nack client d True) (E1, r) = (u, E', r')"
        by (auto simp: rabbit_handle_def attempt_eval zoom_parts)
      from keepsD [OF keeps_ignoring [OF pending_requeue] this assms(3)] show ?thesis by blast
    qed
  next
    case (Inr v)
    with assms(2) q' \<open>rabbit_envelopeFrom T (dl_Message d) = Inr e\<close>
    have a: "ignoring (ac_Ack client d) (E1, r) = (u, E', r')" "c' = c1"
      by (auto simp: rabbit_handle_def attempt_eval zoom_parts)
    show ?thesis
    proof (cases "m = dl_Message d")
      case True
      have "handled c1 e" using publisher.accepts [OF assms(1)] q Inr by blast
      with True a \<open>rabbit_envelopeFrom T (dl_Message d) = Inr e\<close> show ?thesis by (auto simp: settled_message_def)
    next
      case False
      from keepsD [OF keeps_ignoring [OF pending_ack [OF False]] a(1) assms(3)] show ?thesis by blast
    qed
  qed
qed

lemma handle_handled:
  assumes "publisher deliver handled" "rabbit_handle client etext T queue deliver d (E, c, r) = (u, E', c', r')" "handled c e"
  shows "handled c' e"
proof -
  have d: "keeps (\<lambda>w. handled (fst w) e) (at_consumer (deliver e'))" for e'
    by (rule keepsI) (auto simp: zoom_parts dest: publisher.keeps_accepted [OF assms(1)])
  have b: "keeps (\<lambda>w. handled (fst w) e) (at_broker a)" for a :: "('r, unit) act"
    by (rule keepsI) (auto simp: zoom_parts)
  have "keeps (\<lambda>w. handled (fst w) e) (rabbit_handle client etext T queue deliver d)"
    unfolding rabbit_handle_def by (auto intro!: wf_intro d b split: sum.split)
  from keepsD [OF this assms(2)] assms(3) show ?thesis by simp
qed

end

text \<open>So the consumer satisfies the seam: a message that waits goes on waiting until it is settled.\<close>

context amqp_consumer
begin

lemma iteration_cases:
  assumes "rabbit_iteration client etext T queue deliver cancelled (E, c, r) = (q, E', c', r')"
  shows "(c', r') = (c, r) \<or> (c' = c \<and> r' = snd (ac_Next client r)) \<or>
    (\<exists>d u. rabbit_handle client etext T queue deliver d (E, c, snd (ac_Next client r)) = (u, E', c', r'))"
proof (cases cancelled)
  case False
  have n: "at_broker (receive client) (E, c, r) = (Inr (fst (ac_Next client r)), E, c, snd (ac_Next client r))"
    by (simp add: zoom_parts receive_def)
  show ?thesis
  proof (cases "fst (ac_Next client r)")
    case None
    with assms False n show ?thesis by (simp add: rabbit_iteration_def andthen_eval)
  next
    case (Some d)
    with assms False n
    have a: "andthen (rabbit_handle client etext T queue deliver d) (\<lambda>_. ret Goes_on) (E, c, snd (ac_Next client r)) = (q, E', c', r')"
      by (simp add: rabbit_iteration_def andthen_eval)
    obtain u E1 w1 where "rabbit_handle client etext T queue deliver d (E, c, snd (ac_Next client r)) = (u, E1, w1)"
      by (cases "rabbit_handle client etext T queue deliver d (E, c, snd (ac_Next client r))") auto
    with a show ?thesis by (cases u) (auto simp: andthen_def ret_def)
  qed
qed (use assms in \<open>simp add: rabbit_iteration_def\<close>)

lemma open_pending:
  "at_broker (rabbit_open cfg queue contracts client) (E, w) = (u, E', w') \<Longrightarrow> pending (snd w) m \<Longrightarrow> pending (snd w') m"
  by (auto simp: zoom_parts
      intro: keepsD [OF open_keeps [where P = "\<lambda>r. pending r m", OF pending_connection pending_queues]])

lemma open_held:
  "at_broker (rabbit_open cfg queue contracts client) (E, w) = (u, E', w') \<Longrightarrow> held (snd w) x k m \<Longrightarrow> held (snd w') x k m"
  by (auto simp: zoom_parts
      intro: keepsD [OF open_keeps [where P = "\<lambda>r. held r x k m", OF held_connection held_queues]])

lemma consumer_seam:
  assumes "publisher deliver handled"
  shows "subscriber (rabbit_step client held pending handled cfg etext T queue deliver) (\<lambda>w. pending (snd w))
    (settled_message held handled etext T queue)"
proof
  fix w w' m
  assume s: "rabbit_step client held pending handled cfg etext T queue deliver w w'" and p: "pending (snd w) m"
  obtain c r c' r' where w: "w = (c, r)" "w' = (c', r')" by (cases w, cases w')
  from s show "pending (snd w') m \<or> settled_message held handled etext T queue w' m"
  proof cases
    case (pass cancelled E q E')
    from iteration_cases [OF pass [unfolded w]] p w next_keeps(1) handle_settles [OF assms, where m = m]
    show ?thesis by fastforce
  next
    case (reopen contracts E u E')
    from open_pending [OF reopen p] show ?thesis by simp
  next
    case (elsewhere r r' c c')
    with p show ?thesis by simp
  qed
next
  fix w w' m
  assume s: "rabbit_step client held pending handled cfg etext T queue deliver w w'"
    and d: "settled_message held handled etext T queue w m"
  have m: "settled_message held handled etext T queue w' m"
    if "\<And>e. handled (fst w) e \<Longrightarrow> handled (fst w') e" "\<And>k m. held (snd w) '''' k m \<Longrightarrow> held (snd w') '''' k m"
    using d unfolding settled_message_def by (elim disjE) (blast intro: that)+
  obtain c r c' r' where w: "w = (c, r)" "w' = (c', r')" by (cases w, cases w')
  from s show "settled_message held handled etext T queue w' m"
  proof cases
    case (pass cancelled E q E')
    have "handled c' e" if "handled c e" for e
      using iteration_cases [OF pass [unfolded w]] that handle_handled [OF assms] by blast
    moreover have "held r' '''' k m" if "held r '''' k m" for k m
      using iteration_cases [OF pass [unfolded w]] that next_keeps(2) keepsD [OF held_handle] by fastforce
    ultimately show ?thesis using m w by simp
  next
    case (reopen contracts E u E')
    have "\<And>k m. held (snd w) '''' k m \<Longrightarrow> held (snd w') '''' k m" by (rule open_held [OF reopen])
    moreover have "fst w' = fst w" using reopen w by (auto simp: zoom_parts)
    ultimately show ?thesis using m by simp
  next
    case (elsewhere r r' c c')
    with m show ?thesis by simp
  qed
qed

end

end
