(* ===== verification/Brokers.thy ===== *)
theory Brokers
  imports Kafka_Facts RabbitMQ_Facts Orders_Facts
begin

text \<open>
  Both brokers together: a RabbitMQ broker as lists of messages, which of them a service is configured for
  (\<open>internal/platform/messaging/broker/broker.go\<close>), and what publishing and consuming promise of either.
\<close>

section \<open>A broker of lists\<close>

text \<open>
  What an AMQP broker documents: a topic exchange puts a message into every queue bound with its routing
  key (the event types contain no wildcards), the default exchange into the queue of that name; a time is a
  number of seconds; a header's integer may arrive as another integer type, and what arrived keeps its type
  when it is sent on. The messages stand in a queue as they arrive.
\<close>

definition amqp_wire :: "(amqp_value \<Rightarrow> amqp_value) \<Rightarrow> publishing \<Rightarrow> publishing" where
  "amqp_wire retype m =
     m\<lparr>pb_Timestamp := pb_Timestamp m div 10 ^ 9 * 10 ^ 9, pb_Headers := map_option retype \<circ> pb_Headers m\<rparr>"

definition retype_ok :: "(amqp_value \<Rightarrow> amqp_value) \<Rightarrow> bool" where
  "retype_ok retype \<longleftrightarrow>
     (\<forall>s. retype (VString s) = VString s) \<and> (\<forall>v. retype (retype v) = retype v) \<and>
     (\<forall>i. - (2 ^ 31) \<le> i \<and> i < 2 ^ 31 \<longrightarrow> retype (VInt i) \<in> {VInt i, VInt32 i, VInt64 i})"

record amqp_lists =
  al_Queues :: "string \<Rightarrow> publishing list"
  al_Bindings :: "(string \<times> string \<times> string) list"
  al_Unacked :: "amqp_delivery list"
  al_Taken :: "(string \<times> string \<times> publishing) list"
  al_Closed :: bool

definition route_message :: "(amqp_value \<Rightarrow> amqp_value) \<Rightarrow> string \<Rightarrow> string \<Rightarrow> publishing \<Rightarrow> amqp_lists \<Rightarrow> amqp_lists" where
  "route_message retype x k m r =
     r\<lparr>al_Queues := (\<lambda>q. if (if x = '''' then q = k else (q, k, x) \<in> set (al_Bindings r))
                        then al_Queues r q @ [amqp_wire retype m] else al_Queues r q),
       al_Taken := al_Taken r @ [(x, k, m)]\<rparr>"

definition take_next :: "string \<Rightarrow> amqp_lists \<Rightarrow> amqp_delivery option \<times> amqp_lists" where
  "take_next queue r =
     (case al_Queues r queue of
        [] \<Rightarrow> (None, r)
      | m # ms \<Rightarrow>
          let d = \<lparr>dl_Message = m, dl_Tag = length (al_Unacked r)\<rparr>
          in (Some d, r\<lparr>al_Queues := (al_Queues r)(queue := ms), al_Unacked := al_Unacked r @ [d]\<rparr>))"

definition acknowledge :: "amqp_delivery \<Rightarrow> amqp_lists \<Rightarrow> amqp_lists" where
  "acknowledge d r = r\<lparr>al_Unacked := remove1 d (al_Unacked r)\<rparr>"

definition requeue :: "string \<Rightarrow> amqp_delivery \<Rightarrow> amqp_lists \<Rightarrow> amqp_lists" where
  "requeue queue d r =
     (if d \<in> set (al_Unacked r)
      then r\<lparr>al_Queues := (al_Queues r)(queue := dl_Message d # al_Queues r queue),
             al_Unacked := remove1 d (al_Unacked r)\<rparr>
      else r)"

definition give_back :: "string \<Rightarrow> amqp_lists \<Rightarrow> amqp_lists" where
  "give_back queue r =
     r\<lparr>al_Queues := (al_Queues r)(queue := map dl_Message (al_Unacked r) @ al_Queues r queue), al_Unacked := []\<rparr>"

definition lists_client :: "(amqp_value \<Rightarrow> amqp_value) \<Rightarrow> string \<Rightarrow> amqp_lists amqp_client" where
  "lists_client retype queue =
     \<lparr>ac_Dial = update (\<lambda>t r. r\<lparr>al_Closed := False\<rparr>), ac_Close = update (\<lambda>t. give_back queue),
      ac_Channel = update (\<lambda>t r. r), ac_ExchangeDeclare = (\<lambda>ex. update (\<lambda>t r. r)),
      ac_Confirm = update (\<lambda>t r. r), ac_QueueDeclare = (\<lambda>q. update (\<lambda>t r. r)),
      ac_QueueBind = (\<lambda>q k x. update (\<lambda>t r. r\<lparr>al_Bindings := (q, k, x) # al_Bindings r\<rparr>)),
      ac_Qos = (\<lambda>n. update (\<lambda>t r. r)), ac_Consume = (\<lambda>q. update (\<lambda>t r. r)),
      ac_Publish = (\<lambda>x k m. call (\<lambda>t r. (Inr (length (al_Taken r)), route_message retype x k m r))),
      ac_Wait = (\<lambda>tag. query (\<lambda>r. tag < length (al_Taken r))),
      ac_Ack = (\<lambda>d. update (\<lambda>t. acknowledge d)),
      ac_Nack = (\<lambda>d again. update (\<lambda>t. if again then requeue queue d else acknowledge d)),
      ac_IsClosed = al_Closed, ac_Next = take_next queue\<rparr>"

definition lists_held :: "amqp_lists \<Rightarrow> string \<Rightarrow> string \<Rightarrow> publishing \<Rightarrow> bool" where
  "lists_held r x k m \<longleftrightarrow> (x, k, m) \<in> set (al_Taken r)"

definition lists_pending :: "string \<Rightarrow> amqp_lists \<Rightarrow> publishing \<Rightarrow> bool" where
  "lists_pending queue r m \<longleftrightarrow> m \<in> set (al_Queues r queue) \<or> m \<in> dl_Message ` set (al_Unacked r)"

lemmas lists_ops = acknowledge_def requeue_def give_back_def route_message_def lists_held_def lists_pending_def

lemma acknowledge_pending:
  "lists_pending queue r m \<Longrightarrow> m \<noteq> dl_Message d \<Longrightarrow> lists_pending queue (acknowledge d r) m"
  by (auto simp: lists_pending_def acknowledge_def intro: in_set_remove1 [THEN iffD2, THEN rev_image_eqI])

lemma requeue_pending: "lists_pending queue r m \<Longrightarrow> lists_pending queue (requeue queue d r) m"
  by (auto simp: lists_pending_def requeue_def intro: in_set_remove1 [THEN iffD2, THEN rev_image_eqI])

lemma take_next_keeps:
  "lists_pending queue r m \<Longrightarrow> lists_pending queue (snd (take_next queue r)) m"
  "lists_held r x k m \<Longrightarrow> lists_held (snd (take_next queue r)) x k m"
  by (auto simp: take_next_def lists_ops Let_def split: list.split)

interpretation lists: amqp_consumer "lists_client retype queue" lists_held "lists_pending queue" for retype queue
proof (unfold_locales, goal_cases)
  case (1 x k m E r tag E1 r1 E2 r2)
  then show ?case by (auto simp: lists_client_def lists_held_def route_message_def dest!: call_Inr query_Inr)
next
  case (2 x k m x' k' m')
  then show ?case by (auto simp: lists_client_def lists_held_def route_message_def intro!: wf_intro)
qed (auto simp: lists_client_def intro!: wf_intro acknowledge_pending requeue_pending take_next_keeps,
     auto simp: lists_ops)

section \<open>What is sent is what arrives\<close>

lemma int_retyped:
  assumes "retype_ok retype" "sendable e"
  shows "intHeader (Some (retype (VInt (Version (env_Contract e))))) = Some (Version (env_Contract e))"
    "retype (VString x) = VString x"
  using assms by (auto simp: sendable_def retype_ok_def)

lemma rabbit_reads_what_was_sent:
  assumes "texts_ok T" "sendable e" "retype_ok retype"
  shows "rabbit_envelopeFrom T (amqp_wire retype (rabbit_message T e))
      = Inr (e\<lparr>env_OccurredOnUTC := env_OccurredOnUTC e div 10 ^ 9 * 10 ^ 9\<rparr>)"
  using assms int_retyped [OF assms(3,2)]
  by (simp add: rabbit_envelopeFrom_def rabbit_message_def amqp_wire_def sendable_def texts_okD)

text \<open>A copy that is set aside and read again: the second way over the wire changes nothing.\<close>

lemma rabbit_reads_the_copy:
  assumes "retype_ok retype"
  shows "rabbit_envelopeFrom T (amqp_wire retype (rejected_copy etext (amqp_wire retype m) why))
      = rabbit_envelopeFrom T (amqp_wire retype m)"
    "pb_Headers (amqp_wire retype (rejected_copy etext m why)) ''rejection-reason'' = Some (VString (etext why))"
proof -
  have "map_option retype (map_option retype v) = map_option retype v" for v
    using assms by (simp add: retype_ok_def option.map_comp comp_def)
  then show "rabbit_envelopeFrom T (amqp_wire retype (rejected_copy etext (amqp_wire retype m) why))
      = rabbit_envelopeFrom T (amqp_wire retype m)"
    by (simp add: rabbit_envelopeFrom_def amqp_wire_def rejected_copy_def split: option.split)
  show "pb_Headers (amqp_wire retype (rejected_copy etext m why)) ''rejection-reason'' = Some (VString (etext why))"
    using assms by (simp add: amqp_wire_def rejected_copy_def retype_ok_def)
qed

text \<open>
  C34. What one service sends is what the other reads, over either broker. Over Kafka a publish that answers has
  put a message into the event's topic that is read as the whole envelope, and setting a message aside puts one
  into the topic's rejected topic that is read as the same envelope and ends with the reason. Over RabbitMQ a
  publish that answers is held under the event's routing key and arrives as the envelope with its time cut to
  a second; and the copy of an arrived message that is published to an error queue arrives as that same envelope
  once more, with the reason in a header.
\<close>

theorem brokers_carry_envelopes:
  assumes "texts_ok T" "sendable e" "retype_ok retype"
    and "kafka_cluster kclient parts position committed" "amqp_broker rclient held"
  shows "(kafka_Publish T kc registry kclient e (E, k) = (Inr u, E', k') \<longrightarrow>
       (\<exists>p. \<exists>m \<in> set (parts k' (kafka_Topic kc (EventType (env_Contract e)), p)). kafka_envelopeFrom T m = Inr e)) \<and>
    (kafka_envelopeFrom T m = Inr e \<and> kafka_setAside kclient etext m why (E, k) = (Inr u, E', k') \<longrightarrow>
       (\<exists>p. \<exists>m' \<in> set (parts k' (RejectedTopic (km_Topic m), p)). kafka_envelopeFrom T m' = Inr e \<and>
          last (km_Headers m') = (RejectionReasonHeader, etext why))) \<and>
    (rabbit_Publish T rc registry rclient e (E, s) = (Inr u, E', s') \<longrightarrow>
       (\<exists>m. held (rb_Broker s') (rc_Exchange rc) (EventType (env_Contract e)) m \<and>
          rabbit_envelopeFrom T (amqp_wire retype m)
            = Inr (e\<lparr>env_OccurredOnUTC := env_OccurredOnUTC e div 10 ^ 9 * 10 ^ 9\<rparr>))) \<and>
    (rabbit_envelopeFrom T (amqp_wire retype m2) = Inr e2 \<and>
       publishRejected rclient etext q (amqp_wire retype m2) why (E, r) = (Inr u, E', r') \<longrightarrow>
       (\<exists>m'. held r' '''' q m' \<and> rabbit_envelopeFrom T (amqp_wire retype m') = Inr e2 \<and>
          pb_Headers (amqp_wire retype m') ''rejection-reason'' = Some (VString (etext why))))"
proof (intro conjI impI)
  assume "kafka_Publish T kc registry kclient e (E, k) = (Inr u, E', k')"
  from kafka_cluster.Publish_written [OF assms(4) this] kafka_reads_what_was_sent [OF assms(1,2)]
  show "\<exists>p. \<exists>m \<in> set (parts k' (kafka_Topic kc (EventType (env_Contract e)), p)). kafka_envelopeFrom T m = Inr e"
    by blast
next
  assume "kafka_envelopeFrom T m = Inr e \<and> kafka_setAside kclient etext m why (E, k) = (Inr u, E', k')"
  with kafka_cluster.setAside_written [OF assms(4), where T = T] show "\<exists>p. \<exists>m' \<in> set (parts k' (RejectedTopic (km_Topic m), p)).
      kafka_envelopeFrom T m' = Inr e \<and> last (km_Headers m') = (RejectionReasonHeader, etext why)"
    by (metis (no_types, lifting))
next
  assume "rabbit_Publish T rc registry rclient e (E, s) = (Inr u, E', s')"
  from amqp_broker.Publish_held [OF assms(5) this] rabbit_reads_what_was_sent [OF assms(1-3)]
  show "\<exists>m. held (rb_Broker s') (rc_Exchange rc) (EventType (env_Contract e)) m \<and>
      rabbit_envelopeFrom T (amqp_wire retype m)
        = Inr (e\<lparr>env_OccurredOnUTC := env_OccurredOnUTC e div 10 ^ 9 * 10 ^ 9\<rparr>)"
    by blast
next
  assume "rabbit_envelopeFrom T (amqp_wire retype m2) = Inr e2 \<and>
      publishRejected rclient etext q (amqp_wire retype m2) why (E, r) = (Inr u, E', r')"
  with amqp_broker.reject_held [OF assms(5)] rabbit_reads_the_copy [OF assms(3)]
  show "\<exists>m'. held r' '''' q m' \<and> rabbit_envelopeFrom T (amqp_wire retype m') = Inr e2 \<and>
      pb_Headers (amqp_wire retype m') ''rejection-reason'' = Some (VString (etext why))"
    by metis
qed

definition as_int32 :: "amqp_value \<Rightarrow> amqp_value" where
  "as_int32 v = (case v of VInt i \<Rightarrow> VInt32 i | _ \<Rightarrow> v)"

lemma as_int32_ok: "retype_ok as_int32"
  by (auto simp: retype_ok_def as_int32_def split: amqp_value.split)

definition sample_registry :: registry where
  "sample_registry = [checkout_contract \<mapsto> CheckoutSubmitted checkout_zero]"

definition no_lists :: amqp_lists where
  "no_lists = \<lparr>al_Queues = (\<lambda>q. []), al_Bindings = [], al_Unacked = [], al_Taken = [], al_Closed = False\<rparr>"

text \<open>One message published and set aside over Kafka, and one published over RabbitMQ and rejected.\<close>

theorem brokers_carry_envelopes_witness:
  "\<exists>k1 k2 s r. kafka_Publish sample_texts kafka_sample_config sample_registry sample_kafka (sample_sent 7)
       (sample_env, sample_logs 0 0) = (Inr (), sample_env, k1) \<and>
     kafka_setAside sample_kafka (\<lambda>e. ''no'') (kafka_message_of sample_texts kafka_sample_config (sample_sent 7)) NoRows
       (sample_env, k1) = (Inr (), sample_env, k2) \<and>
     (\<exists>p. \<exists>m' \<in> set (kl_Log k2 (''basket.checkout-submitted.rejected'', p)).
        kafka_envelopeFrom sample_texts m' = Inr (sample_sent 7)) \<and>
     rabbit_Publish sample_texts \<lparr>rc_URL = '''', rc_Exchange = ''x''\<rparr> sample_registry (lists_client as_int32 ''q'')
       (sample_sent 7) (sample_env, \<lparr>rb_Connected = False, rb_Broker = no_lists\<rparr>) = (Inr (), sample_env, s) \<and>
     publishRejected (lists_client as_int32 ''q'') (\<lambda>e. ''no'') ''q.error''
       (amqp_wire as_int32 (rabbit_message sample_texts (sample_sent 7))) NoRows (sample_env, rb_Broker s)
       = (Inr (), sample_env, r) \<and>
     (\<exists>m'. lists_held r '''' ''q.error'' m' \<and>
        rabbit_envelopeFrom sample_texts (amqp_wire as_int32 m') = Inr ((sample_sent 7)\<lparr>env_OccurredOnUTC := 0\<rparr>))"
proof -
  let ?m = "kafka_message_of sample_texts kafka_sample_config (sample_sent 7)"
  let ?c = "lists_client as_int32 ''q''" and ?cfg = "\<lparr>rc_URL = '''', rc_Exchange = ''x''\<rparr>"
  have knows: "Knows sample_registry (env_Contract (sample_sent 7))"
    by (simp add: Knows_def sample_registry_def sample_sent_def)
  obtain k1 where k1: "kafka_Publish sample_texts kafka_sample_config sample_registry sample_kafka (sample_sent 7)
      (sample_env, sample_logs 0 0) = (Inr (), sample_env, k1)"
    by (simp add: kafka_Publish_def knows on_err_def sample_kafka_def log_kafka_def update_ok)
  obtain k2 where k2: "kafka_setAside sample_kafka (\<lambda>e. ''no'') ?m NoRows (sample_env, k1) = (Inr (), sample_env, k2)"
    by (simp add: kafka_setAside_def Let_def on_err_def sample_kafka_def log_kafka_def update_ok)
  obtain s where s: "rabbit_Publish sample_texts ?cfg sample_registry ?c (sample_sent 7)
      (sample_env, \<lparr>rb_Connected = False, rb_Broker = no_lists\<rparr>) = (Inr (), sample_env, s)"
    by (simp add: rabbit_Publish_def knows openChannel_def discardConnection_def andthen_def on_err_def rb_broker_def
        zoom_def rb_set_def or_close_def attempt_def lists_client_def update_ok call_ok query_ok ret_def rabbit_send_def
        rabbit_confirm_def route_message_def no_lists_def)
  obtain r where r: "publishRejected ?c (\<lambda>e. ''no'') ''q.error'' (amqp_wire as_int32 (rabbit_message sample_texts (sample_sent 7)))
      NoRows (sample_env, rb_Broker s) = (Inr (), sample_env, r)"
    by (simp add: publishRejected_def andthen_def on_err_def lists_client_def call_ok query_ok route_message_def ret_def)
  have c: "kafka_cluster sample_kafka kl_Log kl_Position kl_Committed"
    unfolding sample_kafka_def by (rule logs.kafka_cluster_axioms)
  note all = brokers_carry_envelopes [OF sample_texts_ok sample_sent_ok as_int32_ok c lists.amqp_broker_axioms]
  have read: "kafka_envelopeFrom sample_texts ?m = Inr (sample_sent 7)"
    by (rule kafka_reads_what_was_sent [OF sample_texts_ok sample_sent_ok])
  have arrives: "rabbit_envelopeFrom sample_texts (amqp_wire as_int32 (rabbit_message sample_texts (sample_sent 7)))
      = Inr ((sample_sent 7)\<lparr>env_OccurredOnUTC := 0\<rparr>)"
    using rabbit_reads_what_was_sent [OF sample_texts_ok sample_sent_ok as_int32_ok, of 7] by (simp add: sample_sent_def)
  have t: "RejectedTopic (km_Topic ?m) = ''basket.checkout-submitted.rejected''"
    by (simp add: RejectedTopic_def kafka_message_of_def Let_def kafka_Topic_def kafka_sample_config_def sample_sent_def
        checkout_contract_def)
  from all [THEN conjunct2, THEN conjunct1, THEN mp, OF conjI [OF read k2]]
  have 1: "\<exists>p. \<exists>m' \<in> set (kl_Log k2 (''basket.checkout-submitted.rejected'', p)).
      kafka_envelopeFrom sample_texts m' = Inr (sample_sent 7)" unfolding t by blast
  from all [THEN conjunct2, THEN conjunct2, THEN conjunct2, THEN mp, OF conjI [OF arrives r]]
  have 2: "\<exists>m'. lists_held r '''' ''q.error'' m' \<and>
      rabbit_envelopeFrom sample_texts (amqp_wire as_int32 m') = Inr ((sample_sent 7)\<lparr>env_OccurredOnUTC := 0\<rparr>)" by blast
  show ?thesis using k1 k2 s r 1 2 by blast
qed

section \<open>The checkouts of the Ordering service\<close>

lemma checkout_leaves_inbox: "keeps_inbox_records (checkout_Handle T (mssql_repo S (Mapper T f c)))"
proof -
  have "keeps (\<lambda>db. InboxMessages db = M) (Place S (Mapper T f c) o' cu ps)" for M o' cu ps
    by (rule keepsI) (auto dest!: Place_cases(1) [OF quiet_Mapper] simp: placed_def saved_def)
  moreover have "keeps P (orderFrom ev)" for P ev
    by (intro quiet_keeps stateless_quiet stateless_intro)
  ultimately have k: "keeps (\<lambda>db. InboxMessages db = M) (checkout_Handle T (mssql_repo S (Mapper T f c)) e)" for M e
    unfolding checkout_Handle_def mssql_repo_def
    by (auto intro!: wf_intro split: sum.split prod.split)
  show ?thesis
    unfolding keeps_inbox_records_def
  proof (intro allI impI)
    fix e E s r E' s'
    assume h: "checkout_Handle T (mssql_repo S (Mapper T f c)) e (E, s) = (r, E', s')"
    show "InboxMessages s' = InboxMessages s" by (rule keepsD [OF k h refl])
  qed
qed

lemma checkout_handled:
  "publisher (checkout_delivery T S (Mapper T f c)) (\<lambda>db e. inbox_finished db (env_ID e) consumerName)"
proof (unfold_locales, goal_cases)
  case (1 e E b u E' b')
  from mssql.delivered_finishes [OF leaves_inbox [OF checkout_leaves_inbox] 1 [unfolded checkout_delivery_def]]
  show ?case .
next
  case (2 e E b r E' b' e')
  from mssql.finished_stays [OF leaves_inbox [OF checkout_leaves_inbox] 2(2) 2(1) [unfolded checkout_delivery_def]]
  show ?case .
qed

abbreviation checkout_step ::
  "'r amqp_client \<Rightarrow> ('r \<Rightarrow> string \<Rightarrow> string \<Rightarrow> publishing \<Rightarrow> bool) \<Rightarrow> ('r \<Rightarrow> publishing \<Rightarrow> bool) \<Rightarrow> rabbit_config
     \<Rightarrow> (go_error \<Rightarrow> string) \<Rightarrow> texts \<Rightarrow> sqlserver \<Rightarrow> event_mapper \<Rightarrow> ordering_db \<times> 'r \<Rightarrow> ordering_db \<times> 'r \<Rightarrow> bool" where
  "checkout_step client held pending cfg etext T S m \<equiv>
     rabbit_step client held pending (\<lambda>db e. inbox_finished db (env_ID e) consumerName) cfg etext T consumerName
       (checkout_delivery T S m)"

text \<open>The subscription of the Ordering service on the broker of lists.\<close>

interpretation checkouts: subscriber
  "checkout_step (lists_client retype consumerName) lists_held (lists_pending consumerName) cfg etext T S (Mapper T f c)"
  "\<lambda>w. lists_pending consumerName (snd w)"
  "settled_message lists_held (\<lambda>db e. inbox_finished db (env_ID e) consumerName) etext T consumerName"
  for retype cfg etext T S f c
  by (rule lists.consumer_seam [OF checkout_handled])

text \<open>
  C32. Over RabbitMQ the Ordering service leaves no checkout behind: whatever fails on the way, a message
  that is in its queue stays there, or its envelope was recorded in the inbox as handled, or it was given up
  with a copy in the error queue, or it cannot be read at all.
\<close>

theorem no_checkout_left_behind:
  assumes "amqp_consumer client held pending"
    and "(checkout_step client held pending cfg etext T S (Mapper T f c))\<^sup>*\<^sup>* w w'"
    and "pending (snd w) m"
  shows "pending (snd w') m \<or> (\<exists>err. rabbit_envelopeFrom T m = Inl err) \<or>
    (\<exists>e. rabbit_envelopeFrom T m = Inr e \<and> inbox_finished (fst w') (env_ID e) consumerName) \<or>
    (\<exists>why. held (snd w') '''' (ErrorQueue consumerName) (rejected_copy etext m why))"
  using subscriber.never_dropped [OF amqp_consumer.consumer_seam [OF assms(1) checkout_handled] assms(2,3)]
  by (simp add: settled_message_def)

text \<open>A checkout with an empty payload: the handler rejects it, and it is moved to the error queue.\<close>

definition malformed :: publishing where
  "malformed = amqp_wire as_int32 (rabbit_message sample_texts (sample_sent 7))"

definition waiting_lists :: amqp_lists where
  "waiting_lists = \<lparr>al_Queues = (\<lambda>q. []) (consumerName := [malformed]), al_Bindings = [], al_Unacked = [],
     al_Taken = [], al_Closed = False\<rparr>"

abbreviation sample_pass :: "(ordering_db \<times> amqp_lists, loop_step) act" where
  "sample_pass \<equiv> rabbit_iteration (lists_client as_int32 consumerName) (\<lambda>e. ''no'') sample_texts consumerName
     (checkout_delivery sample_texts sample_sql (Mapper sample_texts False '''')) False"

definition moved_lists :: amqp_lists where
  "moved_lists = (let copy = rejected_copy (\<lambda>e. ''no'') malformed NoRows in
     waiting_lists\<lparr>al_Queues := (\<lambda>q. []) (ErrorQueue consumerName := [amqp_wire as_int32 copy]),
       al_Taken := [('''', ErrorQueue consumerName, copy)]\<rparr>)"

lemma malformed_read: "rabbit_envelopeFrom sample_texts malformed = Inr ((sample_sent 7)\<lparr>env_OccurredOnUTC := 0\<rparr>)"
  unfolding malformed_def
  using sample_texts_ok
  by (simp add: rabbit_envelopeFrom_def rabbit_message_def amqp_wire_def texts_okD as_int32_def sample_sent_def
      checkout_contract_def)

lemma malformed_rejected:
  "\<exists>err db. checkout_delivery sample_texts sample_sql (Mapper sample_texts False '''')
     ((sample_sent 7)\<lparr>env_OccurredOnUTC := 0\<rparr>) (sample_env, ordering_db_empty) = (Inl (Rejection err), sample_env, db)"
  by (simp add: checkout_delivery_def Idempotent_def mssql_inbox_def andthen_def Begin_def call_ok on_err_def
      inbox_insert_stmt_def ordering_db_empty_def byte_in_def consumerName_def sample_sent_def checkout_Handle_def
      UnmarshalAs_def)

lemma moving: 
  "\<exists>db. sample_pass (sample_env, ordering_db_empty, waiting_lists) = (Inr Goes_on, sample_env, db, moved_lists)"
proof -
  let ?C = "lists_client as_int32 consumerName"
  let ?d = "\<lparr>dl_Message = malformed, dl_Tag = 0\<rparr>"
  define r where "r = waiting_lists\<lparr>al_Queues := (al_Queues waiting_lists)(consumerName := []), al_Unacked := [?d]\<rparr>"
  let ?e = "(sample_sent 7)\<lparr>env_OccurredOnUTC := 0\<rparr>"
  let ?deliver = "checkout_delivery sample_texts sample_sql (Mapper sample_texts False '''')"
  obtain err db where d: "?deliver ?e (sample_env, ordering_db_empty) = (Inl (Rejection err), sample_env, db)"
    using malformed_rejected by blast
  have n: "at_broker (receive ?C) (sample_env, ordering_db_empty, waiting_lists) = (Inr (Some ?d), sample_env, ordering_db_empty, r)"
    by (simp add: zoom_parts receive_def lists_client_def take_next_def waiting_lists_def Let_def r_def)
  have v: "at_consumer (?deliver ?e) (sample_env, ordering_db_empty, r) = (Inl (Rejection err), sample_env, db, r)"
    using d by (simp add: zoom_parts)
  have s: "at_broker (rabbit_setAside ?C (\<lambda>e. ''no'') consumerName ?d (Rejection err)) (sample_env, db, r)
      = (Inr (), sample_env, db, moved_lists)"
    by (simp add: zoom_parts rabbit_setAside_def publishRejected_def attempt_eval andthen_def attempt_def on_err_def
        r_def lists_client_def call_ok query_ok update_ok route_message_def acknowledge_def ignoring_def moved_lists_def Let_def
        waiting_lists_def ret_def rejected_copy_def fun_upd_def)
      (auto simp: fun_eq_iff ErrorQueue_def consumerName_def)
  show ?thesis
    by (simp add: rabbit_iteration_def andthen_eval n rabbit_handle_def malformed_read attempt_eval v s ret_def)
qed

theorem no_checkout_left_behind_witness:
  "malformed \<in> set (al_Queues waiting_lists consumerName) \<and>
   (\<exists>db. sample_pass (sample_env, ordering_db_empty, waiting_lists) = (Inr Goes_on, sample_env, db, moved_lists)) \<and>
   al_Queues moved_lists consumerName = [] \<and> length (al_Queues moved_lists (ErrorQueue consumerName)) = 1"
proof -
  obtain db where p: "sample_pass (sample_env, ordering_db_empty, waiting_lists) = (Inr Goes_on, sample_env, db, moved_lists)"
    using moving by blast
  let ?step = "checkout_step (lists_client as_int32 consumerName) lists_held (lists_pending consumerName)
    \<lparr>rc_URL = '''', rc_Exchange = ''''\<rparr> (\<lambda>e. ''no'') sample_texts sample_sql (Mapper sample_texts False '''')"
  have s: "?step\<^sup>*\<^sup>* (ordering_db_empty, waiting_lists) (db, moved_lists)"
    using rabbit_step.pass [OF p] by (rule r_into_rtranclp)
  have "lists_pending consumerName waiting_lists malformed"
    by (simp add: lists_pending_def waiting_lists_def)
  from no_checkout_left_behind [OF lists.amqp_consumer_axioms s] this
  show ?thesis using p by (simp add: waiting_lists_def moved_lists_def Let_def ErrorQueue_def consumerName_def)
qed

end
