(* ===== verification/Broker_Config.thy ===== *)
theory Broker_Config
  imports Kafka RabbitMQ
begin

text \<open>
  Which broker a service talks to: \<open>internal/platform/messaging/broker/broker.go\<close>. The environment and
  \<open>time.ParseDuration\<close> are parameters.
\<close>

section \<open>Reading the settings\<close>

definition ProviderRabbitMQ :: string where "ProviderRabbitMQ = ''rabbitmq''"
definition ProviderKafka :: string where "ProviderKafka = ''kafka''"

record broker_config =
  bc_Provider :: string
  bc_RabbitMQ :: rabbit_config
  bc_Kafka :: kafka_config

text \<open>
  \<open>strings.ToLower\<close> as far as it matters here: letters of ASCII, and the Kelvin sign, whose lower case is a
  \<open>k\<close>. No other letter becomes one of ASCII.
\<close>

fun ToLower :: "string \<Rightarrow> string" where
  "ToLower [] = []"
| "ToLower (c # cs) =
     (if c = CHR 0xE2 \<and> take 2 cs = [CHR 0x84, CHR 0xAA] then CHR ''k'' # ToLower (drop 2 cs)
      else if byte_in 65 90 c then char_of (of_char c + (32 :: nat)) # ToLower cs
      else c # ToLower cs)"

text \<open>\<open>strings.Split\<close> at a comma.\<close>

fun split_commas :: "string \<Rightarrow> string list" where
  "split_commas [] = [[]]"
| "split_commas (c # cs) =
     (if c = CHR '','' then [] # split_commas cs
      else (case split_commas cs of [] \<Rightarrow> [[c]] | p # ps \<Rightarrow> (c # p) # ps))"

definition splitBrokers :: "string \<Rightarrow> string list" where
  "splitBrokers raw = filter (\<lambda>a. a \<noteq> '''') (map TrimSpace (split_commas raw))"

definition unknownProvider :: "string \<Rightarrow> go_error" where
  "unknownProvider provider =
     Plain (Fmt ''unknown message broker provider %q; supported values are %q and %q''
       [ArgStr provider, ArgStr ProviderRabbitMQ, ArgStr ProviderKafka])"

definition broker_validate :: "broker_config \<Rightarrow> go_error + unit" where
  "broker_validate c =
     (if bc_Provider c = ProviderRabbitMQ then
        (if rc_URL (bc_RabbitMQ c) = ''''
         then Inl (Plain (Fmt ''MESSAGE_BROKER_RABBITMQ_URL is required when the provider is rabbitmq'' []))
         else Inr ())
      else if bc_Provider c = ProviderKafka then
        (if length (kf_Brokers (bc_Kafka c)) = 0
         then Inl (Plain (Fmt ''MESSAGE_BROKER_KAFKA_BROKERS is required when the provider is kafka'' []))
         else Inr ())
      else Inl (unknownProvider (bc_Provider c)))"

definition broker_ConfigFromEnv ::
  "(string \<Rightarrow> string) \<Rightarrow> (string \<Rightarrow> duration option) \<Rightarrow> go_error + broker_config" where
  "broker_ConfigFromEnv getenv parse =
     (let provider = ToLower (TrimSpace (getenv ''MESSAGE_BROKER_PROVIDER''));
          provider = (if provider = '''' then ProviderRabbitMQ else provider);
          config =
            \<lparr>bc_Provider = provider,
             bc_RabbitMQ = \<lparr>rc_URL = getenv ''MESSAGE_BROKER_RABBITMQ_URL'',
                            rc_Exchange = getenv ''MESSAGE_BROKER_RABBITMQ_EXCHANGE''\<rparr>,
             bc_Kafka = \<lparr>kf_Brokers = splitBrokers (getenv ''MESSAGE_BROKER_KAFKA_BROKERS''),
                         kf_TopicPrefix = getenv ''MESSAGE_BROKER_KAFKA_TOPIC_PREFIX'', kf_WriteTimeout = 0\<rparr>\<rparr>;
          raw = getenv ''MESSAGE_BROKER_KAFKA_WRITE_TIMEOUT'' in
      try_res
        (if raw = '''' then Inr config
         else (case parse raw of
                 None \<Rightarrow> Inl (Plain (Fmt ''MESSAGE_BROKER_KAFKA_WRITE_TIMEOUT is not a duration'' []))
               | Some timeout \<Rightarrow> Inr (config\<lparr>bc_Kafka := (bc_Kafka config)\<lparr>kf_WriteTimeout := timeout\<rparr>\<rparr>)))
        (\<lambda>config. try_res (broker_validate config) (\<lambda>_. Inr config)))"

section \<open>Building a publisher or a subscriber\<close>

text \<open>The publisher that is built, as the configuration it is built with.\<close>

datatype publisher_of = RabbitPublisher rabbit_config | KafkaPublisher kafka_config

definition broker_New :: "broker_config \<Rightarrow> go_error + publisher_of" where
  "broker_New c =
     try_res (broker_validate c) (\<lambda>_.
     if bc_Provider c = ProviderRabbitMQ then Inr (RabbitPublisher (rabbit_New (bc_RabbitMQ c)))
     else if bc_Provider c = ProviderKafka then Inr (KafkaPublisher (kafka_New (bc_Kafka c)))
     else Inl (unknownProvider (bc_Provider c)))"

text \<open>A subscriber: its configuration, its queue or group, and the contracts it reads.\<close>

datatype subscriber_of =
    RabbitSubscriber rabbit_config string "contract list"
  | KafkaSubscriber kafka_config string "contract list"

definition NewSubscriber :: "broker_config \<Rightarrow> string \<Rightarrow> contract list \<Rightarrow> go_error + subscriber_of" where
  "NewSubscriber c consumer contracts =
     try_res (broker_validate c) (\<lambda>_.
     if consumer = '''' then Inl (Plain (Fmt ''a subscriber needs a consumer name'' []))
     else if length contracts = 0 then
       Inl (Plain (Fmt ''a subscriber needs at least one contract to subscribe to'' []))
     else if bc_Provider c = ProviderRabbitMQ then
       Inr (RabbitSubscriber (rabbit_New (bc_RabbitMQ c)) consumer contracts)
     else if bc_Provider c = ProviderKafka then Inr (KafkaSubscriber (bc_Kafka c) consumer contracts)
     else Inl (unknownProvider (bc_Provider c)))"

text \<open>
  Settings that are read are settings that work: neither the publisher nor a subscriber with a name and a
  contract is refused later, and neither is built on an empty address or an unnamed exchange.
\<close>

lemma read_settings_work:
  assumes "broker_ConfigFromEnv getenv parse = Inr c" "consumer \<noteq> ''''" "contracts \<noteq> []"
  shows "\<exists>p s. broker_New c = Inr p \<and> NewSubscriber c consumer contracts = Inr s \<and>
    (case p of RabbitPublisher r \<Rightarrow> rc_URL r \<noteq> '''' \<and> rc_Exchange r \<noteq> ''''
             | KafkaPublisher k \<Rightarrow> kf_Brokers k \<noteq> [] \<and> '''' \<notin> set (kf_Brokers k) \<and> kf_WriteTimeout k > 0)"
proof -
  have v: "broker_validate c = Inr ()" and b: "'''' \<notin> set (kf_Brokers (bc_Kafka c))"
    using assms(1) by (auto simp: broker_ConfigFromEnv_def Let_def try_res_Inr splitBrokers_def
        split: if_splits option.splits)
  show ?thesis
    using v b assms(2,3)
    by (auto simp: broker_New_def NewSubscriber_def broker_validate_def rabbit_New_def kafka_New_def
        DefaultExchange_def split: if_splits)
qed

lemma kelvin_kafka: "ToLower [CHR 0xE2, CHR 0x84, CHR 0xAA, CHR ''A'', CHR ''f'', CHR ''k'', CHR ''a''] = ProviderKafka"
  by code_simp

end
