(* ===== verification/Discount.thy ===== *)
theory Discount
  imports Basket_Carts "HOL-Library.Sublist"
begin

text \<open>
  The Discount service: \<open>internal/discount/coupons/coupon.go\<close>, the repository of
  \<open>internal/discount/sqlite\<close> (\<open>repository.go\<close>, \<open>seed.go\<close> and the migration), the server of
  \<open>internal/discount/grpcserver/server.go\<close>, and the client that the Basket service looks discounts up
  with, \<open>internal/basket/discountclient/client.go\<close>. Log lines and the generated stubs are not modelled.
\<close>

section \<open>Coupons\<close>

record coupon =
  co_ID :: "32 word"
  co_ProductName :: string
  co_Description :: string
  co_Amount :: "32 word"

definition NoDiscount :: coupon where
  "NoDiscount =
     \<lparr>co_ID = 0, co_ProductName = ''No Discount'', co_Description = ''No Discount Desc'', co_Amount = 0\<rparr>"

record 's coupon_repo =
  cr_ByProductName :: "string \<Rightarrow> ('s, coupon) act"
  cr_Create :: "coupon \<Rightarrow> ('s, coupon) act"
  cr_Update :: "coupon \<Rightarrow> ('s, coupon) act"
  cr_Delete :: "string \<Rightarrow> ('s, unit) act"

section \<open>The table\<close>

text \<open>
  Integers of SQLite are kept as they are; \<open>coupon_seq\<close> is the last id that \<open>AUTOINCREMENT\<close> has given.
\<close>

record coupon_row =
  dr_Id :: int
  dr_ProductName :: string
  dr_Description :: string
  dr_Amount :: int

record discount_db =
  Coupons :: "coupon_row list"
  coupon_seq :: int

definition discount_db_empty :: discount_db where
  "discount_db_empty = \<lparr>Coupons = [], coupon_seq = 0\<rparr>"

definition find_coupon :: "string \<Rightarrow> discount_db \<Rightarrow> coupon_row option" where
  "find_coupon name db = find (\<lambda>r. dr_ProductName r = name) (Coupons db)"

text \<open>\<open>Scan\<close> into an \<open>int32\<close> refuses a value that does not fit.\<close>

definition scan_int32 :: "int \<Rightarrow> go_error + 32 word" where
  "scan_int32 i =
     (if - (2 ^ 31) \<le> i \<and> i < 2 ^ 31 then Inr (word_of_int i)
      else Inl (Plain (Fmt ''converting driver.Value type int64 to a int32: value out of range'' [])))"

definition scan_coupon :: "coupon_row \<Rightarrow> go_error + coupon" where
  "scan_coupon r =
     try_res (scan_int32 (dr_Id r)) (\<lambda>i.
     try_res (scan_int32 (dr_Amount r)) (\<lambda>a.
     Inr \<lparr>co_ID = i, co_ProductName = dr_ProductName r, co_Description = dr_Description r, co_Amount = a\<rparr>))"

definition by_name_stmt :: "string \<Rightarrow> time \<Rightarrow> discount_db \<Rightarrow> (go_error + coupon) \<times> discount_db" where
  "by_name_stmt name t db =
     ((case find_coupon name db of None \<Rightarrow> Inl NoRows | Some r \<Rightarrow> scan_coupon r), db)"

definition coupon_exists_error :: go_error where
  "coupon_exists_error =
     Plain (Fmt ''constraint failed: UNIQUE constraint failed: coupons.product_name (2067)'' [])"

definition create_coupon_stmt :: "coupon \<Rightarrow> time \<Rightarrow> discount_db \<Rightarrow> (go_error + 32 word) \<times> discount_db" where
  "create_coupon_stmt c t db =
     (case find_coupon (co_ProductName c) db of
        Some r \<Rightarrow> (Inl coupon_exists_error, db)
      | None \<Rightarrow>
          let i = coupon_seq db + 1 in
          (scan_int32 i,
           db\<lparr>Coupons := Coupons db @ [\<lparr>dr_Id = i, dr_ProductName = co_ProductName c,
                  dr_Description = co_Description c, dr_Amount = sint (co_Amount c)\<rparr>],
              coupon_seq := i\<rparr>))"

definition update_coupon_stmt :: "coupon \<Rightarrow> time \<Rightarrow> discount_db \<Rightarrow> (go_error + 32 word) \<times> discount_db" where
  "update_coupon_stmt c t db =
     (case find_coupon (co_ProductName c) db of
        None \<Rightarrow> (Inl NoRows, db)
      | Some r \<Rightarrow>
          (scan_int32 (dr_Id r),
           db\<lparr>Coupons := map (\<lambda>r. if dr_ProductName r = co_ProductName c
                then r\<lparr>dr_Description := co_Description c, dr_Amount := sint (co_Amount c)\<rparr> else r) (Coupons db)\<rparr>))"

text \<open>The answer is the number of rows that were removed.\<close>

definition delete_coupon_stmt :: "string \<Rightarrow> time \<Rightarrow> discount_db \<Rightarrow> (go_error + nat) \<times> discount_db" where
  "delete_coupon_stmt name t db =
     (Inr (length (filter (\<lambda>r. dr_ProductName r = name) (Coupons db))),
      db\<lparr>Coupons := filter (\<lambda>r. dr_ProductName r \<noteq> name) (Coupons db)\<rparr>)"

section \<open>The repository\<close>

fun isUniqueViolation :: "go_error \<Rightarrow> bool" where
  "isUniqueViolation (Plain (Fmt s args)) \<longleftrightarrow> sublist ''UNIQUE constraint failed'' s"
| "isUniqueViolation _ \<longleftrightarrow> False"

definition sqlite_ByProductName :: "string \<Rightarrow> (discount_db, coupon) act" where
  "sqlite_ByProductName name =
     andthen (attempt (call (by_name_stmt name))) (\<lambda>r.
     case r of
       Inr c \<Rightarrow> ret c
     | Inl err \<Rightarrow>
         if err = NoRows then fail (NotFound ''Coupon'' (ArgStr name))
         else fail (Wrapped (Fmt ''loading coupon for %q'' [ArgStr name]) err))"

definition sqlite_Create :: "coupon \<Rightarrow> (discount_db, coupon) act" where
  "sqlite_Create c =
     andthen (attempt (call (create_coupon_stmt c))) (\<lambda>r.
     case r of
       Inr i \<Rightarrow> ret (c\<lparr>co_ID := i\<rparr>)
     | Inl err \<Rightarrow>
         if isUniqueViolation err
         then fail (Conflict (Fmt ''a coupon for %q already exists'' [ArgStr (co_ProductName c)]))
         else fail (Wrapped (Fmt ''creating coupon for %q'' [ArgStr (co_ProductName c)]) err))"

definition sqlite_Update :: "coupon \<Rightarrow> (discount_db, coupon) act" where
  "sqlite_Update c =
     andthen (attempt (call (update_coupon_stmt c))) (\<lambda>r.
     case r of
       Inr i \<Rightarrow> ret (c\<lparr>co_ID := i\<rparr>)
     | Inl err \<Rightarrow>
         if err = NoRows then fail (NotFound ''Coupon'' (ArgStr (co_ProductName c)))
         else fail (Wrapped (Fmt ''updating coupon for %q'' [ArgStr (co_ProductName c)]) err))"

definition sqlite_Delete :: "string \<Rightarrow> (discount_db, unit) act" where
  "sqlite_Delete name =
     andthen (on_err (Wrapped (Fmt ''deleting coupon for %q'' [ArgStr name])) (call (delete_coupon_stmt name))) (\<lambda>n.
     if n = 0 then fail (NotFound ''Coupon'' (ArgStr name)) else ret ())"

definition sqlite_coupons :: "discount_db coupon_repo" where
  "sqlite_coupons =
     \<lparr>cr_ByProductName = sqlite_ByProductName, cr_Create = sqlite_Create, cr_Update = sqlite_Update,
      cr_Delete = sqlite_Delete\<rparr>"

section \<open>Start-up data\<close>

definition sampleCoupons :: "coupon list" where
  "sampleCoupons =
     [\<lparr>co_ID = 0, co_ProductName = ''iPhone X'', co_Description = ''iPhone discount'', co_Amount = 150\<rparr>,
      \<lparr>co_ID = 0, co_ProductName = ''Samsung 10'', co_Description = ''Samsung discount'', co_Amount = 100\<rparr>]"

definition discount_Seed :: "(discount_db, nat) act" where
  "discount_Seed =
     andthen (on_err (Wrapped (Fmt ''counting coupons before seeding'' [])) (query (\<lambda>db. length (Coupons db)))) (\<lambda>existing.
     if existing > 0 then ret 0
     else
       andthen (for_each (\<lambda>c.
         on_err (Wrapped (Fmt ''seeding coupon for %q'' [ArgStr (co_ProductName c)]))
           (andthen (sqlite_Create c) (\<lambda>_. ret ()))) sampleCoupons) (\<lambda>_.
       ret (length sampleCoupons)))"

section \<open>The server\<close>

text \<open>A message of the contract; \<open>cm_Desciption\<close> is spelled as there.\<close>

record coupon_model =
  cm_Id :: "32 word"
  cm_ProductName :: string
  cm_Desciption :: string
  cm_Amount :: "32 word"

datatype grpc_code = CodeInternal | CodeNotFound | CodeAlreadyExists | CodeInvalidArgument

type_synonym grpc_status = "grpc_code \<times> msg"

definition toModel :: "coupon \<Rightarrow> coupon_model" where
  "toModel c =
     \<lparr>cm_Id = co_ID c, cm_ProductName = co_ProductName c, cm_Desciption = co_Description c, cm_Amount = co_Amount c\<rparr>"

text \<open>\<open>None\<close> is the \<open>nil\<close> message.\<close>

definition fromModel :: "coupon_model option \<Rightarrow> grpc_status + coupon" where
  "fromModel model =
     (case model of
        None \<Rightarrow> Inl (CodeInvalidArgument, Fmt ''coupon is required'' [])
      | Some m \<Rightarrow>
          if cm_ProductName m = '''' then Inl (CodeInvalidArgument, Fmt ''productName is required'' [])
          else Inr \<lparr>co_ID = cm_Id m, co_ProductName = cm_ProductName m, co_Description = cm_Desciption m,
                    co_Amount = cm_Amount m\<rparr>)"

definition server_fail :: "go_error \<Rightarrow> grpc_status" where
  "server_fail err =
     (case As_AppError err of
        Some (AppError k m fs c) \<Rightarrow>
          (case k of
             KindNotFound \<Rightarrow> (CodeNotFound, m)
           | KindConflict \<Rightarrow> (CodeAlreadyExists, m)
           | KindBadRequest \<Rightarrow> (CodeInvalidArgument, m)
           | KindValidation \<Rightarrow> (CodeInvalidArgument, m)
           | KindInternal \<Rightarrow> (CodeInternal, Fmt ''internal error'' []))
      | _ \<Rightarrow> (CodeInternal, Fmt ''internal error'' []))"

definition GetDiscount :: "'s coupon_repo \<Rightarrow> string \<Rightarrow> ('s, grpc_status + coupon_model) act" where
  "GetDiscount repo name =
     andthen (attempt (cr_ByProductName repo name)) (\<lambda>r.
     case r of
       Inr c \<Rightarrow> ret (Inr (toModel c))
     | Inl err \<Rightarrow>
         if KindOf err = KindNotFound then ret (Inr (toModel NoDiscount)) else ret (Inl (server_fail err)))"

definition CreateDiscount :: "'s coupon_repo \<Rightarrow> coupon_model option \<Rightarrow> ('s, grpc_status + coupon_model) act" where
  "CreateDiscount repo model =
     (case fromModel model of
        Inl st \<Rightarrow> ret (Inl st)
      | Inr c \<Rightarrow>
          andthen (attempt (cr_Create repo c)) (\<lambda>r.
          case r of Inr created \<Rightarrow> ret (Inr (toModel created)) | Inl err \<Rightarrow> ret (Inl (server_fail err))))"

definition UpdateDiscount :: "'s coupon_repo \<Rightarrow> coupon_model option \<Rightarrow> ('s, grpc_status + coupon_model) act" where
  "UpdateDiscount repo model =
     (case fromModel model of
        Inl st \<Rightarrow> ret (Inl st)
      | Inr c \<Rightarrow>
          andthen (attempt (cr_Update repo c)) (\<lambda>r.
          case r of Inr updated \<Rightarrow> ret (Inr (toModel updated)) | Inl err \<Rightarrow> ret (Inl (server_fail err))))"

text \<open>The answer is the text of \<open>Success\<close>.\<close>

definition DeleteDiscount :: "'s coupon_repo \<Rightarrow> string \<Rightarrow> ('s, grpc_status + string) act" where
  "DeleteDiscount repo name =
     andthen (attempt (cr_Delete repo name)) (\<lambda>r.
     case r of Inr u \<Rightarrow> ret (Inr ''true'') | Inl err \<Rightarrow> ret (Inl (server_fail err)))"

section \<open>The client\<close>

text \<open>
  A call over the connection: it can fail on the way there or back, and a status that is not OK is an
  error with its message.
\<close>

definition grpc_call :: "('s, grpc_status + 'a) act \<Rightarrow> ('s, 'a) act" where
  "grpc_call server =
     andthen (query (\<lambda>s. ())) (\<lambda>_.
     andthen server (\<lambda>r.
     case r of Inl (code, m) \<Rightarrow> fail (Plain m) | Inr x \<Rightarrow> ret x))"

definition AmountFor :: "(string \<Rightarrow> ('s, coupon_model) act) \<Rightarrow> 's discount_lookup" where
  "AmountFor rpc name =
     andthen (on_err (Wrapped (Fmt ''looking up discount for %q'' [ArgStr name])) (rpc name)) (\<lambda>m.
     ret (cm_Amount m))"

end
