(* ===== verification/Discount_Facts.thy ===== *)
theory Discount_Facts
  imports Discount
begin

text \<open>
  Facts about the Discount service: its table is well formed, its operations are those of a map from
  product names to coupons, and a basket's lines get the amounts of that map.
\<close>

section \<open>The table\<close>

definition int32 :: "int \<Rightarrow> bool" where
  "int32 i \<longleftrightarrow> - (2 ^ 31) \<le> i \<and> i < 2 ^ 31"

definition coupons_ok :: "discount_db \<Rightarrow> bool" where
  "coupons_ok db \<longleftrightarrow>
     distinct (map dr_ProductName (Coupons db)) \<and> distinct (map dr_Id (Coupons db)) \<and> 0 \<le> coupon_seq db \<and>
     (\<forall>r \<in> set (Coupons db). dr_ProductName r \<noteq> '''' \<and> 0 < dr_Id r \<and> dr_Id r \<le> coupon_seq db \<and> int32 (dr_Amount r))"

lemma int32_sint: "int32 (sint (a :: 32 word))"
  using sint_greater_eq [of a] sint_less [of a] by (simp add: int32_def)

lemma find_coupon_None: "find_coupon n db = None \<longleftrightarrow> n \<notin> dr_ProductName ` set (Coupons db)"
  by (auto simp: find_coupon_def find_None_iff)

lemma find_coupon_Some: "find_coupon n db = Some r \<Longrightarrow> r \<in> set (Coupons db) \<and> dr_ProductName r = n"
  by (auto simp: find_coupon_def find_Some_iff)

lemma create_keeps_table:
  assumes "coupons_ok db" "co_ProductName c \<noteq> ''''"
  shows "coupons_ok (snd (create_coupon_stmt c t db))"
proof (cases "find_coupon (co_ProductName c) db")
  case None
  then have "co_ProductName c \<notin> dr_ProductName ` set (Coupons db)" by (simp add: find_coupon_None)
  moreover have "coupon_seq db + 1 \<notin> dr_Id ` set (Coupons db)" using assms(1) by (force simp: coupons_ok_def)
  ultimately show ?thesis
    using assms None int32_sint [of "co_Amount c"]
    by (auto simp: create_coupon_stmt_def coupons_ok_def Let_def)
qed (use assms in \<open>simp add: create_coupon_stmt_def\<close>)

lemma update_keeps_table:
  assumes "coupons_ok db"
  shows "coupons_ok (snd (update_coupon_stmt c t db))"
proof -
  define f :: "coupon_row \<Rightarrow> coupon_row" where "f = (\<lambda>r. if dr_ProductName r = co_ProductName c
    then r\<lparr>dr_Description := co_Description c, dr_Amount := sint (co_Amount c)\<rparr> else r)"
  have f: "dr_ProductName (f r) = dr_ProductName r" "dr_Id (f r) = dr_Id r"
    "int32 (dr_Amount r) \<Longrightarrow> int32 (dr_Amount (f r))" for r
    by (simp_all add: f_def int32_sint)
  have "snd (update_coupon_stmt c t db) \<in> {db, db\<lparr>Coupons := map f (Coupons db)\<rparr>}"
    by (simp add: update_coupon_stmt_def f_def split: option.split)
  with assms show ?thesis by (auto simp: coupons_ok_def comp_def f)
qed

lemma delete_keeps_table: "coupons_ok db \<Longrightarrow> coupons_ok (snd (delete_coupon_stmt n t db))"
  by (auto simp: delete_coupon_stmt_def coupons_ok_def distinct_map_filter)

section \<open>The service as a map\<close>

text \<open>What the table means to a caller: the description and the amount of a product's coupon.\<close>

definition coupons_map :: "discount_db \<Rightarrow> string \<rightharpoonup> string \<times> 32 word" where
  "coupons_map db n = map_option (\<lambda>r. (dr_Description r, word_of_int (dr_Amount r))) (find_coupon n db)"

datatype coupon_request = Lookup string | Add "coupon_model option" | Change "coupon_model option" | Remove string

text \<open>The specification: requests on a map; the answer is a status code or an amount.\<close>

fun coupon_spec ::
  "coupon_request \<Rightarrow> (string \<rightharpoonup> string \<times> 32 word) \<Rightarrow> (grpc_code + 32 word) \<times> (string \<rightharpoonup> string \<times> 32 word)" where
  "coupon_spec (Lookup n) a = (Inr (case a n of None \<Rightarrow> 0 | Some (d, x) \<Rightarrow> x), a)"
| "coupon_spec (Add None) a = (Inl CodeInvalidArgument, a)"
| "coupon_spec (Add (Some m)) a =
     (if cm_ProductName m = '''' then (Inl CodeInvalidArgument, a)
      else if a (cm_ProductName m) \<noteq> None then (Inl CodeAlreadyExists, a)
      else (Inr (cm_Amount m), a(cm_ProductName m \<mapsto> (cm_Desciption m, cm_Amount m))))"
| "coupon_spec (Change None) a = (Inl CodeInvalidArgument, a)"
| "coupon_spec (Change (Some m)) a =
     (if cm_ProductName m = '''' then (Inl CodeInvalidArgument, a)
      else if a (cm_ProductName m) = None then (Inl CodeNotFound, a)
      else (Inr (cm_Amount m), a(cm_ProductName m \<mapsto> (cm_Desciption m, cm_Amount m))))"
| "coupon_spec (Remove n) a = (if a n = None then (Inl CodeNotFound, a) else (Inr 0, a(n := None)))"

text \<open>A request to the server, with the answer reduced to what the specification says of it.\<close>

fun coupon_serve :: "coupon_request \<Rightarrow> (discount_db, grpc_code + 32 word) act" where
  "coupon_serve (Lookup n) = andthen (GetDiscount sqlite_coupons n) (\<lambda>r. ret (map_sum fst cm_Amount r))"
| "coupon_serve (Add m) = andthen (CreateDiscount sqlite_coupons m) (\<lambda>r. ret (map_sum fst cm_Amount r))"
| "coupon_serve (Change m) = andthen (UpdateDiscount sqlite_coupons m) (\<lambda>r. ret (map_sum fst cm_Amount r))"
| "coupon_serve (Remove n) = andthen (DeleteDiscount sqlite_coupons n) (\<lambda>r. ret (map_sum fst (\<lambda>s. 0) r))"

lemma coupons_map_None: "coupons_map db n = None \<longleftrightarrow> find_coupon n db = None"
  by (simp add: coupons_map_def)

lemma find_coupon_add:
  assumes "find_coupon (dr_ProductName r) db = None"
  shows "find_coupon n (db\<lparr>Coupons := Coupons db @ [r], coupon_seq := i\<rparr>)
    = (if n = dr_ProductName r then Some r else find_coupon n db)"
proof -
  have "find p (xs @ [r]) = (case find p xs of None \<Rightarrow> if p r then Some r else None | Some y \<Rightarrow> Some y)" for p xs
    by (induction xs) auto
  with assms show ?thesis by (auto simp: find_coupon_def split: option.splits)
qed

lemma find_coupon_update:
  "find_coupon n (db\<lparr>Coupons := map (\<lambda>r. if dr_ProductName r = k then f r else r) (Coupons db)\<rparr>)
     = (if n = k then map_option f (find_coupon n db) else find_coupon n db)"
  if "\<And>r. dr_ProductName (f r) = dr_ProductName r"
proof -
  have "find (\<lambda>r. dr_ProductName r = n) (map (\<lambda>r. if dr_ProductName r = k then f r else r) rs)
      = (if n = k then map_option f (find (\<lambda>r. dr_ProductName r = n) rs) else find (\<lambda>r. dr_ProductName r = n) rs)" for rs
    by (induction rs) (auto simp: that)
  then show ?thesis by (simp add: find_coupon_def)
qed

lemma find_coupon_delete:
  "find_coupon n (db\<lparr>Coupons := filter (\<lambda>r. dr_ProductName r \<noteq> k) (Coupons db)\<rparr>)
     = (if n = k then None else find_coupon n db)"
proof -
  have f: "find (\<lambda>r. dr_ProductName r = n) (filter (\<lambda>r. dr_ProductName r \<noteq> k) rs)
      = (if n = k then None else find (\<lambda>r. dr_ProductName r = n) rs)" for rs
    by (induction rs) auto
  show ?thesis by (simp add: find_coupon_def f)
qed

lemmas coupon_stmts = create_coupon_stmt_def update_coupon_stmt_def delete_coupon_stmt_def by_name_stmt_def

text \<open>The statements refine the operations of the map.\<close>

lemma create_map:
  assumes "find_coupon (co_ProductName c) db = None"
  shows "coupons_map (snd (create_coupon_stmt c t db))
    = (coupons_map db)(co_ProductName c \<mapsto> (co_Description c, co_Amount c))"
  using find_coupon_add [of "\<lparr>dr_Id = coupon_seq db + 1, dr_ProductName = co_ProductName c,
      dr_Description = co_Description c, dr_Amount = sint (co_Amount c)\<rparr>" db] assms
  by (auto simp: create_coupon_stmt_def Let_def coupons_map_def fun_eq_iff)

lemma update_map:
  assumes "find_coupon (co_ProductName c) db = Some r"
  shows "coupons_map (snd (update_coupon_stmt c t db))
    = (coupons_map db)(co_ProductName c \<mapsto> (co_Description c, co_Amount c))"
  using assms
  by (auto simp: update_coupon_stmt_def coupons_map_def fun_eq_iff find_coupon_update)

lemma delete_map: "coupons_map (snd (delete_coupon_stmt n t db)) = (coupons_map db)(n := None)"
  by (auto simp: delete_coupon_stmt_def coupons_map_def fun_eq_iff find_coupon_delete)

lemma delete_count:
  "fst (delete_coupon_stmt n t db) = Inr 0 \<longleftrightarrow> coupons_map db n = None"
  by (auto simp: delete_coupon_stmt_def coupons_map_def find_coupon_def find_None_iff filter_empty_conv)

section \<open>The operations\<close>

lemma server_fail_simps [simp]:
  "server_fail (Wrapped m (DriverError f)) = (CodeInternal, Fmt ''internal error'' [])"
  "server_fail (NotFound n k) = (CodeNotFound, Fmt ''entity %s with key %v was not found'' [ArgStr n, k])"
  "server_fail (Conflict m) = (CodeAlreadyExists, m)"
  by (simp_all add: server_fail_def NotFound_def Conflict_def)

lemma coupon_exists_found [simp]: "isUniqueViolation coupon_exists_error" "coupon_exists_error \<noteq> NoRows"
  by (simp_all add: coupon_exists_error_def) code_simp

text \<open>
  A request is answered as the specification says, or with an internal error when a call to the database
  failed, whether it took effect or not.
\<close>

definition refines :: "coupon_request \<Rightarrow> env \<Rightarrow> discount_db \<Rightarrow> grpc_code + 32 word \<Rightarrow> discount_db \<Rightarrow> bool" where
  "refines req E db q db' \<longleftrightarrow>
     coupons_ok db' \<and>
     ((q, coupons_map db') = coupon_spec req (coupons_map db) \<or>
      outcomes E \<noteq> [] \<and> q = Inl CodeInternal \<and>
      (coupons_map db' = coupons_map db \<or> coupons_map db' = snd (coupon_spec req (coupons_map db))))"

lemma scan_int32_fits: "int32 i \<Longrightarrow> scan_int32 i = Inr (word_of_int i)"
  by (simp add: scan_int32_def int32_def)

lemma coupon_row_scans:
  assumes "coupons_ok db" "coupon_seq db < 2 ^ 31 - 1" "r \<in> set (Coupons db)"
  shows "scan_int32 (dr_Id r) = Inr (word_of_int (dr_Id r))"
    "scan_int32 (dr_Amount r) = Inr (word_of_int (dr_Amount r))"
  using assms by (auto intro!: scan_int32_fits simp: coupons_ok_def int32_def)

lemma Lookup_refines:
  assumes "coupons_ok db" "coupon_seq db < 2 ^ 31 - 1" "coupon_serve (Lookup n) (E, db) = (Inr q, E', db')"
  shows "refines (Lookup n) E db q db'"
proof -
  obtain r E1 db1 where c: "call (by_name_stmt n) (E, db) = (r, E1, db1)" by (cases "call (by_name_stmt n) (E, db)") auto
  from c show ?thesis
  proof (cases rule: call_outcomes)
    case 1
    show ?thesis
    proof (cases "find_coupon n db")
      case None
      with 1 c assms show ?thesis
        by (auto simp: GetDiscount_def sqlite_coupons_def sqlite_ByProductName_def attempt_eval andthen_def attempt_def
            by_name_stmt_def refines_def coupons_map_def NoDiscount_def toModel_def fail_def ret_def)
    next
      case (Some row)
      then have "row \<in> set (Coupons db)" by (simp add: find_coupon_Some)
      note s = coupon_row_scans [OF assms(1,2) this]
      from Some s 1 c assms show ?thesis
        by (auto simp: GetDiscount_def sqlite_coupons_def sqlite_ByProductName_def attempt_eval andthen_def attempt_def
            by_name_stmt_def scan_coupon_def refines_def coupons_map_def toModel_def fail_def ret_def)
    qed
  next
    case (2 f)
    with c assms show ?thesis
      by (auto simp: GetDiscount_def sqlite_coupons_def sqlite_ByProductName_def attempt_eval andthen_def attempt_def
          by_name_stmt_def refines_def fail_def ret_def)
  qed
qed

lemma Add_refines:
  assumes "coupons_ok db" "coupon_seq db < 2 ^ 31 - 1" "coupon_serve (Add m) (E, db) = (Inr q, E', db')"
  shows "refines (Add m) E db q db'"
proof (cases "fromModel m")
  case (Inl st)
  with assms(1,3) show ?thesis
    by (cases m) (auto simp: CreateDiscount_def fromModel_def refines_def split: if_splits)
next
  case (Inr c)
  then obtain k where m: "m = Some k" "cm_ProductName k \<noteq> ''''" "co_ProductName c = cm_ProductName k"
      "co_Description c = cm_Desciption k" "co_Amount c = cm_Amount k"
    by (auto simp: fromModel_def split: option.splits if_splits)
  have new: "find_coupon (co_ProductName c) db = None \<longleftrightarrow> coupons_map db (cm_ProductName k) = None"
    by (simp add: coupons_map_None m)
  have i: "scan_int32 (coupon_seq db + 1) = Inr (word_of_int (coupon_seq db + 1))"
    using assms(1,2) by (intro scan_int32_fits) (auto simp: coupons_ok_def int32_def)
  have ok: "coupons_ok (snd (create_coupon_stmt c (now E) db))"
    using create_keeps_table [OF assms(1)] m by simp
  obtain r E1 db1 where c: "call (create_coupon_stmt c) (E, db) = (r, E1, db1)"
    by (cases "call (create_coupon_stmt c) (E, db)") auto
  note defs = CreateDiscount_def sqlite_coupons_def sqlite_Create_def attempt_eval andthen_def attempt_def refines_def
    toModel_def fail_def ret_def
  from c show ?thesis
  proof (cases rule: call_outcomes)
    case 1
    show ?thesis
    proof (cases "find_coupon (co_ProductName c) db")
      case None
      then have "r = Inr (word_of_int (coupon_seq db + 1))" using 1 i by (simp add: create_coupon_stmt_def Let_def)
      moreover have "db1 = snd (create_coupon_stmt c (now E) db)" using 1 by (metis snd_conv)
      ultimately show ?thesis
        using c assms(3) Inr ok create_map [OF None] None new m by (auto simp: defs)
    next
      case (Some row)
      then have "r = Inl coupon_exists_error" "db1 = db" using 1 by (simp_all add: create_coupon_stmt_def)
      then show ?thesis using c assms(1,3) Inr Some new m by (auto simp: defs)
    qed
  next
    case (2 f)
    have "coupons_map db1 = coupons_map db \<or> coupons_map db1 = snd (coupon_spec (Add m) (coupons_map db))"
      using 2(2) create_map [of c db "now E"] new m
      by (cases "find_coupon (co_ProductName c) db") (auto simp: create_coupon_stmt_def)
    moreover have "coupons_ok db1" using 2(2) assms(1) ok by auto
    ultimately show ?thesis using 2 c assms(3) Inr by (auto simp: defs)
  qed
qed

lemma Change_refines:
  assumes "coupons_ok db" "coupon_seq db < 2 ^ 31 - 1" "coupon_serve (Change m) (E, db) = (Inr q, E', db')"
  shows "refines (Change m) E db q db'"
proof (cases "fromModel m")
  case (Inl st)
  with assms(1,3) show ?thesis
    by (cases m) (auto simp: UpdateDiscount_def fromModel_def refines_def split: if_splits)
next
  case (Inr c)
  then obtain k where m: "m = Some k" "cm_ProductName k \<noteq> ''''" "co_ProductName c = cm_ProductName k"
      "co_Description c = cm_Desciption k" "co_Amount c = cm_Amount k"
    by (auto simp: fromModel_def split: option.splits if_splits)
  have new: "find_coupon (co_ProductName c) db = None \<longleftrightarrow> coupons_map db (cm_ProductName k) = None"
    by (simp add: coupons_map_None m)
  have ok: "coupons_ok (snd (update_coupon_stmt c (now E) db))" by (rule update_keeps_table [OF assms(1)])
  obtain r E1 db1 where c: "call (update_coupon_stmt c) (E, db) = (r, E1, db1)"
    by (cases "call (update_coupon_stmt c) (E, db)") auto
  note defs = UpdateDiscount_def sqlite_coupons_def sqlite_Update_def attempt_eval andthen_def attempt_def refines_def
    toModel_def fail_def ret_def
  from c show ?thesis
  proof (cases rule: call_outcomes)
    case 1
    show ?thesis
    proof (cases "find_coupon (co_ProductName c) db")
      case None
      then have "r = Inl NoRows" "db1 = db" using 1 by (simp_all add: update_coupon_stmt_def)
      then show ?thesis using c assms(1,3) Inr None new m by (auto simp: defs)
    next
      case (Some row)
      then have "row \<in> set (Coupons db)" by (simp add: find_coupon_Some)
      note s = coupon_row_scans [OF assms(1,2) this]
      have "r = Inr (word_of_int (dr_Id row))" using 1 Some s by (simp add: update_coupon_stmt_def)
      moreover have "db1 = snd (update_coupon_stmt c (now E) db)" using 1 by (metis snd_conv)
      ultimately show ?thesis
        using c assms(3) Inr ok update_map [OF Some] Some new m by (auto simp: defs)
    qed
  next
    case (2 f)
    have "coupons_map db1 = coupons_map db \<or> coupons_map db1 = snd (coupon_spec (Change m) (coupons_map db))"
      using 2(2) update_map [of c db _ "now E"] new m
      by (cases "find_coupon (co_ProductName c) db") (auto simp: update_coupon_stmt_def)
    moreover have "coupons_ok db1" using 2(2) assms(1) ok by auto
    ultimately show ?thesis using 2 c assms(3) Inr by (auto simp: defs)
  qed
qed

lemma Remove_refines:
  assumes "coupons_ok db" "coupon_serve (Remove n) (E, db) = (Inr q, E', db')"
  shows "refines (Remove n) E db q db'"
proof -
  obtain r E1 db1 where c: "call (delete_coupon_stmt n) (E, db) = (r, E1, db1)"
    by (cases "call (delete_coupon_stmt n) (E, db)") auto
  have ok: "coupons_ok (snd (delete_coupon_stmt n (now E) db))" by (rule delete_keeps_table [OF assms(1)])
  note defs = DeleteDiscount_def sqlite_coupons_def sqlite_Delete_def attempt_eval andthen_def attempt_def refines_def
    fail_def ret_def on_err_def
  from c show ?thesis
  proof (cases rule: call_outcomes)
    case 1
    then have d: "db1 = snd (delete_coupon_stmt n (now E) db)" by (metis snd_conv)
    from 1 obtain k where k: "r = Inr k" by (simp add: delete_coupon_stmt_def)
    with 1 have "k = 0 \<longleftrightarrow> coupons_map db n = None"
      using delete_count [of n "now E" db] by (metis fst_conv sum.inject(2))
    with c k assms(2) ok d show ?thesis by (auto simp: defs delete_map fun_upd_idem)
  next
    case (2 f)
    have "coupons_ok db1" "coupons_map db1 = coupons_map db \<or> coupons_map db1 = (coupons_map db)(n := None)"
      using 2(2) assms(1) ok by (auto simp: delete_map)
    with 2 c assms(2) show ?thesis by (auto simp: defs fun_upd_idem)
  qed
qed

lemma server_answers:
  "throws (\<lambda>e. False) (GetDiscount repo n)" "throws (\<lambda>e. False) (CreateDiscount repo m)"
  "throws (\<lambda>e. False) (UpdateDiscount repo m)" "throws (\<lambda>e. False) (DeleteDiscount repo n)"
proof -
  have a: "throws (\<lambda>e. False) (attempt x)" for x :: "('c, 'd) act"
    by (rule throwsI) auto
  show "throws (\<lambda>e. False) (GetDiscount repo n)" "throws (\<lambda>e. False) (CreateDiscount repo m)"
    "throws (\<lambda>e. False) (UpdateDiscount repo m)" "throws (\<lambda>e. False) (DeleteDiscount repo n)"
    unfolding GetDiscount_def CreateDiscount_def UpdateDiscount_def DeleteDiscount_def
    by (auto intro!: throw_intro a split: sum.split)
qed

lemma coupon_serve_answers: "\<exists>q E' db'. coupon_serve req (E, db) = (Inr q, E', db')"
proof -
  have "throws (\<lambda>e. False) (coupon_serve req)"
    by (cases req) (auto intro!: throw_intro server_answers)
  then show ?thesis
    by (cases "coupon_serve req (E, db)"; cases "fst (coupon_serve req (E, db))") (auto dest: throwsD)
qed

section \<open>Properties\<close>

text \<open>
  C35. The Discount service is a map from product names to coupons. Whatever is asked, of a well-formed
  table and while ids last, it answers as the map does: a coupon's amount or zero, a coupon added only where
  there is none, changed or removed only where there is one, nothing accepted without a name. Only when a
  call to the database failed is the answer an internal error, and then the table is as before or as after.
\<close>

theorem discount_is_a_map:
  assumes "coupons_ok db" "coupon_seq db < 2 ^ 31 - 1"
  shows "\<exists>q E' db'. coupon_serve req (E, db) = (Inr q, E', db') \<and> coupons_ok db' \<and>
    (if (q, coupons_map db') = coupon_spec req (coupons_map db) then True
     else outcomes E \<noteq> [] \<and> q = Inl CodeInternal \<and>
       coupons_map db' \<in> {coupons_map db, snd (coupon_spec req (coupons_map db))})"
proof -
  obtain q E' db' where r: "coupon_serve req (E, db) = (Inr q, E', db')" using coupon_serve_answers by blast
  have "refines req E db q db'"
  proof (cases req)
    case (Lookup n)
    show ?thesis using Lookup_refines [OF assms] r unfolding Lookup by blast
  next
    case (Add m)
    show ?thesis using Add_refines [OF assms] r unfolding Add by blast
  next
    case (Change m)
    show ?thesis using Change_refines [OF assms] r unfolding Change by blast
  next
    case (Remove n)
    show ?thesis using Remove_refines [OF assms(1)] r unfolding Remove by blast
  qed
  with r show ?thesis by (auto simp: refines_def)
qed

theorem discount_is_a_map_witness:
  "\<exists>q E' db'. coupon_serve (Lookup ''Pen'') (sample_env, discount_db_empty) = (Inr q, E', db') \<and> q = Inr 0"
proof -
  have "coupons_ok discount_db_empty" "coupon_seq discount_db_empty < 2 ^ 31 - 1"
    by (simp_all add: coupons_ok_def discount_db_empty_def)
  from discount_is_a_map [OF this, of "Lookup ''Pen''" sample_env] show ?thesis
    by (auto simp: coupons_map_def find_coupon_def discount_db_empty_def split: if_splits)
qed

fun coupon_run :: "(env \<times> coupon_request) list \<Rightarrow> discount_db \<Rightarrow> discount_db" where
  "coupon_run [] db = db"
| "coupon_run ((E, req) # rs) db = coupon_run rs (snd (snd (coupon_serve req (E, db))))"

lemma serve_keeps: "keeps coupons_ok (coupon_serve req)"
proof -
  have r: "keeps coupons_ok (sqlite_ByProductName n)" "keeps coupons_ok (sqlite_Update c)"
    "keeps coupons_ok (sqlite_Delete n)" for n c
    unfolding sqlite_ByProductName_def sqlite_Update_def sqlite_Delete_def
    by (auto intro!: wf_intro update_keeps_table delete_keeps_table simp: by_name_stmt_def split: sum.split)
  have a: "keeps coupons_ok (sqlite_Create c)" if "co_ProductName c \<noteq> ''''" for c
    unfolding sqlite_Create_def
    by (auto intro!: wf_intro create_keeps_table that split: sum.split)
  have n: "fromModel m = Inr c \<Longrightarrow> co_ProductName c \<noteq> ''''" for m c
    by (auto simp: fromModel_def split: option.splits if_splits)
  show ?thesis
    by (cases req)
      (auto intro!: wf_intro r a n simp: GetDiscount_def CreateDiscount_def UpdateDiscount_def DeleteDiscount_def
        sqlite_coupons_def split: sum.split)
qed

text \<open>
  C36. Every table that a sequence of requests leads to from an empty one, under any failures, is well
  formed: no product has two coupons, no id is given twice, every coupon has a name and an amount of 32 bits.
\<close>

theorem coupon_table_is_well_formed:
  "coupons_ok (coupon_run rs discount_db_empty)"
proof -
  have "coupons_ok (coupon_run rs db)" if "coupons_ok db" for db
    using that
  proof (induction rs db rule: coupon_run.induct)
    case (2 E req rs db)
    obtain r E' db' where "coupon_serve req (E, db) = (r, E', db')" by (cases "coupon_serve req (E, db)") auto
    with 2 keepsD [OF serve_keeps] show ?case by simp
  qed simp
  moreover have "coupons_ok discount_db_empty" by (simp add: coupons_ok_def discount_db_empty_def)
  ultimately show ?thesis by blast
qed

section \<open>Discounts of a basket\<close>

abbreviation discount_service :: "discount_db discount_lookup" where
  "discount_service \<equiv> AmountFor (\<lambda>n. grpc_call (GetDiscount sqlite_coupons n))"

definition coupon_amount :: "discount_db \<Rightarrow> string \<Rightarrow> 32 word" where
  "coupon_amount db n = (case coupons_map db n of None \<Rightarrow> 0 | Some (d, x) \<Rightarrow> x)"

lemma service_amount:
  assumes "coupons_ok db" "coupon_seq db < 2 ^ 31 - 1" "discount_service n (E, db) = (r, E', db')"
  shows "db' = db \<and> (\<forall>a. r = Inr a \<longrightarrow> a = coupon_amount db n)"
proof -
  have q: "quiet (sqlite_ByProductName n)"
    unfolding sqlite_ByProductName_def
    by (rule quietI) (auto simp: andthen_def attempt_def by_name_stmt_def split: sum.splits if_splits prod.splits
        dest!: call_cases)
  have g: "quiet (GetDiscount sqlite_coupons n)"
    unfolding GetDiscount_def sqlite_coupons_def
    by (rule quietI) (auto simp: andthen_def attempt_def split: sum.splits if_splits prod.splits dest!: quietD [OF q])
  obtain u E1 db1 where 1: "query (\<lambda>s. ()) (E, db) = (u, E1, db1)" by (cases "query (\<lambda>s. ()) (E, db)") auto
  then have "db1 = db" by (rule query_state)
  obtain p E2 db2 where 2: "GetDiscount sqlite_coupons n (E1, db) = (p, E2, db2)"
    by (cases "GetDiscount sqlite_coupons n (E1, db)") auto
  then have "db2 = db" by (rule quietD [OF g])
  have "cm_Amount x = coupon_amount db n" if "p = Inr (Inr x)" for x
  proof -
    have "coupon_serve (Lookup n) (E1, db) = (Inr (Inr (cm_Amount x)), E2, db)"
      using 2 that \<open>db2 = db\<close> by (simp add: andthen_def)
    from Lookup_refines [OF assms(1,2) this] show ?thesis by (simp add: refines_def coupon_amount_def)
  qed
  with assms(3) 1 2 \<open>db1 = db\<close> \<open>db2 = db\<close> show ?thesis
    by (cases u; cases p) (auto simp: AmountFor_def grpc_call_def andthen_def on_err_def ret_def fail_def
        split: sum.splits prod.splits)
qed

definition discounted_lines :: "discount_db \<Rightarrow> cart_item list \<Rightarrow> cart_item list" where
  "discounted_lines db =
     map (\<lambda>i. i\<lparr>ci_Price := discounted_price (ci_Price i) (coupon_amount db (ci_ProductName i))\<rparr>)"

lemma lines_amounts:
  assumes "coupons_ok db" "coupon_seq db < 2 ^ 31 - 1"
  shows "discount_lines discount_service its (E, db) = (r, E', db') \<Longrightarrow>
    db' = db \<and> (\<forall>its'. r = Inr its' \<longrightarrow> its' = discounted_lines db its)"
proof (induction its arbitrary: E r E' db')
  case Nil
  then show ?case by (auto simp: discounted_lines_def)
next
  case (Cons i its)
  obtain a E1 db1 where a: "discount_service (ci_ProductName i) (E, db) = (a, E1, db1)"
    by (cases "discount_service (ci_ProductName i) (E, db)") auto
  note a' = service_amount [OF assms a]
  obtain q E2 db2 where q: "discount_lines discount_service its (E1, db) = (q, E2, db2)"
    by (cases "discount_lines discount_service its (E1, db)") auto
  from Cons.IH [OF q] Cons.prems a a' q show ?case
    by (cases a; cases q) (auto simp: andthen_def discounted_lines_def)
qed

lemma service_succeeds:
  assumes "coupons_ok db" "coupon_seq db < 2 ^ 31 - 1" "outcomes E = []"
  shows "discount_service n (E, db) = (Inr (coupon_amount db n), E, db)"
proof -
  obtain p E2 db2 where 2: "coupon_serve (Lookup n) (E, db) = (Inr p, E2, db2)"
    using coupon_serve_answers by blast
  have e: "call (by_name_stmt n) (E, db) = (fst (by_name_stmt n (now E) db), E, db)"
    using assms(3) by (simp add: call_ok by_name_stmt_def)
  have "p = Inr (coupon_amount db n)"
    using Lookup_refines [OF assms(1,2) 2] assms(3) by (simp add: refines_def coupon_amount_def)
  with 2 obtain m where "GetDiscount sqlite_coupons n (E, db) = (Inr (Inr m), E2, db2)" "cm_Amount m = coupon_amount db n"
    by (cases "GetDiscount sqlite_coupons n (E, db)"; cases "fst (GetDiscount sqlite_coupons n (E, db))")
      (auto simp: andthen_def map_sum_Inr split: sum.splits)
  moreover from this(1) have "E2 = E" "db2 = db"
    by (auto simp: GetDiscount_def sqlite_coupons_def sqlite_ByProductName_def andthen_def attempt_def e
        fail_def ret_def split: sum.splits if_splits)
  ultimately show ?thesis
    by (simp add: AmountFor_def grpc_call_def andthen_def on_err_def query_ok assms(3) ret_def)
qed

lemma lines_succeed:
  assumes "coupons_ok db" "coupon_seq db < 2 ^ 31 - 1" "outcomes E = []"
  shows "discount_lines discount_service its (E, db) = (Inr (discounted_lines db its), E, db)"
  by (induction its) (simp_all add: andthen_eval service_succeeds [OF assms] discounted_lines_def)

lemma price_after_coupon:
  assumes "coupons_ok db"
  shows "discounted_price p (coupon_amount db n)
    = max 0 (p - (case find_coupon n db of None \<Rightarrow> 0 | Some r \<Rightarrow> of_int (dr_Amount r)))"
proof (cases "find_coupon n db")
  case None
  then show ?thesis by (simp add: coupon_amount_def coupons_map_def discounted_price_def max_def)
next
  case (Some r)
  with find_coupon_Some assms have "int32 (dr_Amount r)" by (fastforce simp: coupons_ok_def)
  then have "sint (word_of_int (dr_Amount r) :: 32 word) = dr_Amount r"
    by (simp add: int32_def signed_of_int signed_take_bit_int_eq_self)
  with Some show ?thesis by (simp add: coupon_amount_def coupons_map_def discounted_price_def max_def)
qed

text \<open>
  C37. A basket's lines get the discounts that the Discount service holds: every line's price becomes what it was
  less the amount in the row of its product, or less nothing when the product has no row, and zero where that
  would be below zero; product, quantity and color stay, and so do the number and the order of the lines. If one
  lookup fails, no line is changed at all, and that only happens when a call failed; the coupons are never touched.
\<close>

theorem basket_gets_its_coupons:
  assumes "coupons_ok db" "coupon_seq db < 2 ^ 31 - 1"
    and "applyDiscounts discount_service c (E, db) = (r, E', db')"
  shows "db' = db \<and> (case r of
      Inl e \<Rightarrow> outcomes E \<noteq> []
    | Inr c' \<Rightarrow> c' = c\<lparr>sc_Items := map (\<lambda>i. i\<lparr>ci_Price := max 0 (ci_Price i -
        (case find_coupon (ci_ProductName i) db of None \<Rightarrow> 0 | Some r \<Rightarrow> of_int (dr_Amount r)))\<rparr>) (sc_Items c)\<rparr>)"
proof -
  obtain q E1 db1 where l: "discount_lines discount_service (sc_Items c) (E, db) = (q, E1, db1)"
    by (cases "discount_lines discount_service (sc_Items c) (E, db)") auto
  note a = lines_amounts [OF assms(1,2) l]
  show ?thesis
  proof (cases q)
    case (Inl e)
    have "outcomes E \<noteq> []" using lines_succeed [OF assms(1,2), of E "sc_Items c"] l Inl by force
    moreover have "r = Inl e" "db' = db1"
      using assms(3) Inl l by (simp_all add: applyDiscounts_def andthen_def)
    ultimately show ?thesis using a by simp
  next
    case (Inr its)
    then have "r = Inr (c\<lparr>sc_Items := its\<rparr>)" "db' = db1"
      using assms(3) l by (simp_all add: applyDiscounts_def andthen_def)
    with a Inr show ?thesis by (simp add: discounted_lines_def price_after_coupon [OF assms(1)])
  qed
qed

definition phone_line :: "decimal \<Rightarrow> cart_item" where
  "phone_line p = \<lparr>ci_Quantity = 1, ci_Color = '''', ci_Price = p, ci_ProductID = 1, ci_ProductName = ''iPhone X''\<rparr>"

definition sample_phone_basket :: cart where
  "sample_phone_basket = \<lparr>sc_UserName = ''u'', sc_Items = [phone_line 200], sc_Version = 0\<rparr>"

definition sample_coupons :: discount_db where
  "sample_coupons =
     \<lparr>Coupons = [\<lparr>dr_Id = 1, dr_ProductName = ''iPhone X'', dr_Description = '''', dr_Amount = 150\<rparr>], coupon_seq = 1\<rparr>"

theorem basket_gets_its_coupons_witness:
  "\<exists>E. applyDiscounts discount_service sample_phone_basket (sample_env, sample_coupons)
     = (Inr (sample_phone_basket\<lparr>sc_Items := [phone_line 50]\<rparr>), E, sample_coupons)"
proof -
  have c: "coupons_ok sample_coupons" "coupon_seq sample_coupons < 2 ^ 31 - 1"
    "find_coupon ''iPhone X'' sample_coupons
      = Some \<lparr>dr_Id = 1, dr_ProductName = ''iPhone X'', dr_Description = '''', dr_Amount = 150\<rparr>"
    by (auto simp: coupons_ok_def sample_coupons_def int32_def find_coupon_def)
  obtain r E db where r: "applyDiscounts discount_service sample_phone_basket (sample_env, sample_coupons) = (r, E, db)"
    by (cases "applyDiscounts discount_service sample_phone_basket (sample_env, sample_coupons)") auto
  from basket_gets_its_coupons [OF c(1,2) r] r show ?thesis
    by (cases r) (simp_all add: sample_phone_basket_def phone_line_def c(3))
qed

text \<open>Nothing keeps an amount from being negative; such a coupon makes the product dearer.\<close>

lemma negative_coupon_raises_price:
  assumes "sint a < 0" "0 \<le> p"
  shows "p < discounted_price p a"
proof -
  have "of_int (sint a) < (0::decimal)" unfolding of_int_less_0_iff by (rule assms(1))
  with assms(2) have "p < p - of_int (sint a)" "\<not> p - of_int (sint a) < 0" by linarith+
  then show ?thesis unfolding discounted_price_def Let_def by (simp only: if_False)
qed

end
