(* ===== verification/Catalog.thy ===== *)
theory Catalog
  imports Http Pagination Postgres "HOL-Library.Product_Lexorder"
begin

text \<open>
  The Catalog service: the slices of \<open>internal/catalog/products\<close> with their routes, and the documents of
  \<open>internal/catalog/postgres\<close> (\<open>repository.go\<close>, \<open>seed.go\<close> and the migration). Log lines are not
  modelled; \<open>cmd/catalog\<close> is in the theory \<open>Services\<close>.
\<close>

section \<open>Products\<close>

text \<open>A \<open>nil\<close> slice of categories is \<open>None\<close>; JSON has \<open>null\<close> for it.\<close>

record cat_product =
  pd_ID :: uuid
  pd_Name :: string
  pd_Category :: "string list option"
  pd_Description :: string
  pd_ImageFile :: string
  pd_Price :: decimal

definition cat_product_zero :: cat_product where
  "cat_product_zero =
     \<lparr>pd_ID = uuid_nil, pd_Name = '''', pd_Category = None, pd_Description = '''', pd_ImageFile = '''', pd_Price = 0\<rparr>"

definition nil_slice_json :: "('a \<Rightarrow> json) \<Rightarrow> 'a list option \<Rightarrow> json" where
  "nil_slice_json enc xs = (case xs of None \<Rightarrow> JNull | Some ys \<Rightarrow> JArr (map enc ys))"

definition decode_nil_slice :: "'a \<Rightarrow> 'a decoder \<Rightarrow> 'a list option decoder" where
  "decode_nil_slice zero dec j old =
     (if j = JNull then Inr None
      else try_res (decode_slice zero dec j []) (\<lambda>ys. Inr (Some ys)))"

definition cat_product_members :: "texts \<Rightarrow> cat_product \<Rightarrow> (string \<times> json) list" where
  "cat_product_members T p =
     [(''id'', json_string (uuid_text T (pd_ID p))),
      (''name'', json_string (pd_Name p)),
      (''category'', nil_slice_json json_string (pd_Category p)),
      (''description'', json_string (pd_Description p)),
      (''imageFile'', json_string (pd_ImageFile p)),
      (''price'', JNum (dec_text T (pd_Price p)))]"

definition cat_product_json :: "texts \<Rightarrow> cat_product \<Rightarrow> json" where
  "cat_product_json T p = JObj (cat_product_members T p)"

definition cat_product_fields :: "texts \<Rightarrow> cat_product fields" where
  "cat_product_fields T =
     [(''id'', field (decode_uuid T) pd_ID pd_ID_update),
      (''name'', field decode_string pd_Name pd_Name_update),
      (''category'', field (decode_nil_slice '''' decode_string) pd_Category pd_Category_update),
      (''description'', field decode_string pd_Description pd_Description_update),
      (''imageFile'', field decode_string pd_ImageFile pd_ImageFile_update),
      (''price'', field (decode_decimal T) pd_Price pd_Price_update)]"

definition decode_cat_product :: "texts \<Rightarrow> cat_product decoder" where
  "decode_cat_product T = decode_struct (cat_product_fields T)"

record 's cat_repo =
  ct_List :: "page_request \<Rightarrow> ('s, cat_product list \<times> int) act"
  ct_ByID :: "uuid \<Rightarrow> ('s, cat_product) act"
  ct_ByCategory :: "string \<Rightarrow> ('s, cat_product list) act"
  ct_Store :: "cat_product \<Rightarrow> ('s, unit) act"
  ct_Delete :: "uuid \<Rightarrow> ('s, unit) act"

section \<open>The table\<close>

text \<open>The rows of \<open>products\<close>: the id, which is the primary key, and the document.\<close>

record catalog_db =
  Products :: "(uuid \<times> json) list"

definition catalog_db_empty :: catalog_db where
  "catalog_db_empty = \<lparr>Products = []\<rparr>"

text \<open>
  The server with the order of its collation, as a rank of texts, and the text that \<open>->>\<close> gives of a value
  that is not a string.
\<close>

record catalog_pg = postgres +
  pg_rank :: "string \<Rightarrow> rat"
  pg_show :: "json \<Rightarrow> string"

text \<open>\<open>data -> key\<close>\<close>

definition pg_member :: "json \<Rightarrow> string \<Rightarrow> json option" where
  "pg_member j key = (case j of JObj ms \<Rightarrow> map_of ms key | _ \<Rightarrow> None)"

text \<open>\<open>data ->> key\<close>\<close>

definition pg_member_text :: "'a catalog_pg_scheme \<Rightarrow> json \<Rightarrow> string \<Rightarrow> string option" where
  "pg_member_text P j key =
     (case pg_member j key of
        None \<Rightarrow> None
      | Some JNull \<Rightarrow> None
      | Some (JStr s) \<Rightarrow> Some s
      | Some v \<Rightarrow> Some (pg_show P v))"

text \<open>\<open>v ? s\<close>: \<open>s\<close> is a member's key, an element of the array or the string itself.\<close>

definition pg_has :: "json option \<Rightarrow> string \<Rightarrow> bool" where
  "pg_has v s =
     (case v of
        Some (JObj ms) \<Rightarrow> list_ex (\<lambda>(k, j). k = s) ms
      | Some (JArr js) \<Rightarrow> list_ex (\<lambda>j. j = JStr s) js
      | Some (JStr t) \<Rightarrow> t = s
      | _ \<Rightarrow> False)"

text \<open>The values that \<open>ORDER BY\<close> compares: texts by their rank, and \<open>NULL\<close>, which comes last.\<close>

datatype sort_value = Ranked rat | NullValue

instantiation sort_value :: linorder
begin

fun less_eq_sort_value :: "sort_value \<Rightarrow> sort_value \<Rightarrow> bool" where
  "less_eq_sort_value (Ranked a) (Ranked b) \<longleftrightarrow> a \<le> b"
| "less_eq_sort_value x NullValue \<longleftrightarrow> True"
| "less_eq_sort_value NullValue (Ranked b) \<longleftrightarrow> False"

definition less_sort_value :: "sort_value \<Rightarrow> sort_value \<Rightarrow> bool" where
  "less_sort_value x y \<longleftrightarrow> x \<le> y \<and> \<not> y \<le> x"

instance
proof
  fix x y z :: sort_value
  show "x < y \<longleftrightarrow> x \<le> y \<and> \<not> y \<le> x" by (simp add: less_sort_value_def)
  show "x \<le> x" by (cases x) simp_all
  show "x \<le> y \<Longrightarrow> y \<le> z \<Longrightarrow> x \<le> z" by (cases x; cases y; cases z) simp_all
  show "x \<le> y \<Longrightarrow> y \<le> x \<Longrightarrow> x = y" by (cases x; cases y) simp_all
  show "x \<le> y \<or> y \<le> x" by (cases x; cases y) auto
qed

end

text \<open>\<open>ORDER BY data ->> 'name', id\<close>\<close>

definition name_key :: "'a catalog_pg_scheme \<Rightarrow> uuid \<times> json \<Rightarrow> sort_value \<times> uuid" where
  "name_key P row =
     (case pg_member_text P (snd row) ''name'' of
        None \<Rightarrow> (NullValue, fst row)
      | Some s \<Rightarrow> (Ranked (pg_rank P s), fst row))"

definition by_name :: "'a catalog_pg_scheme \<Rightarrow> (uuid \<times> json) list \<Rightarrow> (uuid \<times> json) list" where
  "by_name P rows = sort_key (name_key P) rows"

definition pg_negative_offset :: go_error where
  "pg_negative_offset = Plain (Fmt ''OFFSET must not be negative'' [])"

definition page_stmt ::
  "'a catalog_pg_scheme \<Rightarrow> page_request \<Rightarrow> time \<Rightarrow> catalog_db \<Rightarrow> (go_error + json list) \<times> catalog_db" where
  "page_stmt P page t db =
     (if sint (Offset page) < 0 then Inl pg_negative_offset
      else Inr (map snd (page_rows (sint (Offset page)) (sint (Limit page)) (by_name P (Products db)))), db)"

definition category_stmt ::
  "'a catalog_pg_scheme \<Rightarrow> string \<Rightarrow> time \<Rightarrow> catalog_db \<Rightarrow> (go_error + json list) \<times> catalog_db" where
  "category_stmt P category t db =
     (Inr (map snd (by_name P (filter (\<lambda>r. pg_has (pg_member (snd r) ''category'') category) (Products db)))), db)"

definition product_by_id_stmt :: "texts \<Rightarrow> uuid \<Rightarrow> time \<Rightarrow> catalog_db \<Rightarrow> (go_error + cat_product) \<times> catalog_db" where
  "product_by_id_stmt T i t db =
     ((case map_of (Products db) i of
         None \<Rightarrow> Inl NoRows
       | Some j \<Rightarrow> decode_cat_product T j cat_product_zero), db)"

text \<open>The row of an id is replaced where it stands; a new id is added.\<close>

fun put_row :: "uuid \<Rightarrow> json \<Rightarrow> (uuid \<times> json) list \<Rightarrow> (uuid \<times> json) list" where
  "put_row i j [] = [(i, j)]"
| "put_row i j (r # rs) = (if fst r = i then (i, j) # rs else r # put_row i j rs)"

definition put_product_stmt :: "'a catalog_pg_scheme \<Rightarrow> uuid \<Rightarrow> json \<Rightarrow> time \<Rightarrow> catalog_db \<Rightarrow> (go_error + unit) \<times> catalog_db" where
  "put_product_stmt P i data t db =
     (case pg_jsonb P data of
        None \<Rightarrow> (Inl invalid_json, db)
      | Some j \<Rightarrow> (Inr (), db\<lparr>Products := put_row i j (Products db)\<rparr>))"

section \<open>The repository\<close>

text \<open>The query is sent, then its rows are read and decoded.\<close>

definition collect_rows :: "texts \<Rightarrow> (catalog_db, json list) act \<Rightarrow> (catalog_db, cat_product list) act" where
  "collect_rows T rows =
     andthen (on_err (Wrapped (Fmt ''reading product rows'' [])) rows) (\<lambda>docs.
     of_res (map_err (\<lambda>j. map_left (Wrapped (Fmt ''decoding product row'' []))
                            (decode_cat_product T j cat_product_zero)) docs))"

definition catalog_List :: "'a catalog_pg_scheme \<Rightarrow> texts \<Rightarrow> page_request \<Rightarrow> (catalog_db, cat_product list \<times> int) act" where
  "catalog_List P T page =
     andthen (on_err (Wrapped (Fmt ''counting products'' [])) (query (\<lambda>db. int (length (Products db))))) (\<lambda>n.
     andthen (on_err (Wrapped (Fmt ''listing products'' [])) (query (\<lambda>db. ()))) (\<lambda>_.
     andthen (collect_rows T (call (page_stmt P page))) (\<lambda>ps.
     ret (ps, n))))"

definition catalog_ByID :: "texts \<Rightarrow> uuid \<Rightarrow> (catalog_db, cat_product) act" where
  "catalog_ByID T i =
     andthen (attempt (call (product_by_id_stmt T i))) (\<lambda>r.
     case r of
       Inr p \<Rightarrow> ret p
     | Inl err \<Rightarrow>
         if err = NoRows then fail (NotFound ''Product'' (ArgUuid i))
         else fail (Wrapped (Fmt ''loading product %s'' [ArgUuid i]) err))"

definition catalog_ByCategory :: "catalog_pg \<Rightarrow> texts \<Rightarrow> string \<Rightarrow> (catalog_db, cat_product list) act" where
  "catalog_ByCategory P T category =
     andthen (on_err (Wrapped (Fmt ''listing products by category'' [])) (query (\<lambda>db. ()))) (\<lambda>_.
     collect_rows T (pg_stmt (postgres.truncate P) [category] (category_stmt P category)))"

definition catalog_Store :: "'a catalog_pg_scheme \<Rightarrow> texts \<Rightarrow> cat_product \<Rightarrow> (catalog_db, unit) act" where
  "catalog_Store P T p =
     on_err (Wrapped (Fmt ''storing product %s'' [ArgUuid (pd_ID p)]))
       (call (put_product_stmt P (pd_ID p) (cat_product_json T p)))"

definition catalog_Delete :: "uuid \<Rightarrow> (catalog_db, unit) act" where
  "catalog_Delete i =
     on_err (Wrapped (Fmt ''deleting product %s'' [ArgUuid i]))
       (update (\<lambda>t db. db\<lparr>Products := filter (\<lambda>r. fst r \<noteq> i) (Products db)\<rparr>))"

definition pg_catalog :: "catalog_pg \<Rightarrow> texts \<Rightarrow> catalog_db cat_repo" where
  "pg_catalog P T =
     \<lparr>ct_List = catalog_List P T, ct_ByID = catalog_ByID T, ct_ByCategory = catalog_ByCategory P T,
      ct_Store = catalog_Store P T, ct_Delete = catalog_Delete\<rparr>"

section \<open>Start-up data\<close>

definition seed_product :: "(string \<Rightarrow> uuid) \<Rightarrow> string \<times> string \<times> int \<Rightarrow> cat_product" where
  "seed_product sha1 entry =
     (case entry of (name, img, price) \<Rightarrow>
        \<lparr>pd_ID = sha1 name, pd_Name = name, pd_Category = Some [''Smart Phone''],
         pd_Description = ''This phone is the company'' @ [CHR 0x27] @
           ''s biggest change to its flagship smartphone in years.'',
         pd_ImageFile = img, pd_Price = of_int price\<rparr>)"

text \<open>\<open>sha1\<close> is \<open>uuid.NewSHA1\<close> in the namespace of the seed.\<close>

definition sampleCatalog :: "(string \<Rightarrow> uuid) \<Rightarrow> cat_product list" where
  "sampleCatalog sha1 =
     map (seed_product sha1)
       [(''iPhone X'', ''product-1.png'', 950), (''Samsung 10'', ''product-2.png'', 840),
        (''Huawei Plus'', ''product-3.png'', 650), (''Xiaomi Mi 9'', ''product-4.png'', 470)]"

definition catalog_Seed :: "(string \<Rightarrow> uuid) \<Rightarrow> catalog_pg \<Rightarrow> texts \<Rightarrow> (catalog_db, nat) act" where
  "catalog_Seed sha1 P T =
     andthen (on_err (Wrapped (Fmt ''counting products before seeding'' []))
                (query (\<lambda>db. length (Products db)))) (\<lambda>existing.
     if existing > 0 then ret 0
     else
       andthen (for_each (\<lambda>p.
         on_err (Wrapped (Fmt ''seeding product %s'' [ArgStr (pd_Name p)])) (catalog_Store P T p)) (sampleCatalog sha1)) (\<lambda>_.
       ret (length (sampleCatalog sha1))))"

section \<open>Handlers\<close>

record create_product_command =
  cpc_Name :: string
  cpc_Category :: "string list option"
  cpc_Description :: string
  cpc_ImageFile :: string
  cpc_Price :: decimal

record update_product_command =
  upc_ID :: uuid
  upc_Name :: string
  upc_Categories :: "string list option"
  upc_Description :: string
  upc_ImageFile :: string
  upc_Price :: decimal

record get_products_query =
  gpq_PageNumber :: go_int
  gpq_PageSize :: go_int

definition created_product :: "uuid \<Rightarrow> create_product_command \<Rightarrow> cat_product" where
  "created_product u c =
     \<lparr>pd_ID = u, pd_Name = cpc_Name c, pd_Category = cpc_Category c, pd_Description = cpc_Description c,
      pd_ImageFile = cpc_ImageFile c, pd_Price = cpc_Price c\<rparr>"

definition CreateProduct :: "'s cat_repo \<Rightarrow> create_product_command \<Rightarrow> ('s, uuid) act" where
  "CreateProduct repo c =
     andthen new_uuid (\<lambda>u.
     andthen (ct_Store repo (created_product u c)) (\<lambda>_. ret u))"

definition updated_product :: "update_product_command \<Rightarrow> cat_product \<Rightarrow> cat_product" where
  "updated_product c p =
     p\<lparr>pd_Name := upc_Name c, pd_Category := upc_Categories c, pd_Description := upc_Description c,
       pd_ImageFile := upc_ImageFile c, pd_Price := upc_Price c\<rparr>"

definition UpdateProduct :: "'s cat_repo \<Rightarrow> update_product_command \<Rightarrow> ('s, bool) act" where
  "UpdateProduct repo c =
     andthen (ct_ByID repo (upc_ID c)) (\<lambda>p.
     andthen (ct_Store repo (updated_product c p)) (\<lambda>_. ret True))"

definition DeleteProduct :: "'s cat_repo \<Rightarrow> uuid \<Rightarrow> ('s, bool) act" where
  "DeleteProduct repo i = andthen (ct_Delete repo i) (\<lambda>_. ret True)"

definition GetProductByID :: "'s cat_repo \<Rightarrow> uuid \<Rightarrow> ('s, cat_product) act" where
  "GetProductByID repo i = ct_ByID repo i"

definition GetProductByCategory :: "'s cat_repo \<Rightarrow> string \<Rightarrow> ('s, cat_product list) act" where
  "GetProductByCategory repo category = ct_ByCategory repo category"

definition GetProducts :: "'s cat_repo \<Rightarrow> get_products_query \<Rightarrow> ('s, cat_product list) act" where
  "GetProducts repo q =
     andthen (ct_List repo \<lparr>PageIndex = gpq_PageNumber q - 1, PageSize = gpq_PageSize q\<rparr>) (\<lambda>(ps, n). ret ps)"

section \<open>Routes\<close>

definition decode_create_product :: "texts \<Rightarrow> create_product_command decoder" where
  "decode_create_product T = decode_struct
     [(''name'', field decode_string cpc_Name cpc_Name_update),
      (''category'', field (decode_nil_slice '''' decode_string) cpc_Category cpc_Category_update),
      (''description'', field decode_string cpc_Description cpc_Description_update),
      (''imageFile'', field decode_string cpc_ImageFile cpc_ImageFile_update),
      (''price'', field (decode_decimal T) cpc_Price cpc_Price_update)]"

definition create_product_zero :: create_product_command where
  "create_product_zero =
     \<lparr>cpc_Name = '''', cpc_Category = None, cpc_Description = '''', cpc_ImageFile = '''', cpc_Price = 0\<rparr>"

definition decode_update_product :: "texts \<Rightarrow> update_product_command decoder" where
  "decode_update_product T = decode_struct
     [(''id'', field (decode_uuid T) upc_ID upc_ID_update),
      (''name'', field decode_string upc_Name upc_Name_update),
      (''categories'', field (decode_nil_slice '''' decode_string) upc_Categories upc_Categories_update),
      (''description'', field decode_string upc_Description upc_Description_update),
      (''imageFile'', field decode_string upc_ImageFile upc_ImageFile_update),
      (''price'', field (decode_decimal T) upc_Price upc_Price_update)]"

definition update_product_zero :: update_product_command where
  "update_product_zero =
     \<lparr>upc_ID = uuid_nil, upc_Name = '''', upc_Categories = None, upc_Description = '''', upc_ImageFile = '''',
      upc_Price = 0\<rparr>"

definition CreateProductRoute ::
  "texts \<Rightarrow> (create_product_command \<Rightarrow> verdict) \<Rightarrow> 's cat_repo \<Rightarrow> string \<Rightarrow> request_body \<Rightarrow> ('s, response) act" where
  "CreateProductRoute T V repo traceID b =
     respond traceID
       (\<lambda>u. (respond_JSON 201 (JObj [(''id'', json_string (uuid_text T u))]))
              \<lparr>rs_Headers := [(''Location'', ''/products/'' @ uuid_text T u)]\<rparr>)
       (andthen (of_res (DecodeJSON (decode_create_product T) create_product_zero b))
          (Chain (CreateProduct repo) [Validating V]))"

definition UpdateProductRoute ::
  "texts \<Rightarrow> (update_product_command \<Rightarrow> verdict) \<Rightarrow> 's cat_repo \<Rightarrow> string \<Rightarrow> request_body \<Rightarrow> ('s, response) act" where
  "UpdateProductRoute T V repo traceID b =
     respond traceID (\<lambda>ok. respond_JSON 200 (JObj [(''isSuccess'', JBool ok)]))
       (andthen (of_res (DecodeJSON (decode_update_product T) update_product_zero b))
          (Chain (UpdateProduct repo) [Validating V]))"

text \<open>The id in a path.\<close>

definition product_id_param :: "texts \<Rightarrow> string \<Rightarrow> go_error + uuid" where
  "product_id_param T s =
     (case uuid_parse T s of
        None \<Rightarrow> Inl (BadRequest (Fmt ''product id must be a UUID'' []))
      | Some u \<Rightarrow> Inr u)"

definition DeleteProductRoute :: "texts \<Rightarrow> (uuid \<Rightarrow> verdict) \<Rightarrow> 's cat_repo \<Rightarrow> string \<Rightarrow> string \<Rightarrow> ('s, response) act" where
  "DeleteProductRoute T V repo traceID param =
     respond traceID (\<lambda>ok. respond_JSON 200 (JObj [(''isSuccess'', JBool ok)]))
       (andthen (of_res (product_id_param T param)) (Chain (DeleteProduct repo) [Validating V]))"

definition GetProductByIDRoute :: "texts \<Rightarrow> 's cat_repo \<Rightarrow> string \<Rightarrow> string \<Rightarrow> ('s, response) act" where
  "GetProductByIDRoute T repo traceID param =
     respond traceID (\<lambda>p. respond_JSON 200 (JObj [(''product'', cat_product_json T p)]))
       (andthen (of_res (product_id_param T param)) (Chain (GetProductByID repo) []))"

definition products_response :: "texts \<Rightarrow> cat_product list \<Rightarrow> response" where
  "products_response T ps = respond_JSON 200 (JObj [(''products'', JArr (map (cat_product_json T) ps))])"

definition GetProductByCategoryRoute :: "texts \<Rightarrow> 's cat_repo \<Rightarrow> string \<Rightarrow> string \<Rightarrow> ('s, response) act" where
  "GetProductByCategoryRoute T repo traceID category =
     respond traceID (products_response T) (Chain (GetProductByCategory repo) [] category)"

text \<open>The parameters of a query are a function of their names, empty for one that is absent.\<close>

definition GetProductsRoute :: "texts \<Rightarrow> 's cat_repo \<Rightarrow> string \<Rightarrow> (string \<Rightarrow> string) \<Rightarrow> ('s, response) act" where
  "GetProductsRoute T repo traceID params =
     respond traceID (products_response T)
       (Chain (GetProducts repo) []
          \<lparr>gpq_PageNumber = intQuery (params ''pageNumber'') 1,
           gpq_PageSize = intQuery (params ''pageSize'') DefaultPageSize\<rparr>)"

text \<open>The requests that \<open>RegisterRoutes\<close> mounts a route for.\<close>

datatype catalog_request =
    ListProducts "string \<Rightarrow> string"
  | PostProduct request_body
  | PutProduct request_body
  | ProductOf string
  | RemoveProduct string
  | ProductsIn string

fun catalog_routes ::
  "texts \<Rightarrow> (create_product_command \<Rightarrow> verdict) \<Rightarrow> (update_product_command \<Rightarrow> verdict) \<Rightarrow> (uuid \<Rightarrow> verdict)
     \<Rightarrow> 's cat_repo \<Rightarrow> string \<Rightarrow> catalog_request \<Rightarrow> ('s, response) act" where
  "catalog_routes T VC VU VD repo traceID (ListProducts params) = GetProductsRoute T repo traceID params"
| "catalog_routes T VC VU VD repo traceID (PostProduct b) = CreateProductRoute T VC repo traceID b"
| "catalog_routes T VC VU VD repo traceID (PutProduct b) = UpdateProductRoute T VU repo traceID b"
| "catalog_routes T VC VU VD repo traceID (ProductOf i) = GetProductByIDRoute T repo traceID i"
| "catalog_routes T VC VU VD repo traceID (RemoveProduct i) = DeleteProductRoute T VD repo traceID i"
| "catalog_routes T VC VU VD repo traceID (ProductsIn category) = GetProductByCategoryRoute T repo traceID category"

end
