(* ===== verification/Catalog_Facts.thy ===== *)
theory Catalog_Facts
  imports Catalog
begin

text \<open>
  Facts about the Catalog service: a product is read back from its document, the table is a map from ids to
  products that the handlers work on, and the pages of the list are the products in the order of their names.
\<close>

section \<open>Documents\<close>

definition encodable_product :: "cat_product \<Rightarrow> bool" where
  "encodable_product p \<longleftrightarrow>
     utf8_ok (pd_Name p) \<and> utf8_ok (pd_Description p) \<and> utf8_ok (pd_ImageFile p) \<and> is_decimal (pd_Price p) \<and>
     (case pd_Category p of None \<Rightarrow> True | Some cs \<Rightarrow> list_all utf8_ok cs)"

definition product_set :: "string \<Rightarrow> cat_product \<Rightarrow> cat_product \<Rightarrow> cat_product" where
  "product_set k p v =
     (if k = ''id'' then v\<lparr>pd_ID := pd_ID p\<rparr>
      else if k = ''name'' then v\<lparr>pd_Name := pd_Name p\<rparr>
      else if k = ''category'' then v\<lparr>pd_Category := pd_Category p\<rparr>
      else if k = ''description'' then v\<lparr>pd_Description := pd_Description p\<rparr>
      else if k = ''imageFile'' then v\<lparr>pd_ImageFile := pd_ImageFile p\<rparr>
      else v\<lparr>pd_Price := pd_Price p\<rparr>)"

lemma product_set_commutes: "product_set k p \<circ> product_set l p = product_set l p \<circ> product_set k p"
  by (rule ext) (simp add: product_set_def)

lemma decode_nil_slice_json:
  "(\<And>xs x. cs = Some xs \<Longrightarrow> x \<in> set xs \<Longrightarrow> dec (enc x) zero = Inr x) \<Longrightarrow>
     decode_nil_slice zero dec (nil_slice_json enc cs) old = Inr cs"
  by (cases cs) (simp_all add: decode_nil_slice_def nil_slice_json_def decode_slice_json)

lemma product_member_decodes:
  assumes "texts_ok T" "encodable_product p" "(k, j) \<in> set (cat_product_members T p)"
  shows "\<exists>d. find_field (cat_product_fields T) k = Some d \<and> d j v = Inr (product_set k p v)"
proof -
  have cat: "decode_nil_slice '''' decode_string (nil_slice_json json_string (pd_Category p)) old
      = Inr (pd_Category p)" for old
    by (rule decode_nil_slice_json) (use assms(2) in \<open>auto simp: encodable_product_def list_all_iff\<close>)
  have "list_all (\<lambda>(k, j). \<exists>d. find_field (cat_product_fields T) k = Some d \<and>
      d j v = Inr (product_set k p v)) (cat_product_members T p)"
    using assms(1,2)
    by (simp add: cat_product_members_def cat_product_fields_def find_field_def field_def encodable_product_def
        product_set_def cat)
  with assms(3) show ?thesis by (simp only: list_all_iff) fast
qed

lemma decode_product:
  assumes "texts_ok T" "encodable_product p" "reordered (cat_product_json T p) j"
  shows "decode_cat_product T j cat_product_zero = Inr p"
proof -
  have "distinct (map fst (cat_product_members T p))" by (simp add: cat_product_members_def)
  with assms(3) obtain ns where j: "j = JObj ns" "mset (cat_product_members T p) = mset ns"
    by (cases j) (auto simp: reordered_def cat_product_json_def)
  have "decode_struct (cat_product_fields T) (JObj ns) cat_product_zero
      = Inr (fold (\<lambda>m. product_set (fst m) p) (cat_product_members T p) cat_product_zero)"
    by (rule decode_reordered [OF j(2) product_set_commutes])
      (use product_member_decodes [OF assms(1,2)] in simp)
  then show ?thesis
    by (cases p) (simp add: decode_cat_product_def j(1) cat_product_members_def cat_product_zero_def product_set_def)
qed

lemma product_member:
  assumes "reordered (cat_product_json T p) j" "(k, v) \<in> set (cat_product_members T p)"
  shows "pg_member j k = Some v"
proof -
  have d: "distinct (map fst (cat_product_members T p))" by (simp add: cat_product_members_def)
  with assms(1) obtain ns where j: "j = JObj ns" "mset (cat_product_members T p) = mset ns"
    by (cases j) (auto simp: reordered_def cat_product_json_def)
  from j(2) have "set ns = set (cat_product_members T p)" by (metis set_mset_mset)
  moreover from j(2) have "mset (map fst ns) = mset (map fst (cat_product_members T p))" by simp
  with d have "distinct (map fst ns)" by (metis mset_eq_imp_distinct_iff)
  ultimately show ?thesis using assms(2) by (simp add: pg_member_def j(1))
qed

section \<open>The table as a map\<close>

text \<open>Every row's document is one that was written for a product with the row's id.\<close>

definition row_of :: "texts \<Rightarrow> uuid \<times> json \<Rightarrow> cat_product \<Rightarrow> bool" where
  "row_of T r p \<longleftrightarrow> encodable_product p \<and> pd_ID p = fst r \<and> reordered (cat_product_json T p) (snd r)"

definition catalog_ok :: "texts \<Rightarrow> catalog_db \<Rightarrow> bool" where
  "catalog_ok T db \<longleftrightarrow> distinct (map fst (Products db)) \<and> (\<forall>r \<in> set (Products db). \<exists>p. row_of T r p)"

definition product_at :: "texts \<Rightarrow> json \<Rightarrow> cat_product option" where
  "product_at T j = (case decode_cat_product T j cat_product_zero of Inl e \<Rightarrow> None | Inr p \<Rightarrow> Some p)"

definition catalog_map :: "texts \<Rightarrow> catalog_db \<Rightarrow> uuid \<rightharpoonup> cat_product" where
  "catalog_map T db i = Option.bind (map_of (Products db) i) (product_at T)"

lemma row_decodes: "texts_ok T \<Longrightarrow> row_of T r p \<Longrightarrow> decode_cat_product T (snd r) cat_product_zero = Inr p"
  by (simp add: row_of_def decode_product)

lemma map_of_put_row: "map_of (put_row i j rs) = (map_of rs)(i \<mapsto> j)"
  by (induction rs) auto

lemma put_row_keys: "fst ` set (put_row i j rs) = insert i (fst ` set rs)"
  by (induction rs) auto

lemma put_row_distinct: "distinct (map fst rs) \<Longrightarrow> distinct (map fst (put_row i j rs))"
  by (induction rs) (auto simp: put_row_keys)

lemma put_row_set: "set (put_row i j rs) \<subseteq> insert (i, j) (set rs)"
  by (induction rs) auto

lemma map_of_filter_key: "map_of (filter (\<lambda>r. fst r \<noteq> i) rs) = (map_of rs)(i := None)"
  by (induction rs) auto

text \<open>What the statements do to the map.\<close>

definition storable_product :: "'a catalog_pg_scheme \<Rightarrow> texts \<Rightarrow> cat_product \<Rightarrow> bool" where
  "storable_product P T p \<longleftrightarrow> encodable_product p \<and> pg_jsonb P (cat_product_json T p) \<noteq> None"

lemma upsert_facts:
  assumes "texts_ok T" "postgres_ok (postgres.truncate P)" "storable_product P T p"
    "catalog_ok T db"
  obtains db' where "put_product_stmt P (pd_ID p) (cat_product_json T p) t db = (Inr (), db')"
    "catalog_ok T db'" "catalog_map T db' = (catalog_map T db)(pd_ID p \<mapsto> p)"
proof -
  from assms(3) obtain j where j: "pg_jsonb P (cat_product_json T p) = Some j" "encodable_product p"
    by (auto simp: storable_product_def)
  with assms(2) have r: "reordered (cat_product_json T p) j"
    by (simp add: postgres_ok_def postgres.truncate_def)
  let ?db = "db\<lparr>Products := put_row (pd_ID p) j (Products db)\<rparr>"
  have "row_of T (pd_ID p, j) p" using j(2) r by (simp add: row_of_def)
  with assms(4) have "catalog_ok T ?db"
    using put_row_set [of "pd_ID p" j "Products db"] by (fastforce simp: catalog_ok_def put_row_distinct)
  moreover have "catalog_map T ?db = (catalog_map T db)(pd_ID p \<mapsto> p)"
    using decode_product [OF assms(1) j(2) r] by (auto simp: catalog_map_def map_of_put_row product_at_def)
  moreover have "put_product_stmt P (pd_ID p) (cat_product_json T p) t db = (Inr (), ?db)"
    by (simp add: put_product_stmt_def j(1))
  ultimately show ?thesis using that by blast
qed

lemma delete_facts:
  assumes "catalog_ok T db"
  shows "catalog_ok T (db\<lparr>Products := filter (\<lambda>r. fst r \<noteq> i) (Products db)\<rparr>)"
    "catalog_map T (db\<lparr>Products := filter (\<lambda>r. fst r \<noteq> i) (Products db)\<rparr>) = (catalog_map T db)(i := None)"
  using assms by (auto simp: catalog_ok_def distinct_map_filter catalog_map_def map_of_filter_key fun_eq_iff)

lemma lookup_facts:
  assumes "texts_ok T" "catalog_ok T db"
  shows "product_by_id_stmt T i t db
    = ((case catalog_map T db i of None \<Rightarrow> Inl NoRows | Some p \<Rightarrow> Inr p), db)"
    "catalog_map T db i = Some p \<Longrightarrow> pd_ID p = i \<and> encodable_product p"
proof -
  have r: "\<exists>p. row_of T (i, j) p \<and> decode_cat_product T j cat_product_zero = Inr p"
    if "map_of (Products db) i = Some j" for j
  proof -
    from map_of_SomeD [OF that] assms(2) obtain p where "row_of T (i, j) p" by (auto simp: catalog_ok_def)
    with row_decodes [OF assms(1) this] show ?thesis by auto
  qed
  show "product_by_id_stmt T i t db
    = ((case catalog_map T db i of None \<Rightarrow> Inl NoRows | Some p \<Rightarrow> Inr p), db)"
    using r by (fastforce simp: product_by_id_stmt_def catalog_map_def product_at_def split: option.split)
  show "catalog_map T db i = Some p \<Longrightarrow> pd_ID p = i \<and> encodable_product p"
    using r by (fastforce simp: catalog_map_def product_at_def row_of_def bind_eq_Some_conv)
qed

section \<open>The service as a map\<close>

datatype catalog_op =
    CreateOp create_product_command
  | UpdateOp update_product_command
  | DeleteOp uuid
  | ReadOp uuid

datatype catalog_answer = Failed kind | Assigned uuid | Succeeded bool | Returned cat_product

text \<open>The specification; \<open>u\<close> is the id that is drawn for a new product.\<close>

fun catalog_spec ::
  "uuid \<Rightarrow> catalog_op \<Rightarrow> (uuid \<rightharpoonup> cat_product) \<Rightarrow> catalog_answer \<times> (uuid \<rightharpoonup> cat_product)" where
  "catalog_spec u (CreateOp c) a = (Assigned u, a(u \<mapsto> created_product u c))"
| "catalog_spec u (UpdateOp c) a =
     (case a (upc_ID c) of
        None \<Rightarrow> (Failed KindNotFound, a)
      | Some p \<Rightarrow> (Succeeded True, a(upc_ID c \<mapsto> updated_product c p)))"
| "catalog_spec u (DeleteOp i) a = (Succeeded True, a(i := None))"
| "catalog_spec u (ReadOp i) a =
     (case a i of None \<Rightarrow> (Failed KindNotFound, a) | Some p \<Rightarrow> (Returned p, a))"

text \<open>A handler's answer, an error reduced to its kind.\<close>

definition answered :: "('b \<Rightarrow> catalog_answer) \<Rightarrow> ('s, 'b) act \<Rightarrow> ('s, catalog_answer) act" where
  "answered f m = andthen (attempt m) (\<lambda>r. ret (case r of Inl e \<Rightarrow> Failed (KindOf e) | Inr x \<Rightarrow> f x))"

fun catalog_serve :: "catalog_pg \<Rightarrow> texts \<Rightarrow> catalog_op \<Rightarrow> (catalog_db, catalog_answer) act" where
  "catalog_serve P T (CreateOp c) = answered Assigned (CreateProduct (pg_catalog P T) c)"
| "catalog_serve P T (UpdateOp c) = answered Succeeded (UpdateProduct (pg_catalog P T) c)"
| "catalog_serve P T (DeleteOp i) = answered Succeeded (DeleteProduct (pg_catalog P T) i)"
| "catalog_serve P T (ReadOp i) = answered Returned (GetProductByID (pg_catalog P T) i)"

text \<open>What is written can be stored.\<close>

fun op_storable :: "catalog_pg \<Rightarrow> texts \<Rightarrow> uuid \<Rightarrow> catalog_op \<Rightarrow> bool" where
  "op_storable P T u (CreateOp c) = storable_product P T (created_product u c)"
| "op_storable P T u (UpdateOp c) = storable_product P T (updated_product c (cat_product_zero\<lparr>pd_ID := upc_ID c\<rparr>))"
| "op_storable P T u (DeleteOp i) = True"
| "op_storable P T u (ReadOp i) = True"

text \<open>The two outcomes of an operation: as specified, or failed with the change made or not.\<close>

definition serves ::
  "texts \<Rightarrow> env \<Rightarrow> catalog_db \<Rightarrow> catalog_op \<Rightarrow> catalog_answer \<Rightarrow> catalog_db \<Rightarrow> bool" where
  "serves T E db req q db' \<longleftrightarrow>
     catalog_ok T db' \<and>
     (let spec = catalog_spec (rnd E (drawn E)) req (catalog_map T db) in
      (q, catalog_map T db') = spec \<or>
      outcomes E \<noteq> [] \<and> q = Failed KindInternal \<and> catalog_map T db' \<in> {catalog_map T db, snd spec})"

lemma catalog_KindOf [simp]:
  "KindOf (Wrapped m (DriverError f)) = KindInternal" "KindOf (NotFound n k) = KindNotFound"
  by (simp_all add: KindOf_def NotFound_def)

lemma answered_run: "answered f m w = (q, w') \<longleftrightarrow>
    (\<exists>r. m w = (r, w') \<and> q = Inr (case r of Inl e \<Rightarrow> Failed (KindOf e) | Inr x \<Rightarrow> f x))"
  by (cases "m w") (auto simp: answered_def andthen_def attempt_def)

lemma catalog_ByID_run:
  assumes "texts_ok T" "catalog_ok T db" "catalog_ByID T i (E, db) = (r, E', db')"
  shows "db' = db \<and> (r = (case catalog_map T db i of None \<Rightarrow> Inl (NotFound ''Product'' (ArgUuid i)) | Some p \<Rightarrow> Inr p) \<or>
    outcomes E \<noteq> [] \<and> (\<exists>m f. r = Inl (Wrapped m (DriverError f))))"
proof -
  obtain q E1 db1 where c: "call (product_by_id_stmt T i) (E, db) = (q, E1, db1)"
    by (cases "call (product_by_id_stmt T i) (E, db)") auto
  note s = lookup_facts(1) [OF assms(1,2), of i]
  from c show ?thesis
  proof (cases rule: call_outcomes)
    case 1
    with c s assms(3) show ?thesis
      by (auto simp: catalog_ByID_def attempt_eval fail_def ret_def split: option.splits)
  next
    case (2 f)
    with c s assms(3) show ?thesis by (auto simp: catalog_ByID_def attempt_eval fail_def)
  qed
qed

lemma catalog_ByID_env:
  "catalog_ByID T i (E, db) = (r, E', db') \<Longrightarrow> outcomes E = [] \<Longrightarrow> E' = E"
  by (auto simp: catalog_ByID_def product_by_id_stmt_def attempt_eval call_ok andthen_def attempt_def fail_def ret_def
      split: sum.splits if_splits)

lemma catalog_Store_run:
  assumes "texts_ok T" "postgres_ok (postgres.truncate P)" "catalog_ok T db" "storable_product P T p"
    "catalog_Store P T p (E, db) = (r, E', db')"
  shows "catalog_ok T db' \<and>
    (r = Inr () \<and> catalog_map T db' = (catalog_map T db)(pd_ID p \<mapsto> p) \<or>
     outcomes E \<noteq> [] \<and> (\<exists>m f. r = Inl (Wrapped m (DriverError f))) \<and>
       catalog_map T db' \<in> {catalog_map T db, (catalog_map T db)(pd_ID p \<mapsto> p)})"
proof -
  obtain q E1 db1 where c: "call (put_product_stmt P (pd_ID p) (cat_product_json T p)) (E, db) = (q, E1, db1)"
    by (cases "call (put_product_stmt P (pd_ID p) (cat_product_json T p)) (E, db)") auto
  obtain db2 where s: "put_product_stmt P (pd_ID p) (cat_product_json T p) (now E) db = (Inr (), db2)"
    "catalog_ok T db2" "catalog_map T db2 = (catalog_map T db)(pd_ID p \<mapsto> p)"
    using upsert_facts [OF assms(1,2,4,3)] by blast
  from c show ?thesis
  proof (cases rule: call_outcomes)
    case 1
    with c s assms(5) show ?thesis by (auto simp: catalog_Store_def on_err_def)
  next
    case (2 f)
    with c s assms(3,5) show ?thesis by (auto simp: catalog_Store_def on_err_def)
  qed
qed

lemma pg_catalog_sel [simp]:
  "ct_List (pg_catalog P T) = catalog_List P T" "ct_ByID (pg_catalog P T) = catalog_ByID T"
  "ct_ByCategory (pg_catalog P T) = catalog_ByCategory P T" "ct_Store (pg_catalog P T) = catalog_Store P T"
  "ct_Delete (pg_catalog P T) = catalog_Delete"
  by (simp_all add: pg_catalog_def)

lemma Create_serves:
  assumes "texts_ok T" "postgres_ok (postgres.truncate P)" "catalog_ok T db"
    "op_storable P T (rnd E (drawn E)) (CreateOp c)" "catalog_serve P T (CreateOp c) (E, db) = (Inr q, E', db')"
  shows "serves T E db (CreateOp c) q db'"
proof -
  let ?p = "created_product (rnd E (drawn E)) c"
  obtain r E1 db1 where c: "catalog_Store P T ?p (E\<lparr>drawn := Suc (drawn E)\<rparr>, db) = (r, E1, db1)"
    by (cases "catalog_Store P T ?p (E\<lparr>drawn := Suc (drawn E)\<rparr>, db)") auto
  have "storable_product P T ?p" using assms(4) by simp
  note s = catalog_Store_run [OF assms(1-3) this c]
  have "pd_ID ?p = rnd E (drawn E)" by (simp add: created_product_def)
  with s c assms(5) show ?thesis
    by (auto simp: answered_run CreateProduct_def andthen_def new_uuid_def serves_def ret_def)
qed

lemma Update_serves:
  assumes "texts_ok T" "postgres_ok (postgres.truncate P)" "catalog_ok T db"
    "op_storable P T u (UpdateOp c)" "catalog_serve P T (UpdateOp c) (E, db) = (Inr q, E', db')"
  shows "serves T E db (UpdateOp c) q db'"
proof -
  obtain r E1 db1 where l: "catalog_ByID T (upc_ID c) (E, db) = (r, E1, db1)"
    by (cases "catalog_ByID T (upc_ID c) (E, db)") auto
  note b = catalog_ByID_run [OF assms(1,3) l]
  show ?thesis
  proof (cases r)
    case (Inl e)
    with b l assms(3,5) show ?thesis
      by (auto simp: answered_run UpdateProduct_def andthen_def serves_def split: option.splits)
  next
    case (Inr p)
    with b have p: "catalog_map T db (upc_ID c) = Some p" "db1 = db" by (auto split: option.splits)
    note i = lookup_facts(2) [OF assms(1,3) p(1)]
    let ?p = "updated_product c p"
    have e: "?p = updated_product c (cat_product_zero\<lparr>pd_ID := upc_ID c\<rparr>)" "pd_ID ?p = upc_ID c"
      using i by (simp_all add: updated_product_def)
    then have s: "storable_product P T ?p" using assms(4) by simp
    obtain w E2 db2 where st: "catalog_Store P T ?p (E1, db) = (w, E2, db2)"
      by (cases "catalog_Store P T ?p (E1, db)") auto
    have o: "outcomes E1 \<noteq> [] \<longrightarrow> outcomes E \<noteq> []" using catalog_ByID_env [OF l] by auto
    from catalog_Store_run [OF assms(1-3) s st] e(2) p l st Inr o assms(5) show ?thesis
      by (auto simp: answered_run UpdateProduct_def andthen_def serves_def ret_def)
  qed
qed

lemma Delete_serves:
  assumes "catalog_ok T db" "catalog_serve P T (DeleteOp i) (E, db) = (Inr q, E', db')"
  shows "serves T E db (DeleteOp i) q db'"
proof -
  let ?s = "\<lambda>(t::time) db. (Inr () :: go_error + unit, db\<lparr>Products := filter (\<lambda>r. fst r \<noteq> i) (Products db)\<rparr>)"
  obtain r E1 db1 where c: "call ?s (E, db) = (r, E1, db1)" by (cases "call ?s (E, db)") auto
  note d = delete_facts [OF assms(1), of i]
  from c show ?thesis
  proof (cases rule: call_outcomes)
    case 1
    with c d assms(2) show ?thesis
      by (auto simp: answered_run DeleteProduct_def catalog_Delete_def update_def on_err_def andthen_def serves_def ret_def)
  next
    case (2 f)
    with c d assms show ?thesis
      by (auto simp: answered_run DeleteProduct_def catalog_Delete_def update_def on_err_def andthen_def serves_def ret_def)
  qed
qed

lemma Read_serves:
  assumes "texts_ok T" "catalog_ok T db" "catalog_serve P T (ReadOp i) (E, db) = (Inr q, E', db')"
  shows "serves T E db (ReadOp i) q db'"
proof -
  obtain r E1 db1 where l: "catalog_ByID T i (E, db) = (r, E1, db1)" by (cases "catalog_ByID T i (E, db)") auto
  from catalog_ByID_run [OF assms(1,2) l] l assms(2,3) show ?thesis
    by (auto simp: answered_run GetProductByID_def serves_def split: option.splits)
qed

section \<open>Properties\<close>

text \<open>
  C38. The catalog is a map from ids to products, whatever order the server keeps the members of a document in:
  creating adds a product under a new id, updating replaces all fields of one that is there and is a 404 for
  one that is not, deleting removes it, and a read returns what was written last. Only when a call to the database
  failed is the answer an internal error, and then the change was made or not.
\<close>

theorem catalog_is_a_map:
  assumes "texts_ok T" "postgres_ok (postgres.truncate P)" "catalog_ok T db"
    "op_storable P T (rnd E (drawn E)) req"
  shows "\<exists>q E' db'. catalog_serve P T req (E, db) = (Inr q, E', db') \<and> catalog_ok T db' \<and>
    (if (q, catalog_map T db') = catalog_spec (rnd E (drawn E)) req (catalog_map T db) then True
     else outcomes E \<noteq> [] \<and> q = Failed KindInternal \<and>
       catalog_map T db' \<in> {catalog_map T db, snd (catalog_spec (rnd E (drawn E)) req (catalog_map T db))})"
proof -
  obtain q E' db' where r: "catalog_serve P T req (E, db) = (Inr q, E', db')"
    by (cases "catalog_serve P T req (E, db)"; cases req) (auto simp: answered_run)
  have "serves T E db req q db'"
  proof (cases req)
    case (CreateOp c)
    with Create_serves [OF assms(1-3)] assms(4) r show ?thesis by blast
  next
    case (UpdateOp c)
    with Update_serves [OF assms(1-3)] assms(4) r show ?thesis by blast
  next
    case (DeleteOp i)
    with Delete_serves [OF assms(3)] r show ?thesis by blast
  next
    case (ReadOp i)
    with Read_serves [OF assms(1,3)] r show ?thesis by blast
  qed
  with r show ?thesis by (auto simp: serves_def Let_def)
qed

definition sample_catalog_pg :: catalog_pg where
  "sample_catalog_pg = postgres.extend sample_pg \<lparr>pg_rank = (\<lambda>s. of_nat (length s)), pg_show = (\<lambda>j. '''')\<rparr>"

lemma sample_catalog_pg_truncate [simp]: "postgres.truncate sample_catalog_pg = sample_pg"
  by (simp add: sample_catalog_pg_def postgres.defs sample_pg_def)

lemma sample_catalog_pg_jsonb [simp]: "pg_jsonb sample_catalog_pg = Some"
  by (simp add: sample_catalog_pg_def postgres.defs sample_pg_def)

definition sample_product :: create_product_command where
  "sample_product =
     \<lparr>cpc_Name = ''Pen'', cpc_Category = Some [''Office''], cpc_Description = '''', cpc_ImageFile = ''p'', cpc_Price = 2\<rparr>"

theorem catalog_is_a_map_witness:
  "\<exists>E' db'. catalog_serve sample_catalog_pg sample_texts (CreateOp sample_product) (sample_env, catalog_db_empty)
       = (Inr (Assigned (rnd sample_env (drawn sample_env))), E', db') \<and>
     catalog_map sample_texts db' = [rnd sample_env (drawn sample_env) \<mapsto>
       created_product (rnd sample_env (drawn sample_env)) sample_product]"
proof -
  have d: "is_decimal 2" using is_decimal_int [of 2] by simp
  have "op_storable sample_catalog_pg sample_texts u (CreateOp sample_product)" for u
    using d by (simp add: storable_product_def encodable_product_def created_product_def sample_product_def
        utf8_ok_ascii ascii_def byte_in_def)
  moreover have "catalog_ok sample_texts catalog_db_empty" by (simp add: catalog_ok_def catalog_db_empty_def)
  moreover have "catalog_map sample_texts catalog_db_empty = Map.empty"
    by (simp add: catalog_map_def catalog_db_empty_def fun_eq_iff)
  ultimately show ?thesis
    using catalog_is_a_map [of sample_texts sample_catalog_pg catalog_db_empty sample_env "CreateOp sample_product"]
      sample_texts_ok sample_pg_ok
    by (auto split: if_splits simp: sample_env_def)
qed

section \<open>The list of products\<close>

text \<open>The products in the order of the rows.\<close>

definition products_by_name :: "catalog_pg \<Rightarrow> texts \<Rightarrow> catalog_db \<Rightarrow> cat_product list" where
  "products_by_name P T db = map (\<lambda>r. the (product_at T (snd r))) (by_name P (Products db))"

lemma row_product:
  assumes "texts_ok T" "catalog_ok T db" "r \<in> set (Products db)"
  obtains p where "decode_cat_product T (snd r) cat_product_zero = Inr p" "product_at T (snd r) = Some p"
    "pd_ID p = fst r" "name_key P r = (Ranked (pg_rank P (pd_Name p)), fst r)"
proof -
  from assms(2,3) obtain p where p: "row_of T r p" by (auto simp: catalog_ok_def)
  have "(''name'', json_string (pd_Name p)) \<in> set (cat_product_members T p)" by (simp add: cat_product_members_def)
  with p have "pg_member (snd r) ''name'' = Some (json_string (pd_Name p))" "utf8_ok (pd_Name p)"
    by (auto simp: row_of_def encodable_product_def product_member)
  then have "name_key P r = (Ranked (pg_rank P (pd_Name p)), fst r)"
    by (simp add: name_key_def pg_member_text_def json_string_def)
  with that row_decodes [OF assms(1) p] p show ?thesis by (simp add: product_at_def row_of_def)
qed

lemma products_by_name_facts:
  assumes "texts_ok T" "catalog_ok T db"
  shows "set (products_by_name P T db) = ran (catalog_map T db)"
    "distinct (map pd_ID (products_by_name P T db))"
    "sorted (map (\<lambda>p. pg_rank P (pd_Name p)) (products_by_name P T db))"
proof -
  let ?rows = "by_name P (Products db)"
  let ?at = "\<lambda>r. the (product_at T (snd r))"
  have s: "set ?rows = set (Products db)" "distinct (map fst ?rows)"
    using assms(2) by (auto simp: by_name_def catalog_ok_def distinct_map)
  have at: "product_at T (snd r) = Some (?at r)" "pd_ID (?at r) = fst r"
    "name_key P r = (Ranked (pg_rank P (pd_Name (?at r))), fst r)" if "r \<in> set ?rows" for r
    using that s(1) by (auto elim!: row_product [OF assms, of r P])
  have "map pd_ID (products_by_name P T db) = map fst ?rows"
    using at(2) by (simp add: products_by_name_def)
  with s(2) show "distinct (map pd_ID (products_by_name P T db))" by simp
  have m: "map_of (Products db) i = Some j \<longleftrightarrow> (i, j) \<in> set (Products db)" for i j
    using assms(2) by (simp add: catalog_ok_def map_of_eq_Some_iff)
  have "set (products_by_name P T db) = ?at ` set (Products db)"
    by (simp add: products_by_name_def s(1))
  also have "\<dots> = ran (catalog_map T db)"
  proof (intro equalityI subsetI)
    fix p
    assume "p \<in> ?at ` set (Products db)"
    then obtain r where r: "r \<in> set (Products db)" "p = ?at r" by blast
    then have "catalog_map T db (fst r) = Some p"
      using at(1) [of r] m [of "fst r" "snd r"] s(1) by (simp add: catalog_map_def)
    then show "p \<in> ran (catalog_map T db)" by (auto simp: ran_def)
  next
    fix p
    assume "p \<in> ran (catalog_map T db)"
    then obtain i j where "(i, j) \<in> set (Products db)" "product_at T j = Some p"
      by (auto simp: ran_def catalog_map_def bind_eq_Some_conv m)
    then show "p \<in> ?at ` set (Products db)" by (intro image_eqI [of _ _ "(i, j)"]) simp_all
  qed
  finally show "set (products_by_name P T db) = ran (catalog_map T db)" .
  have "sorted (map (name_key P) ?rows)" by (simp add: by_name_def)
  then have "sorted_wrt (\<lambda>r r'. name_key P r \<le> name_key P r') ?rows" by (simp add: sorted_map)
  then have "sorted_wrt (\<lambda>r r'. pg_rank P (pd_Name (?at r)) \<le> pg_rank P (pd_Name (?at r'))) ?rows"
    by (rule sorted_wrt_mono_rel [rotated]) (auto simp: at(3) less_eq_prod_def less_sort_value_def)
  then show "sorted (map (\<lambda>p. pg_rank P (pd_Name p)) (products_by_name P T db))"
    by (simp add: products_by_name_def sorted_map sorted_wrt_map)
qed

lemma collect_page:
  assumes "texts_ok T" "catalog_ok T db" "outcomes E = []" "set rows \<subseteq> set (Products db)"
    and "stmt (now E) db = (Inr (map snd rows), db)"
  shows "collect_rows T (call stmt) (E, db) = (Inr (map (\<lambda>r. the (product_at T (snd r))) rows), E, db)"
proof -
  have "map_err (\<lambda>r. map_left (Wrapped (Fmt ''decoding product row'' [])) (decode_cat_product T (snd r) cat_product_zero)) rows
      = Inr (map (\<lambda>r. the (product_at T (snd r))) rows)"
    by (rule map_err_all) (use assms(4) in \<open>auto elim!: row_product [OF assms(1,2)]\<close>)
  then show ?thesis
    using assms(3,5) by (simp add: collect_rows_def call_ok andthen_def on_err_def map_err_map of_res_def)
qed

lemma GetProducts_page:
  assumes "texts_ok T" "catalog_ok T db" "outcomes E = []" "j < 2 ^ 56"
  shows "GetProducts (pg_catalog P T) \<lparr>gpq_PageNumber = word_of_int (int j + 1), gpq_PageSize = n\<rparr> (E, db)
    = (let l = nat (sint (Limit \<lparr>PageIndex = i, PageSize = n\<rparr>)) in
       Inr (take l (drop (j * l) (products_by_name P T db))), E, db)"
proof -
  let ?l = "nat (sint (Limit \<lparr>PageIndex = i, PageSize = n\<rparr>))"
  let ?r = "\<lparr>PageIndex = word_of_int (int j), PageSize = n\<rparr>"
  let ?rows = "take ?l (drop (j * ?l) (by_name P (Products db)))"
  have s: "page_stmt P ?r (now E) db = (Inr (map snd ?rows), db)"
    using page_at(1) [OF assms(4), of n] page_at(2) [OF assms(4), of n "by_name P (Products db)" i]
    by (simp only: page_stmt_def Let_def) simp
  have "set ?rows \<subseteq> set (Products db)"
    by (auto simp: by_name_def dest!: in_set_takeD in_set_dropD)
  from collect_page [where stmt = "page_stmt P ?r", OF assms(1-3) this s]
  show ?thesis
    by (simp add: GetProducts_def catalog_List_def andthen_def on_err_def query_ok assms(3) ret_def
        products_by_name_def take_map drop_map Let_def)
qed

text \<open>
  C39. Going through the pages of the product list misses nothing and repeats nothing: there is one list of all the
  products that are stored, each once, in the order of their names, and the pages that are answered, put together,
  are its beginning. The page size that is asked for is limited, the page number is exact up to 2^56.
\<close>

theorem catalog_pages:
  assumes "texts_ok T" "catalog_ok T db" "outcomes E = []" "k \<le> 2 ^ 56"
  shows "\<exists>ps pages. set ps = ran (catalog_map T db) \<and> distinct (map pd_ID ps) \<and>
    sorted (map (\<lambda>p. pg_rank P (pd_Name p)) ps) \<and>
    map (\<lambda>j. fst (GetProducts (pg_catalog P T) \<lparr>gpq_PageNumber = word_of_int (int j + 1), gpq_PageSize = n\<rparr> (E, db)))
      [0..<k] = map Inr pages \<and>
    concat pages = take (k * nat (sint (Limit \<lparr>PageIndex = 0, PageSize = n\<rparr>))) ps"
proof -
  let ?l = "nat (sint (Limit \<lparr>PageIndex = 0, PageSize = n\<rparr>))"
  let ?ps = "products_by_name P T db"
  let ?pages = "map (\<lambda>j. take ?l (drop (j * ?l) ?ps)) [0..<k]"
  have "map (\<lambda>j. fst (GetProducts (pg_catalog P T)
      \<lparr>gpq_PageNumber = word_of_int (int j + 1), gpq_PageSize = n\<rparr> (E, db))) [0..<k] = map Inr ?pages"
    using GetProducts_page [OF assms(1-3), of _ P n 0] assms(4) by (simp add: Let_def)
  with products_by_name_facts [OF assms(1,2), of P] pages_cover [of ?l ?ps k] show ?thesis by blast
qed

definition sample_catalog_db :: catalog_db where
  "sample_catalog_db = \<lparr>Products = [(7, cat_product_json sample_texts (created_product 7 sample_product))]\<rparr>"

lemma sample_catalog_db_ok: "catalog_ok sample_texts sample_catalog_db"
proof -
  have "is_decimal 2" using is_decimal_int [of 2] by simp
  then have "row_of sample_texts (7, cat_product_json sample_texts (created_product 7 sample_product))
      (created_product 7 sample_product)"
    by (simp add: row_of_def encodable_product_def created_product_def sample_product_def reordered_same
        utf8_ok_ascii ascii_def byte_in_def)
  then show ?thesis by (auto simp: catalog_ok_def sample_catalog_db_def)
qed

theorem catalog_pages_witness:
  "\<exists>ps pages. set ps = ran (catalog_map sample_texts sample_catalog_db) \<and>
    map (\<lambda>j. fst (GetProducts (pg_catalog sample_catalog_pg sample_texts)
      \<lparr>gpq_PageNumber = word_of_int (int j + 1), gpq_PageSize = 10\<rparr> (sample_env, sample_catalog_db))) [0..<2] = map Inr pages \<and>
    concat pages = take (2 * nat (sint (Limit \<lparr>PageIndex = 0, PageSize = 10\<rparr>))) ps"
  using catalog_pages [of sample_texts sample_catalog_db sample_env 2 sample_catalog_pg 10]
    sample_texts_ok sample_catalog_db_ok
  by (auto simp: sample_env_def)

section \<open>An update that races a delete\<close>

text \<open>
  An update loads the product before it stores it, and its store adds the row when there is none: a product that
  is deleted in between is there again.
\<close>

lemma racing_update_resurrects:
  assumes "texts_ok T" "postgres_ok (postgres.truncate P)" "catalog_ok T db" "outcomes E = []"
    "catalog_map T db i = Some p" "storable_product P T (updated_product c p)"
  shows "\<exists>db1 db2. ct_ByID (pg_catalog P T) i (E, db) = (Inr p, E, db) \<and>
    DeleteProduct (pg_catalog P T) i (E, db) = (Inr True, E, db1) \<and> catalog_map T db1 i = None \<and>
    ct_Store (pg_catalog P T) (updated_product c p) (E, db1) = (Inr (), E, db2) \<and>
    catalog_map T db2 i = Some (updated_product c p)"
proof -
  let ?db1 = "db\<lparr>Products := filter (\<lambda>r. fst r \<noteq> i) (Products db)\<rparr>"
  note d = delete_facts [OF assms(3), of i]
  have i: "pd_ID (updated_product c p) = i"
    using lookup_facts(2) [OF assms(1,3,5)] by (simp add: updated_product_def)
  obtain db2 where s: "put_product_stmt P i (cat_product_json T (updated_product c p)) (now E) ?db1 = (Inr (), db2)"
    "catalog_map T db2 = (catalog_map T ?db1)(i \<mapsto> updated_product c p)"
    using upsert_facts [OF assms(1,2,6) d(1)] i by metis
  have "catalog_ByID T i (E, db) = (Inr p, E, db)"
    using lookup_facts(1) [OF assms(1,3)] assms(4,5)
    by (simp add: catalog_ByID_def attempt_eval call_ok ret_def)
  moreover have "DeleteProduct (pg_catalog P T) i (E, db) = (Inr True, E, ?db1)"
    by (simp add: DeleteProduct_def catalog_Delete_def update_ok assms(4) andthen_def on_err_def ret_def)
  moreover have "catalog_Store P T (updated_product c p) (E, ?db1) = (Inr (), E, db2)"
    using s(1) by (simp add: catalog_Store_def call_ok assms(4) on_err_def i)
  ultimately show ?thesis using d(2) s(2) by auto
qed

text \<open>A page number beyond what \<open>Offset\<close> can express is an internal error.\<close>

lemma huge_page_number_fails:
  "outcomes E = [] \<Longrightarrow>
     fst (GetProducts (pg_catalog P T) \<lparr>gpq_PageNumber = 2 ^ 62 + 1, gpq_PageSize = 10\<rparr> (E, db))
     = Inl (Wrapped (Fmt ''reading product rows'' []) pg_negative_offset)"
  by (simp add: GetProducts_def catalog_List_def collect_rows_def page_stmt_def Offset_def Normalized_def
      MaxPageSize_def DefaultPageSize_def Let_def word_sless_alt word_sle_eq andthen_def on_err_def query_ok call_ok)

end
