(* ===== verification/Order_Routes.thy ===== *)
theory Order_Routes
  imports Orders_Facts Http
begin

text \<open>
  The HTTP seam of the Ordering service: the requests, the responses and the routes of
  \<open>internal/ordering/orders\<close>, mounted by \<open>routes.go\<close>. Log lines are not modelled.
\<close>

section \<open>Requests\<close>

definition address_input_zero :: address_input where
  "address_input_zero =
     \<lparr>ai_FirstName = '''', ai_LastName = '''', ai_EmailAddress = '''', ai_AddressLine = '''', ai_Country = '''',
      ai_State = '''', ai_ZipCode = ''''\<rparr>"

definition decode_address_input :: "address_input decoder" where
  "decode_address_input = decode_struct
     [(''firstName'', field decode_string ai_FirstName ai_FirstName_update),
      (''lastName'', field decode_string ai_LastName ai_LastName_update),
      (''emailAddress'', field decode_string ai_EmailAddress ai_EmailAddress_update),
      (''addressLine'', field decode_string ai_AddressLine ai_AddressLine_update),
      (''country'', field decode_string ai_Country ai_Country_update),
      (''state'', field decode_string ai_State ai_State_update),
      (''zipCode'', field decode_string ai_ZipCode ai_ZipCode_update)]"

definition payment_input_zero :: payment_input where
  "payment_input_zero = \<lparr>pi_PaymentToken = '''', pi_CardLast4 = '''', pi_PaymentMethod = 0\<rparr>"

definition decode_payment_input :: "payment_input decoder" where
  "decode_payment_input = decode_struct
     [(''paymentToken'', field decode_string pi_PaymentToken pi_PaymentToken_update),
      (''cardLast4'', field decode_string pi_CardLast4 pi_CardLast4_update),
      (''paymentMethod'', field decode_int pi_PaymentMethod pi_PaymentMethod_update)]"

definition line_input_zero :: line_input where
  "line_input_zero = \<lparr>li_ProductID = uuid_nil, li_Quantity = 0, li_Price = 0\<rparr>"

definition decode_line_input :: "texts \<Rightarrow> line_input decoder" where
  "decode_line_input T = decode_struct
     [(''productId'', field (decode_uuid T) li_ProductID li_ProductID_update),
      (''quantity'', field decode_int li_Quantity li_Quantity_update),
      (''price'', field (decode_decimal T) li_Price li_Price_update)]"

definition create_order_zero :: create_order_command where
  "create_order_zero =
     \<lparr>co_CustomerID = uuid_nil, co_ShippingAddress = address_input_zero, co_BillingAddress = address_input_zero,
      co_Payment = payment_input_zero, co_Items = []\<rparr>"

definition decode_create_order :: "texts \<Rightarrow> create_order_command decoder" where
  "decode_create_order T = decode_struct
     [(''customerId'', field (decode_uuid T) co_CustomerID co_CustomerID_update),
      (''shippingAddress'', field decode_address_input co_ShippingAddress co_ShippingAddress_update),
      (''billingAddress'', field decode_address_input co_BillingAddress co_BillingAddress_update),
      (''payment'', field decode_payment_input co_Payment co_Payment_update),
      (''orderItems'', field (decode_slice line_input_zero (decode_line_input T)) co_Items co_Items_update)]"

definition update_order_zero :: update_order_command where
  "update_order_zero =
     \<lparr>uo_ID = uuid_nil, uo_ShippingAddress = address_input_zero, uo_BillingAddress = address_input_zero,
      uo_Payment = payment_input_zero, uo_Status = ''''\<rparr>"

definition decode_update_order :: "texts \<Rightarrow> update_order_command decoder" where
  "decode_update_order T = decode_struct
     [(''id'', field (decode_uuid T) uo_ID uo_ID_update),
      (''shippingAddress'', field decode_address_input uo_ShippingAddress uo_ShippingAddress_update),
      (''billingAddress'', field decode_address_input uo_BillingAddress uo_BillingAddress_update),
      (''payment'', field decode_payment_input uo_Payment uo_Payment_update),
      (''status'', field decode_string uo_Status uo_Status_update)]"

text \<open>The body of both writes: the command under its own key.\<close>

definition order_request :: "'c decoder \<Rightarrow> 'c \<Rightarrow> request_body \<Rightarrow> go_error + 'c" where
  "order_request dec zero b = DecodeJSON (decode_struct [(''order'', dec)]) zero b"

text \<open>The id in a path; \<open>what\<close> names it.\<close>

definition id_param :: "texts \<Rightarrow> string \<Rightarrow> string \<Rightarrow> go_error + uuid" where
  "id_param T what s =
     (case uuid_parse T s of
        None \<Rightarrow> Inl (BadRequest (Fmt (what @ '' id must be a UUID'') []))
      | Some u \<Rightarrow> Inr u)"

section \<open>Responses\<close>

definition address_view_json :: "address_view \<Rightarrow> json" where
  "address_view_json a = JObj
     [(''firstName'', json_string (av_FirstName a)),
      (''lastName'', json_string (av_LastName a)),
      (''emailAddress'', json_string (av_EmailAddress a)),
      (''addressLine'', json_string (av_AddressLine a)),
      (''country'', json_string (av_Country a)),
      (''state'', json_string (av_State a)),
      (''zipCode'', json_string (av_ZipCode a))]"

definition payment_view_json :: "payment_view option \<Rightarrow> json" where
  "payment_view_json p =
     (case p of
        None \<Rightarrow> JNull
      | Some v \<Rightarrow> JObj [(''cardLast4'', json_string (pv_CardLast4 v)), (''paymentMethod'', json_int (pv_PaymentMethod v))])"

definition order_item_view_json :: "texts \<Rightarrow> order_item_view \<Rightarrow> json" where
  "order_item_view_json T i = JObj
     [(''orderId'', json_string (uuid_text T (iv_OrderID i))),
      (''productId'', json_string (uuid_text T (iv_ProductID i))),
      (''quantity'', json_int (iv_Quantity i)),
      (''price'', JNum (dec_text T (iv_Price i)))]"

definition order_view_json :: "texts \<Rightarrow> order_view \<Rightarrow> json" where
  "order_view_json T v = JObj
     [(''id'', json_string (uuid_text T (ov_ID v))),
      (''customerId'', json_string (uuid_text T (ov_CustomerID v))),
      (''status'', json_string (ov_Status v)),
      (''shippingAddress'', address_view_json (ov_ShippingAddress v)),
      (''billingAddress'', address_view_json (ov_BillingAddress v)),
      (''payment'', payment_view_json (ov_Payment v)),
      (''orderItems'', JArr (map (order_item_view_json T) (ov_Items v))),
      (''totalPrice'', JNum (dec_text T (ov_TotalPrice v)))]"

definition page_json :: "('a \<Rightarrow> json) \<Rightarrow> 'a page \<Rightarrow> json" where
  "page_json enc p = JObj
     [(''pageIndex'', json_int (sint (page_PageIndex p))),
      (''pageSize'', json_int (sint (page_PageSize p))),
      (''count'', json_int (page_Count p)),
      (''data'', JArr (map enc (page_Data p)))]"

section \<open>Routes\<close>

definition CreateOrderRoute ::
  "texts \<Rightarrow> (create_order_command \<Rightarrow> verdict) \<Rightarrow> 's order_repo \<Rightarrow> string \<Rightarrow> request_body \<Rightarrow> ('s, response) act" where
  "CreateOrderRoute T V repo traceID b =
     respond traceID
       (\<lambda>u. (respond_JSON 201 (JObj [(''id'', json_string (uuid_text T u))]))
              \<lparr>rs_Headers := [(''Location'', ''/orders/'' @ uuid_text T u)]\<rparr>)
       (andthen (of_res (order_request (decode_create_order T) create_order_zero b))
          (Chain (CreateOrder repo) [Validating V]))"

definition UpdateOrderRoute ::
  "texts \<Rightarrow> (update_order_command \<Rightarrow> verdict) \<Rightarrow> 's order_repo \<Rightarrow> string \<Rightarrow> request_body \<Rightarrow> ('s, response) act" where
  "UpdateOrderRoute T V repo traceID b =
     respond traceID (\<lambda>ok. respond_JSON 200 (JObj [(''isSuccess'', JBool ok)]))
       (andthen (of_res (order_request (decode_update_order T) update_order_zero b))
          (Chain (UpdateOrder repo) [Validating V]))"

definition DeleteOrderRoute :: "texts \<Rightarrow> (uuid \<Rightarrow> verdict) \<Rightarrow> 's order_repo \<Rightarrow> string \<Rightarrow> string \<Rightarrow> ('s, response) act" where
  "DeleteOrderRoute T V repo traceID param =
     respond traceID (\<lambda>ok. respond_JSON 200 (JObj [(''isSuccess'', JBool ok)]))
       (andthen (of_res (id_param T ''order'' param)) (Chain (DeleteOrder repo) [Validating V]))"

definition GetOrderByIDRoute :: "texts \<Rightarrow> 's order_repo \<Rightarrow> string \<Rightarrow> string \<Rightarrow> ('s, response) act" where
  "GetOrderByIDRoute T repo traceID param =
     respond traceID (\<lambda>v. respond_JSON 200 (JObj [(''order'', order_view_json T v)]))
       (andthen (of_res (id_param T ''order'' param)) (Chain (GetOrderByID repo) []))"

definition GetOrdersByCustomerRoute :: "texts \<Rightarrow> 's order_repo \<Rightarrow> string \<Rightarrow> string \<Rightarrow> ('s, response) act" where
  "GetOrdersByCustomerRoute T repo traceID param =
     respond traceID (\<lambda>vs. respond_JSON 200 (JObj [(''orders'', JArr (map (order_view_json T) vs))]))
       (andthen (of_res (id_param T ''customer'' param)) (Chain (GetOrdersByCustomer repo) []))"

definition GetOrdersRoute :: "texts \<Rightarrow> 's order_repo \<Rightarrow> string \<Rightarrow> (string \<Rightarrow> string) \<Rightarrow> ('s, response) act" where
  "GetOrdersRoute T repo traceID params =
     respond traceID (\<lambda>p. respond_JSON 200 (JObj [(''orders'', page_json (order_view_json T) p)]))
       (Chain (GetOrders repo) []
          \<lparr>PageIndex = intQuery (params ''pageIndex'') 0, PageSize = intQuery (params ''pageSize'') DefaultPageSize\<rparr>)"

text \<open>The requests that \<open>RegisterRoutes\<close> mounts a route for.\<close>

datatype orders_request =
    ListOrders "string \<Rightarrow> string"
  | PostOrder request_body
  | PutOrder request_body
  | OrderOf string
  | RemoveOrder string
  | OrdersOfCustomer string

fun orders_routes ::
  "texts \<Rightarrow> (create_order_command \<Rightarrow> verdict) \<Rightarrow> (update_order_command \<Rightarrow> verdict) \<Rightarrow> (uuid \<Rightarrow> verdict)
     \<Rightarrow> 's order_repo \<Rightarrow> string \<Rightarrow> orders_request \<Rightarrow> ('s, response) act" where
  "orders_routes T VC VU VD repo traceID (ListOrders params) = GetOrdersRoute T repo traceID params"
| "orders_routes T VC VU VD repo traceID (PostOrder b) = CreateOrderRoute T VC repo traceID b"
| "orders_routes T VC VU VD repo traceID (PutOrder b) = UpdateOrderRoute T VU repo traceID b"
| "orders_routes T VC VU VD repo traceID (OrderOf i) = GetOrderByIDRoute T repo traceID i"
| "orders_routes T VC VU VD repo traceID (RemoveOrder i) = DeleteOrderRoute T VD repo traceID i"
| "orders_routes T VC VU VD repo traceID (OrdersOfCustomer i) = GetOrdersByCustomerRoute T repo traceID i"

section \<open>Facts\<close>

text \<open>Whatever is asked over HTTP, under any failures, the tables keep their keys and references.\<close>

lemma routes_keep_tables:
  "keeps db_ok (orders_routes T VC VU VD (mssql_repo S (Mapper T f c)) traceID req)"
  using mssql_orders.handlers_keep_ok mssql_orders.queries_quiet
  by (cases req)
    (auto intro!: wf_intro intro: quiet_keeps simp: GetOrdersRoute_def CreateOrderRoute_def UpdateOrderRoute_def
      GetOrderByIDRoute_def DeleteOrderRoute_def GetOrdersByCustomerRoute_def)

text \<open>A created order's location is its id, and a body that is not a command changes nothing.\<close>

lemma created_order_location:
  assumes "CreateOrderRoute T V (mssql_repo S (Mapper T f c)) traceID b (E, db) = (Inr rs, E', db')"
  shows "if rs_Status rs = 201
    then \<exists>u. rs_Headers rs = [(''Location'', ''/orders/'' @ uuid_text T u)] \<and> order_ids db' = insert u (order_ids db)
    else rs_Headers rs = []"
proof -
  have e: "rs_Status (problem_Error t er) \<noteq> 201" "rs_Headers (problem_Error t er) = []" for t er
  proof -
    have "statusFor k \<noteq> 201" for k by (cases k) simp_all
    then show "rs_Status (problem_Error t er) \<noteq> 201" by (simp add: problem_Error_def Let_def)
    show "rs_Headers (problem_Error t er) = []" by (simp add: problem_Error_def Let_def)
  qed
  from assms show ?thesis
    using e mssql_orders.create_adds_id [of S T f c]
    by (auto simp: CreateOrderRoute_def respond_cases respond_JSON_def andthen_Inr Validating_Inr)
qed

end
