(* ===== verification/Ordering_Startup.thy ===== *)
theory Ordering_Startup
  imports Orders_Facts "HOL-Library.Sublist"
begin

text \<open>
  What the Ordering service does to its database before it serves: \<open>EnsureDatabase\<close> and \<open>Migrate\<close> of
  \<open>internal/ordering/mssql/migrate.go\<close>, and the sample data of \<open>internal/ordering/mssql/seed.go\<close>. Reading
  and writing a connection string is the \<open>net/url\<close> package's and applying the migrations is goose's, so both are
  parameters.
\<close>

section \<open>The database\<close>

text \<open>\<open>^[A-Za-z][A-Za-z0-9_]{0,62}$\<close>\<close>

definition letter :: "char \<Rightarrow> bool" where
  "letter c \<longleftrightarrow> byte_in 65 90 c \<or> byte_in 97 122 c"

definition plainIdentifier :: "string \<Rightarrow> bool" where
  "plainIdentifier s \<longleftrightarrow>
     (case s of
        [] \<Rightarrow> False
      | c # cs \<Rightarrow> letter c \<and> length cs \<le> 62 \<and> list_all (\<lambda>c. letter c \<or> digit c \<or> c = CHR ''_'') cs)"

text \<open>A server's databases; \<open>same\<close> is the comparison of their names.\<close>

type_synonym databases = "string list"

text \<open>\<open>QUOTENAME\<close> doubles a closing bracket, and what stands between the brackets is the name.\<close>

definition quote_name :: "string \<Rightarrow> string" where
  "quote_name s = CHR ''['' # concat (map (\<lambda>c. if c = CHR '']'' then '']]'' else [c]) s) @ '']''"

definition create_database_stmt ::
  "(string \<Rightarrow> string \<Rightarrow> bool) \<Rightarrow> string \<Rightarrow> time \<Rightarrow> databases \<Rightarrow> (go_error + unit) \<times> databases" where
  "create_database_stmt same name t dbs =
     (Inr (), if list_ex (same name) dbs then dbs else dbs @ [name])"

text \<open>
  \<open>database_of\<close> is the \<open>database\<close> parameter of a connection string, empty when there is none; \<open>open_master\<close> is the
  connection to the same server's \<open>master\<close>.
\<close>

definition EnsureDatabase ::
  "(string \<Rightarrow> go_error + string) \<Rightarrow> (string \<Rightarrow> go_error + unit) \<Rightarrow> (string \<Rightarrow> string \<Rightarrow> bool) \<Rightarrow> string
     \<Rightarrow> (databases, unit) act" where
  "EnsureDatabase database_of open_master same dsn =
     andthen (of_res (map_left (Wrapped (Fmt ''parsing connection string'' [])) (database_of dsn))) (\<lambda>name.
     if name = '''' then fail (Plain (Fmt ''the connection string must name a database'' []))
     else if \<not> plainIdentifier name
     then fail (Plain (Fmt ''database name %q is not a plain identifier'' [ArgStr name]))
     else
       andthen (of_res (open_master dsn)) (\<lambda>_.
       on_err (Wrapped (Fmt ''creating database %s'' [ArgStr name])) (call (create_database_stmt same name))))"

section \<open>Migrations\<close>

definition agentStartAttempts :: nat where
  "agentStartAttempts = 30"

text \<open>\<open>etext\<close> is the text of an error.\<close>

definition agentStarting :: "(go_error \<Rightarrow> string) \<Rightarrow> go_error \<Rightarrow> bool" where
  "agentStarting etext err \<longleftrightarrow> sublist ''14258'' (etext err)"

text \<open>
  The loop of \<open>Migrate\<close>, from its first attempt. \<open>up\<close> applies the pending migrations; \<open>cancelled n\<close> says that the
  context ends during the pause after attempt \<open>n\<close>, with the error \<open>gone\<close>.
\<close>

function migrate_loop ::
  "(go_error \<Rightarrow> string) \<Rightarrow> ('s, unit) act \<Rightarrow> (nat \<Rightarrow> bool) \<Rightarrow> go_error \<Rightarrow> nat \<Rightarrow> ('s, unit) act" where
  "migrate_loop etext up cancelled gone turn w =
     (case up w of
        (Inr u, w') \<Rightarrow> (Inr (), w')
      | (Inl err, w') \<Rightarrow>
          if \<not> agentStarting etext err \<or> agentStartAttempts \<le> turn
          then (Inl (Wrapped (Fmt ''applying migrations'' []) err), w')
          else if cancelled turn then (Inl (Wrapped (Fmt ''applying migrations'' []) gone), w')
          else migrate_loop etext up cancelled gone (Suc turn) w')"
  by pat_completeness auto
termination
  by (relation "measure (\<lambda>(etext, up, cancelled, gone, turn, w). agentStartAttempts - turn)") auto

declare migrate_loop.simps [simp del]

definition ordering_Migrate ::
  "(go_error \<Rightarrow> string) \<Rightarrow> ('s, unit) act \<Rightarrow> (nat \<Rightarrow> bool) \<Rightarrow> go_error \<Rightarrow> ('s, unit) act" where
  "ordering_Migrate etext up cancelled gone = migrate_loop etext up cancelled gone 1"

section \<open>Sample data\<close>

text \<open>
  The errors of the constructors are dropped, so an id that is refused is the nil id and a value that is refused is a
  \<open>nil\<close> pointer, \<open>None\<close>. \<open>sha1\<close> is \<open>uuid.NewSHA1\<close> in the namespace of the seed.
\<close>

definition id_or_nil :: "go_error + uuid \<Rightarrow> uuid" where
  "id_or_nil r = (case r of Inl e \<Rightarrow> uuid_nil | Inr u \<Rightarrow> u)"

definition value_or_nil :: "go_error + 'a \<Rightarrow> 'a option" where
  "value_or_nil r = (case r of Inl e \<Rightarrow> None | Inr x \<Rightarrow> Some x)"

definition sampleCustomers :: "(string \<Rightarrow> uuid) \<Rightarrow> customer option list" where
  "sampleCustomers sha1 =
     map (\<lambda>(name, email). value_or_nil
            (NewCustomer (id_or_nil (NewCustomerID (sha1 (''customer:'' @ name)))) name email))
       [(''mehmet'', ''mehmet@gmail.com''), (''john'', ''john@gmail.com'')]"

definition sampleProducts :: "(string \<Rightarrow> uuid) \<Rightarrow> product option list" where
  "sampleProducts sha1 =
     map (\<lambda>(name, price). value_or_nil
            (NewProduct (id_or_nil (NewProductID (sha1 (''product:'' @ name)))) name price))
       [(''IPhone X'', 500), (''Samsung 10'', 400), (''Huawei Plus'', 650), (''Xiaomi Mi'', 450)]"

text \<open>Following a \<open>nil\<close> pointer.\<close>

definition nil_dereference :: go_error where
  "nil_dereference = Plain (Fmt ''invalid memory address or nil pointer dereference'' [])"

definition deref_nil :: "'a option \<Rightarrow> ('s, 'a) act" where
  "deref_nil p = (case p of None \<Rightarrow> fail nil_dereference | Some x \<Rightarrow> ret x)"

text \<open>The two lines that the sample order has.\<close>

definition sampleOrders ::
  "(string \<Rightarrow> uuid) \<Rightarrow> customer option list \<Rightarrow> product option list \<Rightarrow> (ordering_db, order list) act" where
  "sampleOrders sha1 customers products =
     andthen (of_res (NewAddress ''mehmet'' ''ozkaya'' ''mehmet@gmail.com'' ''Bahcelievler No:4'' ''Turkey'' ''Istanbul''
                        ''38050'')) (\<lambda>address.
     andthen (of_res (NewPayment ''seed-token-ord-1'' ''4444'' 1)) (\<lambda>pay.
     andthen (of_res (NewOrderID (sha1 ''order:ORD_1''))) (\<lambda>orderID.
     andthen (deref_nil (customers ! 0)) (\<lambda>c.
     andthen (deref_nil (products ! 0)) (\<lambda>p0.
     andthen (add_line (product_ID p0) 2 (product_Price p0)
                (NewOrder orderID (customer_ID c) address address pay)) (\<lambda>o1.
     andthen (deref_nil (products ! 1)) (\<lambda>p1.
     andthen (add_line (product_ID p1) 1 (product_Price p1) o1) (\<lambda>o2.
     ret [o2]))))))))"

definition insert_customer_stmt ::
  "sqlserver \<Rightarrow> customer \<Rightarrow> time \<Rightarrow> ordering_db \<Rightarrow> (go_error + unit) \<times> ordering_db" where
  "insert_customer_stmt S c t db =
     (case (column_text S 100 (customer_Name c), column_text S 255 (customer_Email c)) of
        (Some n, Some e) \<Rightarrow>
          if Customers db (customer_ID c) \<noteq> None then (Inl (SqlError primaryKeyViolation), db)
          else (Inr (), db\<lparr>Customers := (Customers db)(customer_ID c \<mapsto> \<lparr>cr_Name = n, cr_Email = e\<rparr>)\<rparr>)
      | _ \<Rightarrow> (Inl truncated, db))"

definition insertCustomers :: "sqlserver \<Rightarrow> customer option list \<Rightarrow> (ordering_db, unit) act" where
  "insertCustomers S customers =
     for_each (\<lambda>p. andthen (deref_nil p) (\<lambda>c.
       on_err (Wrapped (Fmt ''seeding customer %s'' [ArgStr (customer_Name c)])) (call (insert_customer_stmt S c)))) customers"

definition insert_product_stmt ::
  "sqlserver \<Rightarrow> product \<Rightarrow> time \<Rightarrow> ordering_db \<Rightarrow> (go_error + unit) \<times> ordering_db" where
  "insert_product_stmt S p t db =
     (case (column_text S 100 (product_Name p), column_money S (product_Price p)) of
        (Some n, Some pr) \<Rightarrow>
          if Products db (product_ID p) \<noteq> None then (Inl (SqlError primaryKeyViolation), db)
          else (Inr (), db\<lparr>Products := (Products db)(product_ID p \<mapsto> \<lparr>pr_Name = n, pr_Price = pr\<rparr>)\<rparr>)
      | _ \<Rightarrow> (Inl truncated, db))"

definition insertProducts :: "sqlserver \<Rightarrow> product option list \<Rightarrow> (ordering_db, unit) act" where
  "insertProducts S products =
     for_each (\<lambda>q. andthen (deref_nil q) (\<lambda>p.
       on_err (Wrapped (Fmt ''seeding product %s'' [ArgStr (product_Name p)])) (call (insert_product_stmt S p)))) products"

definition ordering_Seed :: "sqlserver \<Rightarrow> (string \<Rightarrow> uuid) \<Rightarrow> (ordering_db, nat) act" where
  "ordering_Seed S sha1 =
     andthen (on_err (Wrapped (Fmt ''counting customers before seeding'' []))
                (query (\<lambda>db. Customers db \<noteq> Map.empty))) (\<lambda>existing.
     if existing then ret 0
     else
       let customers = sampleCustomers sha1; products = sampleProducts sha1 in
       andthen (insertCustomers S customers) (\<lambda>_.
       andthen (insertProducts S products) (\<lambda>_.
       andthen (sampleOrders sha1 customers products) (\<lambda>os.
       andthen (for_each (\<lambda>o'. on_err (Wrapped (Fmt ''seeding order %s'' [ArgUuid (order_id o')]))
                               (andthen (Save S DropEvents o') (\<lambda>_. ret ()))) os) (\<lambda>_.
       ret (length customers + length products + length os))))))"

section \<open>Facts\<close>

text \<open>A name that is accepted cannot end its quotation, and it is the only database that is created.\<close>

lemma plainIdentifier_quotes: "plainIdentifier s \<Longrightarrow> quote_name s = ''['' @ s @ '']''"
proof -
  assume "plainIdentifier s"
  then have "\<forall>c \<in> set s. c \<noteq> CHR '']''"
    by (cases s) (auto simp: plainIdentifier_def letter_def byte_in_def digit_def list_all_iff)
  then have "concat (map (\<lambda>c. if c = CHR '']'' then '']]'' else [c]) s) = s" by (induction s) auto
  then show ?thesis by (simp add: quote_name_def)
qed

lemma EnsureDatabase_creates:
  assumes "EnsureDatabase database_of open_master same dsn (E, dbs) = (r, E', dbs')"
  shows "dbs' = dbs \<or> (\<exists>name. database_of dsn = Inr name \<and> plainIdentifier name \<and> dbs' = dbs @ [name] \<and>
    \<not> list_ex (same name) dbs)"
  using assms
  by (auto simp: EnsureDatabase_def create_database_stmt_def andthen_def of_res_def fail_def on_err_def map_left_def
      split: sum.splits if_splits prod.splits dest!: call_cases)

lemma EnsureDatabase_Inr:
  assumes "EnsureDatabase database_of open_master same dsn (E, dbs) = (Inr u, E', dbs')" "\<And>x. same x x"
  shows "\<exists>name. database_of dsn = Inr name \<and> list_ex (same name) dbs'"
  using assms
  by (auto simp: EnsureDatabase_def create_database_stmt_def andthen_Inr of_res_def fail_def on_err_Inr map_left_def
      split: sum.splits if_splits dest!: call_Inr)

text \<open>Migrating retries only the refusal of an agent that is starting, and gives up after 30 attempts.\<close>

lemma migrate_loop_retries:
  assumes "\<And>k. k < n \<Longrightarrow> \<exists>e. up (w k) = (Inl e, w (Suc k)) \<and> agentStarting etext e \<and> \<not> cancelled (turn + k)"
    and "turn + n \<le> agentStartAttempts"
  shows "migrate_loop etext up cancelled gone turn (w 0) = migrate_loop etext up cancelled gone (turn + n) (w n)"
  using assms
proof (induction n)
  case (Suc n)
  from Suc.prems(1) [of n] obtain e where e: "up (w n) = (Inl e, w (Suc n))" "agentStarting etext e"
      "\<not> cancelled (turn + n)" by auto
  have "migrate_loop etext up cancelled gone turn (w 0) = migrate_loop etext up cancelled gone (turn + n) (w n)"
    using Suc by simp
  also have "\<dots> = migrate_loop etext up cancelled gone (turn + Suc n) (w (Suc n))"
    using e Suc.prems(2) by (subst migrate_loop.simps) simp
  finally show ?case .
qed simp

lemma Migrate_succeeds:
  assumes "\<And>k. k < n \<Longrightarrow> \<exists>e. up (w k) = (Inl e, w (Suc k)) \<and> agentStarting etext e \<and> \<not> cancelled (Suc k)"
    and "n < agentStartAttempts" "up (w n) = (Inr (), w')"
  shows "ordering_Migrate etext up cancelled gone (w 0) = (Inr (), w')"
  using migrate_loop_retries [of n up w etext cancelled 1 gone] assms
  by (simp add: ordering_Migrate_def migrate_loop.simps [of _ _ _ _ "Suc n"])

lemma Migrate_other_errors:
  "up w = (Inl e, w') \<Longrightarrow> \<not> agentStarting etext e \<Longrightarrow>
     ordering_Migrate etext up cancelled gone w = (Inl (Wrapped (Fmt ''applying migrations'' []) e), w')"
  by (simp add: ordering_Migrate_def migrate_loop.simps [of _ _ _ _ "Suc 0"])

text \<open>The sample values are accepted by the constructors.\<close>

lemma sample_names_visible:
  "\<not> is_blank ''mehmet''" "\<not> is_blank ''john''" "\<not> is_blank ''mehmet@gmail.com''" "\<not> is_blank ''john@gmail.com''"
  "\<not> is_blank ''IPhone X''" "\<not> is_blank ''Samsung 10''" "\<not> is_blank ''Huawei Plus''" "\<not> is_blank ''Xiaomi Mi''"
  by (rule not_blank_visible, simp add: byte_in_def)+

lemma sample_data_defined: "None \<notin> set (sampleCustomers sha1)" "None \<notin> set (sampleProducts sha1)"
  by (auto simp: sampleCustomers_def sampleProducts_def value_or_nil_def NewCustomer_def NewProduct_def
      sample_names_visible)

text \<open>Seeding a database that has customers changes nothing.\<close>

lemma Seed_noop:
  assumes "Customers db \<noteq> Map.empty" "ordering_Seed S sha1 (E, db) = (r, E', db')"
  shows "db' = db"
proof -
  obtain q E1 db1 where q: "query (\<lambda>db. Customers db \<noteq> Map.empty) (E, db) = (q, E1, db1)"
    by (cases "query (\<lambda>db. Customers db \<noteq> Map.empty) (E, db)") auto
  then have "db1 = db" by (rule query_state)
  with q assms query_Inr [of "\<lambda>db. Customers db \<noteq> Map.empty" E db] show ?thesis
    by (cases q) (auto simp: ordering_Seed_def andthen_def on_err_def)
qed

text \<open>
  The inserts are not one transaction: when a product cannot be inserted the customers stay, and from then on seeding
  does nothing.
\<close>

definition seed_failure :: env where
  "seed_failure =
     \<lparr>outcomes = [Succeeds, Succeeds, Succeeds, FailsBefore ConnectionLost], now = 0, rnd = (\<lambda>n. of_nat (Suc n)), drawn = 0\<rparr>"

lemma failed_seed_is_never_completed:
  assumes "sqlserver_ok S" "sha1 ''customer:mehmet'' \<noteq> 0" "sha1 ''customer:john'' \<noteq> 0"
    "sha1 ''customer:mehmet'' \<noteq> sha1 ''customer:john''"
  shows "\<exists>e E' db. ordering_Seed S sha1 (seed_failure, ordering_db_empty) = (Inl e, E', db) \<and>
    Products db = Map.empty \<and> (\<forall>E2 r E3 db3. ordering_Seed S sha1 (E2, db) = (r, E3, db3) \<longrightarrow> db3 = db)"
proof -
  have t: "column_text S 100 ''mehmet'' = Some ''mehmet''" "column_text S 100 ''john'' = Some ''john''"
    "column_text S 255 ''mehmet@gmail.com'' = Some ''mehmet@gmail.com''"
    "column_text S 255 ''john@gmail.com'' = Some ''john@gmail.com''"
    using assms(1) by (simp_all add: sqlserver_ok_def byte_in_def)
  have c: "sampleCustomers sha1 =
      [Some \<lparr>customer_ID = sha1 ''customer:mehmet'', customer_Name = ''mehmet'', customer_Email = ''mehmet@gmail.com''\<rparr>,
       Some \<lparr>customer_ID = sha1 ''customer:john'', customer_Name = ''john'', customer_Email = ''john@gmail.com''\<rparr>]"
    using assms(2,3)
    by (simp add: sampleCustomers_def value_or_nil_def id_or_nil_def NewCustomerID_def new_id_def NewCustomer_def
        sample_names_visible)
  obtain p ps where p: "sampleProducts sha1 = Some p # ps"
    by (simp add: sampleProducts_def value_or_nil_def NewProduct_def sample_names_visible)
  have "\<exists>e E' db. ordering_Seed S sha1 (seed_failure, ordering_db_empty) = (Inl e, E', db) \<and>
      Products db = Map.empty \<and> Customers db \<noteq> Map.empty"
    using assms(4)
    by (simp add: ordering_Seed_def c p Let_def insertCustomers_def insertProducts_def insert_customer_stmt_def
        query_def call_def next_outcome_def seed_failure_def ordering_db_empty_def andthen_def on_err_def deref_nil_def t
        ret_def)
  then show ?thesis using Seed_noop by blast
qed

end
