(* ===== verification/Services.thy ===== *)
theory Services
  imports Catalog Discount Basket_Relay Payment_Cards Ordering_Startup Outbox_Worker Broker_Config Http
begin

text \<open>
  How the services are put together: \<open>run\<close> of \<open>cmd/catalog\<close>, \<open>cmd/discount\<close>, \<open>cmd/basket\<close>,
  \<open>cmd/payment\<close>, \<open>cmd/ordering\<close> and \<open>cmd/ordering-worker\<close> up to the point where it serves. Each is an action that
  ends with an error of start-up or with what is served; serving and stopping is the theory \<open>Supervision\<close>.
  Reading the environment is a parameter, and so is what libraries do: opening a database, applying its migrations,
  a ping, parsing an address.
\<close>

section \<open>What is served\<close>

record ('s, 'x) service =
  sv_Addr :: string
  sv_Checks :: "'s health_registry"
  sv_Wired :: 'x

text \<open>The calls of libraries that a start-up makes on a database.\<close>

record 's database_lib =
  dl_Open :: "string \<Rightarrow> ('s, unit) act"
  dl_Migrate :: "('s, unit) act"
  dl_Ping :: "('s, unit) act"

definition defaultAddr :: string where
  "defaultAddr = '':8080''"

definition env_or :: "(string \<Rightarrow> string) \<Rightarrow> string \<Rightarrow> string \<Rightarrow> string" where
  "env_or getenv name def = (if getenv name = '''' then def else getenv name)"

definition env_required :: "(string \<Rightarrow> string) \<Rightarrow> string \<Rightarrow> go_error + string" where
  "env_required getenv name =
     (if getenv name = '''' then Inl (Plain (Fmt (name @ '' is required'') [])) else Inr (getenv name))"

section \<open>Catalog, Payment and Discount\<close>

definition catalog_run ::
  "(string \<Rightarrow> string) \<Rightarrow> catalog_db database_lib \<Rightarrow> (string \<Rightarrow> uuid) \<Rightarrow> catalog_pg \<Rightarrow> texts
     \<Rightarrow> (catalog_db, (catalog_db, catalog_db cat_repo) service) act" where
  "catalog_run getenv L sha1 P T =
     (let addr = env_or getenv ''CATALOG_HTTP_ADDR'' defaultAddr in
      andthen (of_res (env_required getenv ''CATALOG_DATABASE_URL'')) (\<lambda>databaseURL.
      andthen (on_err (Wrapped (Fmt ''creating database pool'' [])) (dl_Open L databaseURL)) (\<lambda>_.
      andthen (dl_Migrate L) (\<lambda>_.
      andthen (if getenv ''CATALOG_SEED'' = ''true'' then catalog_Seed sha1 P T else ret 0) (\<lambda>seeded.
      ret \<lparr>sv_Addr = addr, sv_Checks = health_Register ''postgres'' (dl_Ping L) health_NewRegistry,
           sv_Wired = pg_catalog P T\<rparr>)))))"

text \<open>The repository of cards is its one operation; the router is given no clock, so it reads the time itself.\<close>

definition payment_run ::
  "(string \<Rightarrow> string) \<Rightarrow> cards_db database_lib \<Rightarrow> postgres
     \<Rightarrow> (cards_db, (cards_db, stored_card \<Rightarrow> (cards_db, unit) act) service) act" where
  "payment_run getenv L P =
     (let addr = env_or getenv ''PAYMENT_HTTP_ADDR'' defaultAddr in
      andthen (of_res (env_required getenv ''PAYMENT_DATABASE_URL'')) (\<lambda>databaseURL.
      andthen (on_err (Wrapped (Fmt ''creating database pool'' [])) (dl_Open L databaseURL)) (\<lambda>_.
      andthen (dl_Migrate L) (\<lambda>_.
      ret \<lparr>sv_Addr = addr, sv_Checks = health_Register ''postgres'' (dl_Ping L) health_NewRegistry,
           sv_Wired = card_Store P\<rparr>))))"

text \<open>Discount speaks gRPC only; its health is the serving status of the empty service name.\<close>

definition defaultDatabasePath :: string where
  "defaultDatabasePath = ''discount.db''"

definition discount_run ::
  "(string \<Rightarrow> string) \<Rightarrow> discount_db database_lib \<Rightarrow> (string \<Rightarrow> (discount_db, unit) act)
     \<Rightarrow> (discount_db, string \<times> discount_db coupon_repo) act" where
  "discount_run getenv L listen =
     (let addr = env_or getenv ''DISCOUNT_GRPC_ADDR'' defaultAddr;
          databasePath = env_or getenv ''DISCOUNT_DATABASE_PATH'' defaultDatabasePath in
      andthen (dl_Open L databasePath) (\<lambda>_.
      andthen (dl_Migrate L) (\<lambda>_.
      andthen (if getenv ''DISCOUNT_SEED'' = ''true'' then discount_Seed else ret 0) (\<lambda>seeded.
      andthen (on_err (Wrapped (Fmt ''listening on %s'' [ArgStr addr])) (listen addr)) (\<lambda>_.
      ret (addr, sqlite_coupons))))))"

text \<open>The answer of the standard health service: whether it says \<open>SERVING\<close>, and the text of its status.\<close>

definition grpcHealthy :: "('s, bool \<times> string) act \<Rightarrow> ('s, unit) act" where
  "grpcHealthy check =
     andthen check (\<lambda>(serving, status).
     if serving then ret () else fail (Plain (Fmt ''discount service reports %s'' [ArgStr status])))"

text \<open>The service's own health probe; \<open>dial addr\<close> is a client of the server at \<open>addr\<close>.\<close>

definition probe_addr :: "(string \<Rightarrow> string) \<Rightarrow> string" where
  "probe_addr getenv =
     (let addr = env_or getenv ''DISCOUNT_GRPC_ADDR'' defaultAddr in
      if HasPrefix addr '':'' then ''127.0.0.1'' @ addr else addr)"

definition discount_probe ::
  "(string \<Rightarrow> string) \<Rightarrow> (string \<Rightarrow> go_error + unit) \<Rightarrow> ('s, bool \<times> string) act \<Rightarrow> ('s, unit) act" where
  "discount_probe getenv dial check =
     (let addr = probe_addr getenv in
      andthen (of_res (map_left (Wrapped (Fmt ''dialling %s'' [ArgStr addr])) (dial addr))) (\<lambda>_.
      andthen (on_err (Wrapped (Fmt ''health check'' [])) check) (\<lambda>(serving, status).
      if serving then ret () else fail (Plain (Fmt ''status is %s'' [ArgStr status])))))"

section \<open>Basket\<close>

text \<open>\<open>DefaultTTL\<close> is taken for a value that is missing or not a duration; \<open>parse\<close> is \<open>time.ParseDuration\<close>.\<close>

definition cacheTTL :: "(string \<Rightarrow> string) \<Rightarrow> (string \<Rightarrow> duration option) \<Rightarrow> duration" where
  "cacheTTL getenv parse =
     (let raw = getenv ''BASKET_CACHE_TTL'' in
      if raw = '''' then DefaultTTL
      else (case parse raw of None \<Rightarrow> DefaultTTL | Some ttl \<Rightarrow> ttl))"

text \<open>What Basket serves and runs beside it: its repository, its lookup of discounts, and the relay's parts.\<close>

record 's basket_service =
  bs_Repo :: "'s cart_repo"
  bs_DiscountTarget :: string
  bs_Registry :: registry
  bs_Publisher :: publisher_of
  bs_Relay :: relay_options

text \<open>
  \<open>dial\<close> makes the connection to Discount and \<open>redis_options\<close> parses the address of Redis; \<open>redis_ping\<close> and
  \<open>discount_check\<close> are the two services' health. Registering the contracts of a package twice panics.
\<close>

definition registered :: "registry option \<Rightarrow> ('s, registry) act" where
  "registered r = (case r of None \<Rightarrow> fail (Plain (Fmt ''the contract is registered twice'' [])) | Some r \<Rightarrow> ret r)"

definition basket_run ::
  "(string \<Rightarrow> string) \<Rightarrow> (string \<Rightarrow> duration option) \<Rightarrow> basket_db cached database_lib \<Rightarrow> (string \<Rightarrow> go_error + unit)
     \<Rightarrow> (basket_db cached, bool \<times> string) act \<Rightarrow> (string \<Rightarrow> go_error + unit) \<Rightarrow> (basket_db cached, unit) act
     \<Rightarrow> postgres \<Rightarrow> texts \<Rightarrow> (basket_db cached, (basket_db cached, basket_db cached basket_service) service) act" where
  "basket_run getenv parse L dial discount_check redis_options redis_ping P T =
     (let addr = env_or getenv ''BASKET_HTTP_ADDR'' defaultAddr in
      andthen (of_res (env_required getenv ''BASKET_DATABASE_URL'')) (\<lambda>databaseURL.
      andthen (on_err (Wrapped (Fmt ''creating database pool'' [])) (dl_Open L databaseURL)) (\<lambda>_.
      andthen (dl_Migrate L) (\<lambda>_.
      andthen (of_res (env_required getenv ''BASKET_DISCOUNT_GRPC_ADDR'')) (\<lambda>discountTarget.
      andthen (of_res (dial discountTarget)) (\<lambda>_.
      let checks = health_Register ''discount'' (grpcHealthy discount_check)
                     (health_Register ''postgres'' (dl_Ping L) health_NewRegistry) in
      andthen (of_res (env_required getenv ''BASKET_REDIS_URL'')) (\<lambda>redisURL.
      andthen (of_res (map_left (Wrapped (Fmt ''parsing BASKET_REDIS_URL'' [])) (redis_options redisURL))) (\<lambda>_.
      let checks = health_Register ''redis'' redis_ping checks in
      andthen (of_res (broker_ConfigFromEnv getenv parse)) (\<lambda>brokerConfig.
      andthen (registered (basketv1_Register NewRegistry)) (\<lambda>registry.
      andthen (of_res (broker_New brokerConfig)) (\<lambda>publisher.
      ret \<lparr>sv_Addr = addr, sv_Checks = checks,
           sv_Wired = \<lparr>bs_Repo = basket_repo (cacheTTL getenv parse) P T, bs_DiscountTarget = discountTarget,
                       bs_Registry = registry, bs_Publisher = publisher, bs_Relay = DefaultOptions\<rparr>\<rparr>)))))))))))"

section \<open>Ordering\<close>

definition fulfillOrders :: "(string \<Rightarrow> string) \<Rightarrow> bool" where
  "fulfillOrders getenv \<longleftrightarrow> getenv ''ORDERING_FULFILL_ORDERS'' = ''true''"

text \<open>The subscription: the subscriber that is built and the delivery it is given.\<close>

definition checkoutSubscription ::
  "(string \<Rightarrow> string) \<Rightarrow> (string \<Rightarrow> duration option) \<Rightarrow> texts \<Rightarrow> sqlserver \<Rightarrow> event_mapper
     \<Rightarrow> go_error + subscriber_of \<times> ordering_db delivery" where
  "checkoutSubscription getenv parse T S m =
     try_res (broker_ConfigFromEnv getenv parse) (\<lambda>brokerConfig.
     try_res (NewSubscriber brokerConfig consumerName [checkout_contract]) (\<lambda>subscriber.
     Inr (subscriber, checkout_delivery T S m)))"

text \<open>The server's databases beside the tables of the service's own.\<close>

record ordering_server =
  os_Databases :: databases
  os_DB :: ordering_db

definition os_databases :: "(databases, 'a) act \<Rightarrow> (ordering_server, 'a) act" where
  "os_databases = zoom os_Databases (\<lambda>t s. s\<lparr>os_Databases := t\<rparr>)"

definition os_db :: "(ordering_db, 'a) act \<Rightarrow> (ordering_server, 'a) act" where
  "os_db = zoom os_DB (\<lambda>t s. s\<lparr>os_DB := t\<rparr>)"

text \<open>\<open>ensure\<close> is \<open>EnsureDatabase\<close>, and the migrations of \<open>L\<close> those of \<open>ordering_Migrate\<close>.\<close>

definition ordering_run ::
  "(string \<Rightarrow> string) \<Rightarrow> (string \<Rightarrow> duration option) \<Rightarrow> ordering_db database_lib
     \<Rightarrow> (string \<Rightarrow> (databases, unit) act) \<Rightarrow> (string \<Rightarrow> uuid) \<Rightarrow> sqlserver \<Rightarrow> texts \<Rightarrow> string
     \<Rightarrow> (ordering_server, (ordering_db, ordering_db order_repo \<times> subscriber_of \<times> ordering_db delivery) service) act" where
  "ordering_run getenv parse L ensure sha1 S T correlationID =
     (let addr = env_or getenv ''ORDERING_HTTP_ADDR'' defaultAddr in
      andthen (of_res (env_required getenv ''ORDERING_DATABASE_URL'')) (\<lambda>databaseURL.
      andthen (os_databases (ensure databaseURL)) (\<lambda>_.
      andthen (os_db (dl_Open L databaseURL)) (\<lambda>_.
      andthen (os_db (dl_Migrate L)) (\<lambda>_.
      andthen (if getenv ''ORDERING_SEED'' = ''true'' then os_db (ordering_Seed S sha1) else ret 0) (\<lambda>seeded.
      let checks = health_Register ''sqlserver'' (dl_Ping L) health_NewRegistry;
          m = Mapper T (fulfillOrders getenv) correlationID in
      andthen (of_res (checkoutSubscription getenv parse T S m)) (\<lambda>(subscriber, deliver).
      ret \<lparr>sv_Addr = addr, sv_Checks = checks, sv_Wired = (mssql_repo S m, subscriber, deliver)\<rparr>)))))))"

section \<open>The outbox worker\<close>

text \<open>
  What is run: the options, the publisher and the registry; \<open>health\<close> is the worker's own report. The worker opens the
  database but migrates nothing.
\<close>

definition ordering_worker_run ::
  "(string \<Rightarrow> string) \<Rightarrow> (string \<Rightarrow> duration option) \<Rightarrow> capture_db database_lib \<Rightarrow> (capture_db, unit) act
     \<Rightarrow> (capture_db, (capture_db, worker_options \<times> publisher_of \<times> registry) service) act" where
  "ordering_worker_run getenv parse L health =
     (let addr = env_or getenv ''ORDERING_WORKER_HTTP_ADDR'' defaultAddr in
      andthen (of_res (env_required getenv ''ORDERING_DATABASE_URL'')) (\<lambda>databaseURL.
      andthen (of_res (broker_ConfigFromEnv getenv parse)) (\<lambda>brokerConfig.
      andthen (of_res (OptionsFromEnv getenv parse)) (\<lambda>options.
      andthen (dl_Open L databaseURL) (\<lambda>_.
      andthen (registered integration_Registry) (\<lambda>registry.
      andthen (of_res (broker_New brokerConfig)) (\<lambda>publisher.
      ret \<lparr>sv_Addr = addr,
           sv_Checks = health_Register ''publishing'' health
             (health_Register ''capture'' readiness_Check
               (health_Register ''sqlserver'' (dl_Ping L) health_NewRegistry)),
           sv_Wired = (options, publisher, registry)\<rparr>)))))))"

section \<open>Facts\<close>

lemma env_required_Inr [simp]: "env_required getenv name = Inr v \<longleftrightarrow> v = getenv name \<and> getenv name \<noteq> ''''"
  by (auto simp: env_required_def)

text \<open>
  A Basket that serves has everything it needs: its addresses are set, its publisher is the one of the settings, and
  the checkouts it records are of a contract its registry knows and Ordering subscribes to.
\<close>

lemma basket_serves_configured:
  assumes "basket_run getenv parse L dial discount_check redis_options redis_ping P T w = (Inr s, w')"
  shows "getenv ''BASKET_DATABASE_URL'' \<noteq> ''''" "getenv ''BASKET_DISCOUNT_GRPC_ADDR'' \<noteq> ''''"
    "getenv ''BASKET_REDIS_URL'' \<noteq> ''''" "Knows (bs_Registry (sv_Wired s)) checkout_contract"
    "\<exists>c. broker_ConfigFromEnv getenv parse = Inr c \<and> broker_New c = Inr (bs_Publisher (sv_Wired s))"
    "hg_names (sv_Checks s) = [''postgres'', ''discount'', ''redis'']"
proof -
  from assms obtain brokerConfig registry publisher where 1:
    "getenv ''BASKET_DATABASE_URL'' \<noteq> ''''" "getenv ''BASKET_DISCOUNT_GRPC_ADDR'' \<noteq> ''''"
    "getenv ''BASKET_REDIS_URL'' \<noteq> ''''" "broker_ConfigFromEnv getenv parse = Inr brokerConfig"
    "basketv1_Register NewRegistry = Some registry" "broker_New brokerConfig = Inr publisher"
    "bs_Registry (sv_Wired s) = registry" "bs_Publisher (sv_Wired s) = publisher"
    and h: "sv_Checks s = health_Register ''redis'' redis_ping (health_Register ''discount'' (grpcHealthy discount_check)
      (health_Register ''postgres'' (dl_Ping L) health_NewRegistry))"
    by (auto simp: basket_run_def Let_def andthen_Inr on_err_Inr registered_def split: option.splits)
  then show "getenv ''BASKET_DATABASE_URL'' \<noteq> ''''" "getenv ''BASKET_DISCOUNT_GRPC_ADDR'' \<noteq> ''''"
    "getenv ''BASKET_REDIS_URL'' \<noteq> ''''"
    "\<exists>c. broker_ConfigFromEnv getenv parse = Inr c \<and> broker_New c = Inr (bs_Publisher (sv_Wired s))" by auto
  show "Knows (bs_Registry (sv_Wired s)) checkout_contract"
    using 1 by (auto simp: basketv1_Register_def NewRegistry_def Knows_def contract_defs)
  show "hg_names (sv_Checks s) = [''postgres'', ''discount'', ''redis'']"
    by (simp add: h health_Register_def health_NewRegistry_def Let_def)
qed

lemma ordering_subscribes_to_checkouts:
  assumes "checkoutSubscription getenv parse T S m = Inr (sub, deliver)"
  shows "\<exists>r k. sub \<in> {RabbitSubscriber r consumerName [checkout_contract],
      KafkaSubscriber k consumerName [checkout_contract]} \<and> deliver = checkout_delivery T S m"
  using assms
  by (auto simp: checkoutSubscription_def NewSubscriber_def try_res_Inr split: if_splits)

text \<open>Sample data is stored only when it was asked for.\<close>

lemma catalog_seeds_on_request:
  assumes "getenv ''CATALOG_SEED'' \<noteq> ''true''" "\<And>u. quiet (dl_Open L u)" "quiet (dl_Migrate L)"
  shows "quiet (catalog_run getenv L sha1 P T)"
  unfolding catalog_run_def Let_def using assms by (auto intro!: quiet_andthen)

text \<open>The service's own probe reaches a server that listens on every interface.\<close>

lemma probe_default: "getenv ''DISCOUNT_GRPC_ADDR'' = '''' \<Longrightarrow> probe_addr getenv = ''127.0.0.1:8080''"
  by (simp add: probe_addr_def env_or_def defaultAddr_def HasPrefix_def)

end
