(* ===== verification/Supervision.thy ===== *)
theory Supervision
  imports Go_Errors
begin

text \<open>
  The processes that serve requests and run a loop beside them: \<open>Run\<close> of
  \<open>internal/platform/httpx/server.go\<close>, and the functions of \<open>cmd/ordering\<close>, \<open>cmd/basket\<close> and
  \<open>cmd/ordering-worker\<close> that run it together with a loop and stop both. Each goroutine takes one step at
  a time, in any order.
\<close>

section \<open>The HTTP server\<close>

text \<open>
  The goroutine that listens, with what it has sent to the channel, and the function that waits for it; an error
  that is \<open>nil\<close> is \<open>None\<close>.
\<close>

datatype listener = Serving | Sent "go_error option"

datatype run_phase = Selecting | ShuttingDown | Joining | Returned "go_error option"

text \<open>
  Listening can fail at any time. \<open>Shutdown\<close> makes it end with \<open>ErrServerClosed\<close>, which is sent as \<open>nil\<close>, and
  itself fails when the requests in flight do not end in time.
\<close>

inductive http_step :: "bool \<Rightarrow> listener \<times> run_phase \<Rightarrow> listener \<times> run_phase \<Rightarrow> bool" for cancelled where
  listening_fails: "http_step cancelled (Serving, r) (Sent (Some e), r)"
| closed: "http_step cancelled (Serving, ShuttingDown) (Sent None, ShuttingDown)"
| closed_late: "http_step cancelled (Serving, Joining) (Sent None, Joining)"
| ended: "http_step cancelled (Sent e, Selecting) (Sent e, Returned e)"
| stopping: "cancelled \<Longrightarrow> http_step cancelled (l, Selecting) (l, ShuttingDown)"
| drained: "http_step cancelled (l, ShuttingDown) (l, Joining)"
| not_drained: "http_step cancelled (l, ShuttingDown) (l, Returned (Some e))"
| joined: "http_step cancelled (Sent e, Joining) (Sent e, Returned e)"

section \<open>A process\<close>

text \<open>What a process returns: the error of its loop, or else that of its server.\<close>

definition process_error :: "go_error option \<Rightarrow> go_error option \<Rightarrow> go_error option" where
  "process_error looped served = (case looped of Some e \<Rightarrow> Some e | None \<Rightarrow> served)"

datatype loop_phase = Looping | Reported "go_error option"

record process =
  pr_Cancelled :: bool
  pr_Http :: "listener \<times> run_phase"
  pr_Loop :: loop_phase
  pr_Result :: "go_error option option"

definition process_start :: process where
  "process_start =
     \<lparr>pr_Cancelled = False, pr_Http = (Serving, Selecting), pr_Loop = Looping, pr_Result = None\<rparr>"

text \<open>
  The steps of the process on its own: the server and the loop go on, the loop's goroutine sends its result and
  then cancels the context, and the function returns after the server and the loop did.
\<close>

inductive process_step :: "(bool \<Rightarrow> go_error option \<Rightarrow> bool) \<Rightarrow> process \<Rightarrow> process \<Rightarrow> bool" for may_stop where
  serves: "http_step (pr_Cancelled p) (pr_Http p) h \<Longrightarrow> process_step may_stop p (p\<lparr>pr_Http := h\<rparr>)"
| loop_stops: "pr_Loop p = Looping \<Longrightarrow> may_stop (pr_Cancelled p) e \<Longrightarrow>
    process_step may_stop p (p\<lparr>pr_Loop := Reported e\<rparr>)"
| loop_cancels: "pr_Loop p = Reported e \<Longrightarrow> \<not> pr_Cancelled p \<Longrightarrow>
    process_step may_stop p (p\<lparr>pr_Cancelled := True\<rparr>)"
| returns: "pr_Result p = None \<Longrightarrow> pr_Http p = (l, Returned served) \<Longrightarrow> pr_Loop p = Reported looped \<Longrightarrow>
    process_step may_stop p
      (p\<lparr>pr_Result := Some (process_error looped served), pr_Cancelled := True\<rparr>)"

text \<open>The process with a signal from outside, which cancels the context.\<close>

inductive signalled_step :: "(bool \<Rightarrow> go_error option \<Rightarrow> bool) \<Rightarrow> process \<Rightarrow> process \<Rightarrow> bool" for may_stop where
  own: "process_step may_stop p p' \<Longrightarrow> signalled_step may_stop p p'"
| signal: "signalled_step may_stop p (p\<lparr>pr_Cancelled := True\<rparr>)"

text \<open>
  The functions that run a server and a loop, for any loop: \<open>may_stop c e\<close> says that the loop can return \<open>e\<close> while
  the context is cancelled or not, as \<open>c\<close> says. The loops that the three are given (\<open>KeepSubscribed\<close>, \<open>Run\<close> of the
  relay and \<open>Run\<close> of the worker) return \<open>nil\<close> once the context is cancelled, and not before.
\<close>

definition serveAndSubscribe :: "(bool \<Rightarrow> go_error option \<Rightarrow> bool) \<Rightarrow> process \<Rightarrow> process \<Rightarrow> bool" where
  "serveAndSubscribe may_stop = process_step may_stop"

definition serveAndRelay :: "(bool \<Rightarrow> go_error option \<Rightarrow> bool) \<Rightarrow> process \<Rightarrow> process \<Rightarrow> bool" where
  "serveAndRelay may_stop = process_step may_stop"

definition runUntilEitherStops :: "(bool \<Rightarrow> go_error option \<Rightarrow> bool) \<Rightarrow> process \<Rightarrow> process \<Rightarrow> bool" where
  "runUntilEitherStops may_stop = process_step may_stop"

definition until_cancelled :: "bool \<Rightarrow> go_error option \<Rightarrow> bool" where
  "until_cancelled cancelled e \<longleftrightarrow> cancelled \<and> e = None"

section \<open>Facts\<close>

inductive_cases http_stepE: "http_step cancelled h h'"
inductive_cases process_stepE: "process_step may_stop p p'"

inductive_simps http_returned: "http_step cancelled (Sent e, Returned r) h'"

text \<open>What is true of every state: nothing has returned that did not stop first, and a result means both have.\<close>

definition process_inv :: "process \<Rightarrow> bool" where
  "process_inv p \<longleftrightarrow>
     (case pr_Result p of
        None \<Rightarrow> True
      | Some r \<Rightarrow> pr_Cancelled p \<and>
          (\<exists>l served looped. pr_Http p = (l, Returned served) \<and> pr_Loop p = Reported looped \<and>
             r = process_error looped served))"

lemma returned_stays: "http_step c (l, Returned r) h \<Longrightarrow> \<exists>l'. h = (l', Returned r)"
  by (erule http_step.cases) auto

lemma process_inv_step: "process_step may_stop p p' \<Longrightarrow> process_inv p \<Longrightarrow> process_inv p'"
proof (induction rule: process_step.induct)
  case (serves p h)
  show ?case
  proof (cases "pr_Result p")
    case None
    then show ?thesis by (simp add: process_inv_def)
  next
    case (Some r)
    with serves(2) obtain l served looped where "pr_Http p = (l, Returned served)" "pr_Cancelled p"
      "pr_Loop p = Reported looped" "r = process_error looped served"
      by (auto simp: process_inv_def)
    moreover from this(1) serves(1) obtain l' where "h = (l', Returned served)" by (auto dest: returned_stays)
    ultimately show ?thesis using Some by (auto simp: process_inv_def)
  qed
qed (auto simp: process_inv_def split: option.splits)

text \<open>The process returns only after its server and its loop have, with the loop's error or else the server's.\<close>

lemma returns_after_both:
  assumes "(signalled_step may_stop)\<^sup>*\<^sup>* process_start p"
  shows "process_inv p"
  using assms
proof (induction rule: rtranclp_induct)
  case base
  show ?case by (simp add: process_inv_def process_start_def)
next
  case (step p p')
  from step(2) show ?case
  proof cases
    case own
    with step(3) show ?thesis by (simp add: process_inv_step)
  next
    case signal
    with step(3) show ?thesis by (simp add: process_inv_def split: option.splits)
  qed
qed

text \<open>Every step uses something up, so no process takes steps for ever.\<close>

fun http_left :: "listener \<times> run_phase \<Rightarrow> nat" where
  "http_left (l, r) =
     (case l of Serving \<Rightarrow> 1 | Sent e \<Rightarrow> 0) +
     (case r of Selecting \<Rightarrow> 3 | ShuttingDown \<Rightarrow> 2 | Joining \<Rightarrow> 1 | Returned e \<Rightarrow> 0)"

definition steps_left :: "process \<Rightarrow> nat" where
  "steps_left p =
     http_left (pr_Http p) + (if pr_Loop p = Looping then 1 else 0) + (if pr_Cancelled p then 0 else 1) +
     (if pr_Result p = None then 1 else 0)"

lemma http_step_left: "http_step c h h' \<Longrightarrow> http_left h' < http_left h"
  by (induction rule: http_step.induct) auto

lemma process_step_left: "process_step may_stop p p' \<Longrightarrow> steps_left p' < steps_left p"
  by (induction rule: process_step.induct) (auto simp: steps_left_def dest: http_step_left)

lemma http_not_stuck: "h = (l, r) \<Longrightarrow> (\<And>e. r \<noteq> Returned e) \<Longrightarrow> \<exists>h'. http_step True h h'"
  by (cases l; cases r) (auto intro: http_step.intros)

text \<open>A process that is cancelled and has not returned can go on, when its loop can stop.\<close>

lemma cancelled_not_stuck:
  assumes "may_stop True e0" "pr_Cancelled p" "pr_Result p = None"
  shows "\<exists>p'. process_step may_stop p p'"
proof -
  obtain l r where h: "pr_Http p = (l, r)" by (cases "pr_Http p")
  show ?thesis
  proof (cases "\<exists>e. r = Returned e")
    case True
    then obtain served where r: "r = Returned served" by blast
    show ?thesis
    proof (cases "pr_Loop p")
      case Looping
      then show ?thesis using process_step.loop_stops [of p may_stop e0] assms(1,2) by auto
    next
      case (Reported looped)
      then show ?thesis using process_step.returns [OF assms(3)] h r by blast
    qed
  next
    case False
    with http_not_stuck [OF h] obtain h' where "http_step (pr_Cancelled p) (pr_Http p) h'" using assms(2) by auto
    then show ?thesis by (blast intro: process_step.serves)
  qed
qed

text \<open>What the loop reported it did return, and an error of the server comes from its listener or its shutdown.\<close>

lemma loop_reported:
  assumes "(signalled_step may_stop)\<^sup>*\<^sup>* process_start p"
  shows "pr_Loop p = Reported e \<Longrightarrow> \<exists>c. may_stop c e"
  using assms
proof (induction rule: rtranclp_induct)
  case (step p p')
  from step(2) show ?case
  proof cases
    case own
    then show ?thesis using step(3,4) by (auto elim!: process_stepE)
  qed (use step(3,4) in auto)
qed (simp add: process_start_def)

lemma cancelled_stays: "(process_step may_stop)\<^sup>*\<^sup>* p p' \<Longrightarrow> pr_Cancelled p \<Longrightarrow> pr_Cancelled p'"
proof (induction rule: rtranclp_induct)
  case (step q q')
  from step(2) step(3) [OF step(4)] show ?case by (induction rule: process_step.induct) auto
qed

lemma own_steps: "(process_step may_stop)\<^sup>*\<^sup>* p p' \<Longrightarrow> (signalled_step may_stop)\<^sup>*\<^sup>* p p'"
  by (rule rtranclp_mono [THEN predicate2D]) (auto intro: signalled_step.own)

text \<open>A listener that failed while the loop goes on: nothing cancels the context, and nothing can happen.\<close>

definition deaf_process :: "go_error \<Rightarrow> process" where
  "deaf_process e =
     \<lparr>pr_Cancelled = False, pr_Http = (Sent (Some e), Returned (Some e)), pr_Loop = Looping, pr_Result = None\<rparr>"

lemma deaf_process_hangs:
  assumes "run \<in> {serveAndSubscribe until_cancelled, serveAndRelay until_cancelled, runUntilEitherStops until_cancelled}"
  shows "run\<^sup>*\<^sup>* process_start (deaf_process e) \<and> \<not> run (deaf_process e) p"
proof -
  have 1: "process_step until_cancelled process_start (process_start\<lparr>pr_Http := (Sent (Some e), Selecting)\<rparr>)"
    by (rule process_step.serves) (simp add: process_start_def http_step.listening_fails)
  have 2: "process_step until_cancelled (process_start\<lparr>pr_Http := (Sent (Some e), Selecting)\<rparr>) (deaf_process e)"
    using process_step.serves [of "process_start\<lparr>pr_Http := (Sent (Some e), Selecting)\<rparr>"
        "(Sent (Some e), Returned (Some e))" until_cancelled]
    by (simp add: process_start_def deaf_process_def http_step.ended)
  have r: "(process_step until_cancelled)\<^sup>*\<^sup>* process_start (deaf_process e)"
    using 1 2 by (meson rtranclp.rtrancl_into_rtrancl rtranclp.rtrancl_refl)
  have "\<not> process_step until_cancelled (deaf_process e) p"
    by (auto elim!: process_stepE simp: deaf_process_def http_returned until_cancelled_def)
  moreover have "run = process_step until_cancelled"
    using assms by (auto simp: serveAndSubscribe_def serveAndRelay_def runUntilEitherStops_def)
  ultimately show ?thesis using r by simp
qed

section \<open>Properties\<close>

text \<open>
  C40. Each function that runs a loop beside a server ends once its context is cancelled, by a signal or because its
  loop returned, when the loop is one that returns then: whatever the order in which its goroutines go on, it takes
  only finitely many steps, and where it cannot take another, its server and its loop have both stopped, and it
  has returned the error of the loop where that returned one, even if the server failed too, and otherwise what the
  server returned.
\<close>

theorem process_ends_once_cancelled:
  assumes "run \<in> {serveAndSubscribe may_stop, serveAndRelay may_stop, runUntilEitherStops may_stop}"
    and "may_stop True e0"
    and "(signalled_step may_stop)\<^sup>*\<^sup>* process_start p" "pr_Cancelled p"
    and "run\<^sup>*\<^sup>* p p'" "\<forall>q. \<not> run p' q"
  shows "wfP (\<lambda>q p. run p q) \<and>
    (\<exists>l served looped c. pr_Http p' = (l, Returned served) \<and> pr_Loop p' = Reported looped \<and> may_stop c looped \<and>
       pr_Result p' = Some (if looped = None then served else looped))"
proof -
  have run: "run = process_step may_stop"
    using assms(1) by (auto simp: serveAndSubscribe_def serveAndRelay_def runUntilEitherStops_def)
  have w: "wfP (\<lambda>q p. run p q)"
    by (rule wfp_if_convertible_to_nat [of _ steps_left]) (simp add: run process_step_left)
  have r: "(signalled_step may_stop)\<^sup>*\<^sup>* process_start p'"
    using assms(3) own_steps [OF assms(5) [unfolded run]] by (rule rtranclp_trans)
  then have i: "process_inv p'" by (rule returns_after_both)
  have "pr_Cancelled p'" using cancelled_stays assms(4,5) unfolding run by blast
  with cancelled_not_stuck [of may_stop e0 p'] assms(2,6) have "pr_Result p' \<noteq> None" by (auto simp: run)
  with i obtain l served looped where
    "pr_Http p' = (l, Returned served)" "pr_Loop p' = Reported looped" "pr_Result p' = Some (process_error looped served)"
    by (auto simp: process_inv_def split: option.splits)
  moreover have "process_error looped served = (if looped = None then served else looped)"
    by (cases looped) (simp_all add: process_error_def)
  moreover obtain c where "may_stop c looped" using loop_reported [OF r \<open>pr_Loop p' = Reported looped\<close>] by blast
  ultimately show ?thesis using w by (intro conjI exI [of _ l] exI [of _ served] exI [of _ looped] exI [of _ c]) simp_all
qed

text \<open>
  A loop that fails of itself, beside a server whose shutdown then fails as well: the error of the loop is what is
  returned.
\<close>

definition failed_process :: process where
  "failed_process =
     \<lparr>pr_Cancelled = True, pr_Http = (Sent None, Returned (Some (DriverError ContextDeadline))), pr_Loop = Reported (Some NoRows),
      pr_Result = Some (Some NoRows)\<rparr>"

theorem process_ends_once_cancelled_witness:
  "(serveAndSubscribe (\<lambda>c e. c \<or> e = Some NoRows))\<^sup>*\<^sup>* process_start failed_process \<and>
   pr_Result failed_process = Some (Some NoRows)"
proof -
  let ?m = "\<lambda>c e. c \<or> e = Some NoRows"
  let ?p = "\<lambda>c h l r. \<lparr>pr_Cancelled = c, pr_Http = h, pr_Loop = l, pr_Result = r\<rparr>"
  let ?f = "Reported (Some NoRows)" and ?h = "(Sent None, Returned (Some (DriverError ContextDeadline)))"
  have s: "process_step ?m (?p True h l r) (?p True h' l r)" if "http_step True h h'" for h h' l r
    using process_step.serves [of "?p True h l r" h' ?m] that by simp
  have 1: "process_step ?m process_start (?p False (Serving, Selecting) ?f None)"
    using process_step.loop_stops [of process_start ?m "Some NoRows"] by (simp add: process_start_def)
  have 2: "process_step ?m (?p False (Serving, Selecting) ?f None) (?p True (Serving, Selecting) ?f None)"
    using process_step.loop_cancels [of "?p False (Serving, Selecting) ?f None" "Some NoRows" ?m] by simp
  have 3: "process_step ?m (?p True (Serving, Selecting) ?f None) (?p True (Serving, ShuttingDown) ?f None)"
    by (rule s) (simp add: http_step.stopping)
  have 4: "process_step ?m (?p True (Serving, ShuttingDown) ?f None) (?p True (Sent None, ShuttingDown) ?f None)"
    by (rule s) (rule http_step.closed)
  have 5: "process_step ?m (?p True (Sent None, ShuttingDown) ?f None) (?p True ?h ?f None)"
    by (rule s) (rule http_step.not_drained)
  have 6: "process_step ?m (?p True ?h ?f None) failed_process"
    using process_step.returns [of "?p True ?h ?f None" "Sent None" "Some (DriverError ContextDeadline)" "Some NoRows" ?m]
    by (simp add: failed_process_def process_error_def)
  have run: "(process_step ?m)\<^sup>*\<^sup>* (?p True (Serving, Selecting) ?f None) failed_process"
    using 3 4 5 6 by (meson rtranclp.rtrancl_into_rtrancl rtranclp.rtrancl_refl)
  have all: "(process_step ?m)\<^sup>*\<^sup>* process_start (?p True (Serving, Selecting) ?f None)"
    using 1 2 by (meson rtranclp.rtrancl_into_rtrancl rtranclp.rtrancl_refl)
  have stuck: "\<not> process_step ?m failed_process q" for q
    using process_step_left [of ?m failed_process q] by (auto simp: steps_left_def failed_process_def)
  from process_ends_once_cancelled [of "serveAndSubscribe ?m" ?m None "?p True (Serving, Selecting) ?f None" failed_process]
    own_steps [OF all] run stuck
  have "pr_Result failed_process = Some (Some NoRows)"
    by (auto simp: serveAndSubscribe_def failed_process_def)
  with run all show ?thesis by (simp add: serveAndSubscribe_def)
qed

end
